(* ===== verification/Prelude.thy ===== *)
theory Prelude
  imports Main
begin

text \<open>
  The shared base of the development: the theorem collections the component
  theories fill, and generic facts about sums over functions of finite support,
  partial maps with a default and lists.
\<close>

section \<open>Theorem collections\<close>

named_theorems int_simps \<open>evaluation of the checked machine arithmetic\<close>
named_theorems vm_simps \<open>execution of the contract monad on host primitives\<close>
named_theorems store_simps \<open>closed forms of the storage accessors\<close>

section \<open>Sums of functions with finite support\<close>

text \<open>
  Contract state is kept per user, in maps whose missing entries read as zero.
  The total over all users is the sum over the (finite) support.
\<close>

definition support :: "('k \<Rightarrow> int) \<Rightarrow> 'k set" where
  "support f = {k. f k \<noteq> 0}"

definition total_of :: "('k \<Rightarrow> int) \<Rightarrow> int" where
  "total_of f = sum f (support f)"

lemma support_iff [simp]: "k \<in> support f \<longleftrightarrow> f k \<noteq> 0"
  by (simp add: support_def)

lemma finite_support_zero [simp]: "finite (support (\<lambda>_. 0))"
  by (simp add: support_def)

lemma total_of_zero [simp]: "total_of (\<lambda>_. 0) = 0"
  by (simp add: total_of_def)

lemma finite_support_upd [simp]:
  assumes "finite (support f)"
  shows "finite (support (f(k := v)))"
proof -
  have "support (f(k := v)) \<subseteq> insert k (support f)"
    by (auto simp: support_def)
  then show ?thesis
    using assms finite_subset by blast
qed

lemma total_of_superset:
  assumes "finite A" "support f \<subseteq> A"
  shows "total_of f = sum f A"
  unfolding total_of_def
  by (rule sum.mono_neutral_left) (use assms in auto)

lemma total_of_upd:
  assumes fin: "finite (support f)"
  shows "total_of (f(k := v)) = total_of f - f k + v"
proof -
  let ?A = "insert k (support f)"
  have A: "finite ?A" using fin by simp
  have "total_of (f(k := v)) = sum (f(k := v)) ?A"
    by (rule total_of_superset [OF A]) (auto split: if_splits)
  also have "\<dots> = v + sum f (support f - {k})"
    using fin by (simp add: sum.insert_remove)
  also have "sum f (support f - {k}) = total_of f - f k"
    using fin by (simp add: total_of_def sum_diff1)
  finally show ?thesis by (simp only: add.commute)
qed

lemma total_of_add:
  assumes "finite (support f)" "finite (support g)"
  shows "total_of (\<lambda>k. f k + g k) = total_of f + total_of g"
proof -
  let ?A = "support f \<union> support g"
  have A: "finite ?A" using assms by simp
  have "total_of (\<lambda>k. f k + g k) = (\<Sum>k\<in>?A. f k + g k)"
    by (rule total_of_superset [OF A]) auto
  also have "\<dots> = sum f ?A + sum g ?A"
    by (rule sum.distrib)
  also have "sum f ?A = total_of f"
    by (rule total_of_superset [OF A, symmetric]) auto
  also have "sum g ?A = total_of g"
    by (rule total_of_superset [OF A, symmetric]) auto
  finally show ?thesis .
qed

lemma finite_support_add [simp]:
  assumes "finite (support f)" "finite (support g)"
  shows "finite (support (\<lambda>k. f k + g k))"
  by (rule finite_subset [of _ "support f \<union> support g"]) (use assms in auto)

lemma finite_support_mult:
  assumes "finite (support f)"
  shows "finite (support (\<lambda>k. f k * g k))"
  by (rule finite_subset [OF _ assms]) auto

lemma total_of_cmult:
  assumes "finite (support f)"
  shows "total_of (\<lambda>k. f k * c) = total_of f * c"
proof -
  have "total_of (\<lambda>k. f k * c) = (\<Sum>k\<in>support f. f k * c)"
    by (rule total_of_superset [OF assms]) auto
  then show ?thesis by (simp add: total_of_def sum_distrib_right)
qed

lemma total_of_nonneg: "(\<And>k. 0 \<le> f k) \<Longrightarrow> 0 \<le> total_of f"
  by (simp add: total_of_def sum_nonneg)

lemma member_le_total:
  assumes fin: "finite (support f)" and nn: "\<And>k. 0 \<le> f k"
  shows "f k \<le> total_of f"
proof (cases "k \<in> support f")
  case True
  then show ?thesis
    unfolding total_of_def using fin nn by (intro member_le_sum) auto
next
  case False
  then show ?thesis using total_of_nonneg [of f] nn by simp
qed

lemma total_of_mono:
  assumes fin: "finite (support f)" "finite (support g)" and le: "\<And>k. f k \<le> g k"
  shows "total_of f \<le> total_of g"
proof -
  let ?A = "support f \<union> support g"
  have A: "finite ?A" using fin by simp
  have "total_of f = sum f ?A" by (rule total_of_superset [OF A]) auto
  also have "\<dots> \<le> sum g ?A" by (rule sum_mono) (rule le)
  also have "\<dots> = total_of g" by (rule total_of_superset [OF A, symmetric]) auto
  finally show ?thesis .
qed

section \<open>Maps with a default value\<close>

text \<open>\<open>unwrap_or d o\<close> is Rust's \<open>o.unwrap_or(d)\<close>.\<close>

definition unwrap_or :: "'a \<Rightarrow> 'a option \<Rightarrow> 'a" where
  "unwrap_or d x = (case x of None \<Rightarrow> d | Some v \<Rightarrow> v)"

lemma unwrap_or_simps [simp]:
  "unwrap_or d None = d"
  "unwrap_or d (Some v) = v"
  by (simp_all add: unwrap_or_def)

section \<open>Results\<close>

text \<open>
  Fallible pure code returns \<open>'e + 'a\<close>; \<open>rbind\<close> is Rust's \<open>?\<close> and \<open>rok_or\<close>
  its \<open>ok_or\<close>.
\<close>

definition rbind :: "'e + 'a \<Rightarrow> ('a \<Rightarrow> 'e + 'b) \<Rightarrow> 'e + 'b" where
  "rbind r f = (case r of Inl e \<Rightarrow> Inl e | Inr x \<Rightarrow> f x)"

definition rok_or :: "'e \<Rightarrow> 'a option \<Rightarrow> 'e + 'a" where
  "rok_or e x = (case x of None \<Rightarrow> Inl e | Some v \<Rightarrow> Inr v)"

lemma rbind_simps [simp]:
  "rbind (Inl e) f = Inl e"
  "rbind (Inr x) f = f x"
  by (simp_all add: rbind_def)

lemma rok_or_simps [simp]:
  "rok_or e None = Inl e"
  "rok_or e (Some v) = Inr v"
  by (simp_all add: rok_or_def)

lemma rbind_Inr_iff: "rbind r f = Inr y \<longleftrightarrow> (\<exists>x. r = Inr x \<and> f x = Inr y)"
  by (simp add: rbind_def split: sum.splits)

lemma rok_or_Inr_iff [simp]: "rok_or e x = Inr y \<longleftrightarrow> x = Some y"
  by (simp add: rok_or_def split: option.splits)

lemma rok_or_Inl_iff [simp]: "rok_or e x = Inl e' \<longleftrightarrow> x = None \<and> e' = e"
  by (auto simp: rok_or_def split: option.splits)

end
