(* ===== verification/Rust_Int.thy ===== *)
theory Rust_Int
  imports Prelude
begin

text \<open>
  Rust's fixed-width integers as HOL integers with the range written out. A
  value of type \<open>i128\<close>, \<open>u128\<close>, \<open>u64\<close> or \<open>u32\<close> is an \<^typ>\<open>int\<close>
  in the range the predicates below give; the \<open>checked_*\<close> operations return
  \<^const>\<open>None\<close> exactly where Rust's do, \<open>wrapping_*\<close> reduce modulo the
  width, and the \<open>as_*\<close> functions are the \<open>as\<close> casts.
\<close>

section \<open>Ranges\<close>

definition in_i128 :: "int \<Rightarrow> bool" where
  "in_i128 x \<longleftrightarrow> - (2 ^ 127) \<le> x \<and> x < 2 ^ 127"

definition in_u128 :: "int \<Rightarrow> bool" where
  "in_u128 x \<longleftrightarrow> 0 \<le> x \<and> x < 2 ^ 128"

definition in_u64 :: "int \<Rightarrow> bool" where
  "in_u64 x \<longleftrightarrow> 0 \<le> x \<and> x < 2 ^ 64"

definition in_u32 :: "int \<Rightarrow> bool" where
  "in_u32 x \<longleftrightarrow> 0 \<le> x \<and> x < 2 ^ 32"

section \<open>Casts\<close>

definition as_u128 :: "int \<Rightarrow> int" where
  "as_u128 x = x mod 2 ^ 128"

definition as_u32 :: "int \<Rightarrow> int" where
  "as_u32 x = x mod 2 ^ 32"

definition as_i128 :: "int \<Rightarrow> int" where
  "as_i128 x = (let y = x mod 2 ^ 128 in if y < 2 ^ 127 then y else y - 2 ^ 128)"

definition wrapping_add_i128 :: "int \<Rightarrow> int \<Rightarrow> int" where
  "wrapping_add_i128 a b = as_i128 (a + b)"

section \<open>Checked operations\<close>

text \<open>Rust's \<open>/\<close> truncates towards zero.\<close>

definition trunc_div :: "int \<Rightarrow> int \<Rightarrow> int" where
  "trunc_div a b = sgn a * sgn b * (\<bar>a\<bar> div \<bar>b\<bar>)"

definition checked :: "(int \<Rightarrow> bool) \<Rightarrow> int \<Rightarrow> int option" where
  "checked P x = (if P x then Some x else None)"

definition checked_add_i128 :: "int \<Rightarrow> int \<Rightarrow> int option" where
  "checked_add_i128 a b = checked in_i128 (a + b)"

definition checked_sub_i128 :: "int \<Rightarrow> int \<Rightarrow> int option" where
  "checked_sub_i128 a b = checked in_i128 (a - b)"

definition checked_mul_i128 :: "int \<Rightarrow> int \<Rightarrow> int option" where
  "checked_mul_i128 a b = checked in_i128 (a * b)"

definition checked_div_i128 :: "int \<Rightarrow> int \<Rightarrow> int option" where
  "checked_div_i128 a b = (if b = 0 then None else checked in_i128 (trunc_div a b))"

definition checked_mul_u128 :: "int \<Rightarrow> int \<Rightarrow> int option" where
  "checked_mul_u128 a b = checked in_u128 (a * b)"

definition checked_div_u128 :: "int \<Rightarrow> int \<Rightarrow> int option" where
  "checked_div_u128 a b = (if b = 0 then None else Some (a div b))"

definition checked_add_u64 :: "int \<Rightarrow> int \<Rightarrow> int option" where
  "checked_add_u64 a b = checked in_u64 (a + b)"

definition checked_sub_u64 :: "int \<Rightarrow> int \<Rightarrow> int option" where
  "checked_sub_u64 a b = checked in_u64 (a - b)"

definition saturating_add_u64 :: "int \<Rightarrow> int \<Rightarrow> int" where
  "saturating_add_u64 a b = min (a + b) (2 ^ 64 - 1)"

lemmas checked_defs [int_simps] =
  checked_add_i128_def checked_sub_i128_def checked_mul_i128_def checked_div_i128_def
  checked_mul_u128_def checked_div_u128_def checked_add_u64_def checked_sub_u64_def

section \<open>Facts the components use\<close>

lemma checked_Some_iff [simp, int_simps]: "checked P x = Some y \<longleftrightarrow> P x \<and> y = x"
  by (auto simp: checked_def)

lemma checked_None_iff [simp, int_simps]: "checked P x = None \<longleftrightarrow> \<not> P x"
  by (simp add: checked_def)

lemma trunc_div_nonneg [simp, int_simps]:
  assumes "0 \<le> a" "0 < b" shows "trunc_div a b = a div b"
proof (cases "a = 0")
  case True
  then show ?thesis by (simp add: trunc_div_def)
next
  case False
  with assms show ?thesis by (simp add: trunc_div_def)
qed

lemma div_le_self_nonneg: "0 \<le> (a::int) \<Longrightarrow> 0 < b \<Longrightarrow> a div b \<le> a"
  by (metis div_by_1 int_one_le_iff_zero_less zdiv_mono2 zero_less_one)

lemma div_mult_le: "0 < (b::int) \<Longrightarrow> a div b * b \<le> a"
  using minus_mod_eq_div_mult [of a b] pos_mod_sign [of b a] by linarith

lemma in_i128_between: "in_i128 b \<Longrightarrow> 0 \<le> a \<Longrightarrow> a \<le> b \<Longrightarrow> in_i128 a"
  by (auto simp: in_i128_def intro: order_trans [of _ 0])

lemma in_i128_zero [simp]: "in_i128 0"
  by (simp add: in_i128_def)

lemma as_u128_id [simp, int_simps]: "in_u128 x \<Longrightarrow> as_u128 x = x"
  by (simp add: as_u128_def in_u128_def)

lemma as_i128_id [simp, int_simps]: "in_i128 x \<Longrightarrow> as_i128 x = x"
proof -
  assume a: "in_i128 x"
  show "as_i128 x = x"
  proof (cases "0 \<le> x")
    case True
    with a show ?thesis by (simp add: as_i128_def in_i128_def)
  next
    case False
    have "x mod 2 ^ 128 = (x + 2 ^ 128) mod 2 ^ 128" by simp
    also have "\<dots> = x + 2 ^ 128"
      using a False by (intro mod_pos_pos_trivial) (simp_all add: in_i128_def)
    finally have "x mod 2 ^ 128 = x + 2 ^ 128" .
    with False a show ?thesis by (simp add: as_i128_def in_i128_def)
  qed
qed

lemma in_i128_as_i128 [simp]: "in_i128 (as_i128 x)"
proof -
  have "0 \<le> x mod 2 ^ 128" "x mod 2 ^ 128 < (2::int) ^ 128" by simp_all
  then show ?thesis by (auto simp: as_i128_def in_i128_def Let_def)
qed

lemma nonneg_i128_u128 [simp]: "in_i128 x \<Longrightarrow> 0 \<le> x \<Longrightarrow> in_u128 x"
  by (simp add: in_i128_def in_u128_def)

end
