(* ===== verification/Vault_Errors.thy ===== *)
theory Vault_Errors
  imports Rust_Int
begin

text \<open>
  The error types of the vault contract (\<open>contracts/vault-contract/src/errors.rs\<close>):
  the six families of sub-errors, the exposed \<open>VaultError\<close> with its numeric
  codes, its category and message table, and the \<open>From\<close> conversions. Constructors of
  a sub-error family carry the family's prefix, those of \<open>VaultError\<close> the names of the
  source.
\<close>

section \<open>Categories and sub-errors\<close>

datatype ErrorCategory = CatAuthorization | CatBalance | CatMath | CatState | CatValidation

record ErrorInfo =
  category_of :: ErrorCategory
  message_of :: string

datatype StateError =
  SE_AlreadyInitialized | SE_NotInitialized | SE_InvalidState | SE_NoPendingAdmin

datatype ValidationError =
  VE_InvalidAmount | VE_NegativeAmount | VE_InvalidAddress | VE_InvalidTokenConfiguration
| VE_InsufficientRewardAmount | VE_InvalidLockDuration | VE_InvalidUtilizationParameters

datatype BalanceError =
  BE_InsufficientBalance | BE_InsufficientContractBalance | BE_NoDeposits

datatype ArithmeticError =
  AE_Overflow | AE_RewardCalculationFailed | AE_ZeroRewardIncrement

datatype VestingError = VS_RewardsNotVested

datatype AuthorizationError =
  AU_Unauthorized | AU_ReentrancyDetected | AU_UpgradeFailed | AU_OperationLimitExceeded

section \<open>The exposed error type\<close>

datatype VaultError =
  AlreadyInitialized
| NotInitialized
| Unauthorized
| InvalidAmount
| InsufficientBalance
| MathOverflow
| NoDeposits
| InvalidTokenConfiguration
| InsufficientContractBalance
| NegativeAmount
| InvalidAddress
| RewardCalculationFailed
| ReentrancyDetected
| InvalidState
| ZeroRewardIncrement
| NoPendingAdmin
| RewardsNotVested
| InsufficientRewardAmount
| InvalidLockDuration
| UpgradeFailed
| OperationLimitExceeded
| InvalidUtilizationParameters

text \<open>The \<open>repr(u32)\<close> discriminants.\<close>

fun error_code :: "VaultError \<Rightarrow> int" where
  "error_code AlreadyInitialized = 1"
| "error_code NotInitialized = 2"
| "error_code Unauthorized = 3"
| "error_code InvalidAmount = 4"
| "error_code InsufficientBalance = 5"
| "error_code MathOverflow = 6"
| "error_code NoDeposits = 7"
| "error_code InvalidTokenConfiguration = 8"
| "error_code InsufficientContractBalance = 9"
| "error_code NegativeAmount = 10"
| "error_code InvalidAddress = 11"
| "error_code RewardCalculationFailed = 12"
| "error_code ReentrancyDetected = 13"
| "error_code InvalidState = 14"
| "error_code ZeroRewardIncrement = 15"
| "error_code NoPendingAdmin = 16"
| "error_code RewardsNotVested = 17"
| "error_code InsufficientRewardAmount = 18"
| "error_code InvalidLockDuration = 19"
| "error_code UpgradeFailed = 20"
| "error_code OperationLimitExceeded = 21"
| "error_code InvalidUtilizationParameters = 22"

fun info :: "VaultError \<Rightarrow> ErrorInfo" where
  "info AlreadyInitialized =
     \<lparr> category_of = CatState,
       message_of = ''vault has already been initialized'' \<rparr>"
| "info NotInitialized =
     \<lparr> category_of = CatState,
       message_of = ''vault has not been initialized'' \<rparr>"
| "info Unauthorized =
     \<lparr> category_of = CatAuthorization,
       message_of = ''caller is not authorized to perform this action'' \<rparr>"
| "info InvalidAmount =
     \<lparr> category_of = CatValidation,
       message_of = ''amount must be greater than zero'' \<rparr>"
| "info InsufficientBalance =
     \<lparr> category_of = CatBalance,
       message_of = ''available balance is lower than the requested amount'' \<rparr>"
| "info MathOverflow =
     \<lparr> category_of = CatMath,
       message_of = ''arithmetic overflow or underflow detected'' \<rparr>"
| "info NoDeposits =
     \<lparr> category_of = CatBalance,
       message_of = ''reward distribution requires at least one active deposit'' \<rparr>"
| "info InvalidTokenConfiguration =
     \<lparr> category_of = CatValidation,
       message_of = ''deposit and reward token addresses must be different'' \<rparr>"
| "info InsufficientContractBalance =
     \<lparr> category_of = CatBalance,
       message_of = ''vault token balance is lower than the requested amount'' \<rparr>"
| "info NegativeAmount =
     \<lparr> category_of = CatValidation,
       message_of = ''amount must not be negative'' \<rparr>"
| "info InvalidAddress =
     \<lparr> category_of = CatValidation,
       message_of = ''provided address is invalid'' \<rparr>"
| "info RewardCalculationFailed =
     \<lparr> category_of = CatMath,
       message_of = ''reward calculation failed due to checked arithmetic'' \<rparr>"
| "info ReentrancyDetected =
     \<lparr> category_of = CatAuthorization,
       message_of = ''reentrant contract call detected'' \<rparr>"
| "info InvalidState =
     \<lparr> category_of = CatState,
       message_of = ''vault state is internally inconsistent'' \<rparr>"
| "info ZeroRewardIncrement =
     \<lparr> category_of = CatMath,
       message_of = ''reward distribution rounded down to zero'' \<rparr>"
| "info NoPendingAdmin =
     \<lparr> category_of = CatState,
       message_of = ''no pending admin transfer exists'' \<rparr>"
| "info RewardsNotVested =
     \<lparr> category_of = CatValidation,
       message_of = ''rewards are not yet vested'' \<rparr>"
| "info InsufficientRewardAmount =
     \<lparr> category_of = CatValidation,
       message_of = ''reward distribution amount is too small'' \<rparr>"
| "info InvalidLockDuration =
     \<lparr> category_of = CatValidation,
       message_of = ''lock duration must be greater than zero'' \<rparr>"
| "info UpgradeFailed =
     \<lparr> category_of = CatAuthorization,
       message_of = ''contract upgrade failed'' \<rparr>"
| "info OperationLimitExceeded =
     \<lparr> category_of = CatState,
       message_of = ''operation would exceed the per-transaction budget limit'' \<rparr>"
| "info InvalidUtilizationParameters =
     \<lparr> category_of = CatValidation,
       message_of = ''utilization parameters are invalid (e.g., not sorted)'' \<rparr>"

definition category :: "VaultError \<Rightarrow> ErrorCategory" where
  "category e = category_of (info e)"

definition message :: "VaultError \<Rightarrow> string" where
  "message e = message_of (info e)"

text \<open>The derived \<open>Debug\<close> names and the two \<open>Display\<close> implementations.\<close>

fun debug_VaultError :: "VaultError \<Rightarrow> string" where
  "debug_VaultError AlreadyInitialized = ''AlreadyInitialized''"
| "debug_VaultError NotInitialized = ''NotInitialized''"
| "debug_VaultError Unauthorized = ''Unauthorized''"
| "debug_VaultError InvalidAmount = ''InvalidAmount''"
| "debug_VaultError InsufficientBalance = ''InsufficientBalance''"
| "debug_VaultError MathOverflow = ''MathOverflow''"
| "debug_VaultError NoDeposits = ''NoDeposits''"
| "debug_VaultError InvalidTokenConfiguration = ''InvalidTokenConfiguration''"
| "debug_VaultError InsufficientContractBalance = ''InsufficientContractBalance''"
| "debug_VaultError NegativeAmount = ''NegativeAmount''"
| "debug_VaultError InvalidAddress = ''InvalidAddress''"
| "debug_VaultError RewardCalculationFailed = ''RewardCalculationFailed''"
| "debug_VaultError ReentrancyDetected = ''ReentrancyDetected''"
| "debug_VaultError InvalidState = ''InvalidState''"
| "debug_VaultError ZeroRewardIncrement = ''ZeroRewardIncrement''"
| "debug_VaultError NoPendingAdmin = ''NoPendingAdmin''"
| "debug_VaultError RewardsNotVested = ''RewardsNotVested''"
| "debug_VaultError InsufficientRewardAmount = ''InsufficientRewardAmount''"
| "debug_VaultError InvalidLockDuration = ''InvalidLockDuration''"
| "debug_VaultError UpgradeFailed = ''UpgradeFailed''"
| "debug_VaultError OperationLimitExceeded = ''OperationLimitExceeded''"
| "debug_VaultError InvalidUtilizationParameters = ''InvalidUtilizationParameters''"

fun display_ErrorCategory :: "ErrorCategory \<Rightarrow> string" where
  "display_ErrorCategory CatAuthorization = ''Authorization''"
| "display_ErrorCategory CatBalance = ''Balance''"
| "display_ErrorCategory CatMath = ''Math''"
| "display_ErrorCategory CatState = ''State''"
| "display_ErrorCategory CatValidation = ''Validation''"

definition display_VaultError :: "VaultError \<Rightarrow> string" where
  "display_VaultError e = ''VaultError::'' @ debug_VaultError e @ '': '' @ message_of (info e)"

section \<open>Conversions from the sub-errors\<close>

fun from_StateError :: "StateError \<Rightarrow> VaultError" where
  "from_StateError SE_AlreadyInitialized = AlreadyInitialized"
| "from_StateError SE_NotInitialized = NotInitialized"
| "from_StateError SE_InvalidState = InvalidState"
| "from_StateError SE_NoPendingAdmin = NoPendingAdmin"

fun from_ValidationError :: "ValidationError \<Rightarrow> VaultError" where
  "from_ValidationError VE_InvalidAmount = InvalidAmount"
| "from_ValidationError VE_NegativeAmount = NegativeAmount"
| "from_ValidationError VE_InvalidAddress = InvalidAddress"
| "from_ValidationError VE_InvalidTokenConfiguration = InvalidTokenConfiguration"
| "from_ValidationError VE_InsufficientRewardAmount = InsufficientRewardAmount"
| "from_ValidationError VE_InvalidLockDuration = InvalidLockDuration"
| "from_ValidationError VE_InvalidUtilizationParameters = InvalidUtilizationParameters"

fun from_BalanceError :: "BalanceError \<Rightarrow> VaultError" where
  "from_BalanceError BE_InsufficientBalance = InsufficientBalance"
| "from_BalanceError BE_InsufficientContractBalance = InsufficientContractBalance"
| "from_BalanceError BE_NoDeposits = NoDeposits"

fun from_ArithmeticError :: "ArithmeticError \<Rightarrow> VaultError" where
  "from_ArithmeticError AE_Overflow = MathOverflow"
| "from_ArithmeticError AE_RewardCalculationFailed = RewardCalculationFailed"
| "from_ArithmeticError AE_ZeroRewardIncrement = ZeroRewardIncrement"

fun from_AuthorizationError :: "AuthorizationError \<Rightarrow> VaultError" where
  "from_AuthorizationError AU_Unauthorized = Unauthorized"
| "from_AuthorizationError AU_ReentrancyDetected = ReentrancyDetected"
| "from_AuthorizationError AU_UpgradeFailed = UpgradeFailed"
| "from_AuthorizationError AU_OperationLimitExceeded = OperationLimitExceeded"

fun from_VestingError :: "VestingError \<Rightarrow> VaultError" where
  "from_VestingError VS_RewardsNotVested = RewardsNotVested"

section \<open>Properties of the table\<close>

lemma error_code_inj: "error_code a = error_code b \<longleftrightarrow> a = b"
  by (cases a; cases b; simp)

lemma error_code_range: "1 \<le> error_code e \<and> error_code e \<le> 22"
  by (cases e) simp_all

lemma from_sub_error_inj:
  "inj from_StateError" "inj from_ValidationError" "inj from_BalanceError"
  "inj from_ArithmeticError" "inj from_AuthorizationError" "inj from_VestingError"
proof -
  show "inj from_StateError" by (rule injI) (case_tac x; case_tac y; simp)
  show "inj from_ValidationError" by (rule injI) (case_tac x; case_tac y; simp)
  show "inj from_BalanceError" by (rule injI) (case_tac x; case_tac y; simp)
  show "inj from_ArithmeticError" by (rule injI) (case_tac x; case_tac y; simp)
  show "inj from_AuthorizationError" by (rule injI) (case_tac x; case_tac y; simp)
  show "inj from_VestingError" by (rule injI) (case_tac x; case_tac y; simp)
qed

end
