(* ===== verification/Vault_Types.thy ===== *)
theory Vault_Types
  imports Vault_Errors
begin

text \<open>
  Data of the vault contract: the storage keys, the state and position structs of
  \<open>storage.rs\<close> and the event payloads of \<open>events.rs\<close>. Addresses and wasm
  hashes are opaque to the contract, which only compares and stores them; they are
  strings here.
\<close>

type_synonym Address = string
type_synonym BytesN32 = string

section \<open>Storage keys\<close>

text \<open>
  The variants of \<open>DataKey\<close>. \<open>UserLiquidBalance\<close> and \<open>UserLocks\<close> are used by
  \<open>storage.rs\<close> as variants of the same enum.
\<close>

datatype DataKey =
  Initialized | Admin | PendingAdmin | DepositToken | RewardToken | TotalDeposits | RewardIndex
| VestingPeriod | TargetDeposits | UtilizationMultipliers | ReentrancyGuard | IsPaused
| UserBalance Address | UserLiquidBalance Address | UserLocks Address
| UserRewardIndex Address | UserAccruedRewards Address | UserLastRewardTimestamp Address
| SupportedAssets | AssetTotalDeposits Address | AssetRewardIndex Address
| UserAssetBalance Address Address | UserAssetRewardIndex Address Address
| UserAssetAccruedRewards Address Address | UserAssetLastRewardTimestamp Address Address

section \<open>State and positions\<close>

text \<open>One point of the utilization curve; both fields are \<open>u32\<close> basis points.\<close>

record MultiplierPoint =
  utilization_bps :: int
  multiplier_bps :: int

text \<open>A time-locked part of a user's deposit.\<close>

record Lock =
  lock_amount :: int
  unlock_timestamp :: int
  reward_multiplier :: int

record VaultState =
  vs_admin :: Address
  vs_deposit_token :: Address
  vs_reward_token :: Address
  vs_total_deposits :: int
  vs_reward_index :: int
  vs_vesting_period :: int
  vs_target_deposits :: int
  vs_utilization_multipliers :: "MultiplierPoint list"

record UserPosition =
  up_balance :: int
  up_reward_index :: int
  up_accrued_rewards :: int
  up_last_reward_timestamp :: int

record UserRewardSnapshot =
  rs_reward_index :: int
  rs_rewards :: int
  rs_vested_rewards :: int

section \<open>Event payloads\<close>

datatype event_data =
  InitializeEvent (ev_admin: Address) (ev_deposit_token: Address) (ev_reward_token: Address) (ev_timestamp: int)
| LockEvent (ev_user: Address) (ev_amount: int) (ev_unlock: int) (ev_timestamp: int)
| UnlockEvent (ev_user: Address) (ev_amount: int) (ev_timestamp: int)
| DepositEvent (ev_user: Address) (ev_amount: int) (ev_timestamp: int)
| WithdrawEvent (ev_user: Address) (ev_amount: int) (ev_remaining: int) (ev_timestamp: int)
| DistributeEvent (ev_caller: Address) (ev_amount: int) (ev_timestamp: int)
| ClaimEvent (ev_user: Address) (ev_amount: int) (ev_timestamp: int)
| AdminTransferProposedEvent (ev_current: Address) (ev_pending: Address) (ev_timestamp: int)
| AdminTransferAcceptedEvent (ev_previous: Address) (ev_new: Address) (ev_timestamp: int)
| UpgradeEvent (ev_admin: Address) (ev_hash: BytesN32) (ev_timestamp: int)
| AssetAddedEvent (ev_asset: Address) (ev_timestamp: int)
| AssetDepositEvent (ev_user: Address) (ev_asset: Address) (ev_amount: int) (ev_timestamp: int)
| AssetWithdrawEvent (ev_user: Address) (ev_asset: Address) (ev_amount: int) (ev_remaining: int) (ev_timestamp: int)
| AssetDistributeEvent (ev_caller: Address) (ev_asset: Address) (ev_amount: int) (ev_timestamp: int)
| AssetClaimEvent (ev_user: Address) (ev_asset: Address) (ev_amount: int) (ev_timestamp: int)

record event =
  ev_topics :: "string list"
  ev_data :: event_data

end
