(* ===== verification/Vault_Env.thy ===== *)
theory Vault_Env
  imports Vault_Types
begin

text \<open>
  The host interface the contract runs on. The two storage areas are records with
  one field per \<open>DataKey\<close> variant (an option for a plain key, a partial map for
  a key with arguments), so that every read has the type the source reads it at. The
  environment also holds the ledger timestamp, who has authorised the invocation, the
  published events, the TTL extensions requested, the installed wasm and the state
  \<open>world\<close> of all other contracts. A contract function maps an environment to an
  outcome: \<open>Ok\<close> and \<open>Err\<close> are Rust's \<open>Result\<close> together with the environment
  at that point, \<open>Trap\<close> is a host trap, which aborts the invocation.
\<close>

section \<open>Storage\<close>

record inst_storage =
  k_Initialized :: "bool option"
  k_Admin :: "Address option"
  k_PendingAdmin :: "Address option"
  k_DepositToken :: "Address option"
  k_RewardToken :: "Address option"
  k_TotalDeposits :: "int option"
  k_RewardIndex :: "int option"
  k_VestingPeriod :: "int option"
  k_TargetDeposits :: "int option"
  k_UtilizationMultipliers :: "MultiplierPoint list option"
  k_ReentrancyGuard :: "bool option"
  k_IsPaused :: "bool option"
  k_SupportedAssets :: "(Address \<rightharpoonup> bool) option"
  k_AssetTotalDeposits :: "Address \<rightharpoonup> int"
  k_AssetRewardIndex :: "Address \<rightharpoonup> int"

record pers_storage =
  k_UserBalance :: "Address \<rightharpoonup> int"
  k_UserLiquidBalance :: "Address \<rightharpoonup> int"
  k_UserLocks :: "Address \<rightharpoonup> Lock list"
  k_UserRewardIndex :: "Address \<rightharpoonup> int"
  k_UserAccruedRewards :: "Address \<rightharpoonup> int"
  k_UserLastRewardTimestamp :: "Address \<rightharpoonup> int"
  k_UserAssetBalance :: "Address \<times> Address \<rightharpoonup> int"
  k_UserAssetRewardIndex :: "Address \<times> Address \<rightharpoonup> int"
  k_UserAssetAccruedRewards :: "Address \<times> Address \<rightharpoonup> int"
  k_UserAssetLastRewardTimestamp :: "Address \<times> Address \<rightharpoonup> int"

text \<open>A requested TTL extension: of the contract instance or of one persistent entry.\<close>

datatype ttl_call =
  ExtendInstance int int
| ExtendPersistent DataKey int int

section \<open>Environment and outcomes\<close>

record 'w env =
  inst :: inst_storage
  pers :: pers_storage
  timestamp :: int
  authorized :: "Address \<Rightarrow> bool"
  contract_address :: Address
  event_log :: "event list"
  ttl_log :: "ttl_call list"
  wasm :: BytesN32
  world :: 'w

datatype trap = AuthTrap Address | TokenTrap Address | PanicTrap

datatype ('a, 'w) outcome =
  Ok 'a "'w env"
| Err VaultError "'w env"
| Trap trap

type_synonym ('a, 'w) vm = "'w env \<Rightarrow> ('a, 'w) outcome"

section \<open>Sequencing\<close>

definition ret :: "'a \<Rightarrow> ('a, 'w) vm" where
  "ret x e = Ok x e"

definition throw :: "VaultError \<Rightarrow> ('a, 'w) vm" where
  "throw er e = Err er e"

text \<open>\<open>vbind m f\<close> is \<open>let x = m?; f(x)\<close>.\<close>

definition vbind :: "('a, 'w) vm \<Rightarrow> ('a \<Rightarrow> ('b, 'w) vm) \<Rightarrow> ('b, 'w) vm" where
  "vbind m f e = (case m e of Ok x e' \<Rightarrow> f x e' | Err er e' \<Rightarrow> Err er e' | Trap t \<Rightarrow> Trap t)"

definition vthen :: "('a, 'w) vm \<Rightarrow> ('b, 'w) vm \<Rightarrow> ('b, 'w) vm" where
  "vthen m k = vbind m (\<lambda>_. k)"

text \<open>\<open>o.ok_or(er)?\<close> and an early \<open>return Err(er)\<close> under a condition.\<close>

definition ok_or :: "VaultError \<Rightarrow> 'a option \<Rightarrow> ('a, 'w) vm" where
  "ok_or er x = (case x of None \<Rightarrow> throw er | Some v \<Rightarrow> ret v)"

definition fail_if :: "bool \<Rightarrow> VaultError \<Rightarrow> (unit, 'w) vm" where
  "fail_if b er = (if b then throw er else ret ())"

definition result :: "VaultError + 'a \<Rightarrow> ('a, 'w) vm" where
  "result r = (case r of Inl er \<Rightarrow> throw er | Inr v \<Rightarrow> ret v)"

section \<open>Host primitives\<close>

definition gets :: "('w env \<Rightarrow> 'a) \<Rightarrow> ('a, 'w) vm" where
  "gets f e = Ok (f e) e"

definition modify_inst :: "(inst_storage \<Rightarrow> inst_storage) \<Rightarrow> (unit, 'w) vm" where
  "modify_inst f e = Ok () (e\<lparr>inst := f (inst e)\<rparr>)"

definition modify_pers :: "(pers_storage \<Rightarrow> pers_storage) \<Rightarrow> (unit, 'w) vm" where
  "modify_pers f e = Ok () (e\<lparr>pers := f (pers e)\<rparr>)"

definition require_auth :: "Address \<Rightarrow> (unit, 'w) vm" where
  "require_auth a e = (if authorized e a then Ok () e else Trap (AuthTrap a))"

definition publish :: "string list \<Rightarrow> event_data \<Rightarrow> (unit, 'w) vm" where
  "publish ts d e = Ok () (e\<lparr>event_log := event_log e @ [\<lparr>ev_topics = ts, ev_data = d\<rparr>]\<rparr>)"

definition log_ttl :: "ttl_call list \<Rightarrow> 'w env \<Rightarrow> 'w env" where
  "log_ttl ks e = e\<lparr>ttl_log := ttl_log e @ ks\<rparr>"

definition extend_ttl :: "ttl_call \<Rightarrow> (unit, 'w) vm" where
  "extend_ttl k e = Ok () (log_ttl [k] e)"

definition update_current_contract_wasm :: "BytesN32 \<Rightarrow> (unit, 'w) vm" where
  "update_current_contract_wasm h e = Ok () (e\<lparr>wasm := h\<rparr>)"

text \<open>
  The token contracts the vault calls. \<open>tk_transfer token from to amount\<close> runs the
  token's \<open>transfer\<close> in the current environment and \<open>tk_balance token owner\<close> its
  \<open>balance\<close>; \<^const>\<open>None\<close> is a trap of the token. A token runs in the same ledger and
  may call back into the vault, so both return the environment they leave.
\<close>

record 'w token_if =
  tk_transfer :: "Address \<Rightarrow> Address \<Rightarrow> Address \<Rightarrow> int \<Rightarrow> 'w env \<Rightarrow> 'w env option"
  tk_balance :: "Address \<Rightarrow> Address \<Rightarrow> 'w env \<Rightarrow> (int \<times> 'w env) option"

definition token_transfer ::
  "'w token_if \<Rightarrow> Address \<Rightarrow> Address \<Rightarrow> Address \<Rightarrow> int \<Rightarrow> (unit, 'w) vm" where
  "token_transfer tk token from to amount e =
     (case tk_transfer tk token from to amount e of None \<Rightarrow> Trap (TokenTrap token) | Some e' \<Rightarrow> Ok () e')"

definition token_balance :: "'w token_if \<Rightarrow> Address \<Rightarrow> Address \<Rightarrow> (int, 'w) vm" where
  "token_balance tk token owner e =
     (case tk_balance tk token owner e of None \<Rightarrow> Trap (TokenTrap token) | Some (n, e') \<Rightarrow> Ok n e')"

section \<open>Execution rules\<close>

lemma vbind_Ok [vm_simps]:
  "m e = Ok x e' \<Longrightarrow> vbind m f e = f x e'"
  "m e = Err er e' \<Longrightarrow> vbind m f e = Err er e'"
  "m e = Trap t \<Longrightarrow> vbind m f e = Trap t"
  by (simp_all add: vbind_def)

lemma vbind_Ok_iff:
  "vbind m f e = Ok y e'' \<longleftrightarrow> (\<exists>x e'. m e = Ok x e' \<and> f x e' = Ok y e'')"
  by (auto simp: vbind_def split: outcome.splits)

lemma vbind_Err_iff:
  "vbind m f e = Err er e'' \<longleftrightarrow>
     m e = Err er e'' \<or> (\<exists>x e'. m e = Ok x e' \<and> f x e' = Err er e'')"
  by (auto simp: vbind_def split: outcome.splits)

lemma vthen_Ok_iff:
  "vthen m k e = Ok y e'' \<longleftrightarrow> (\<exists>x e'. m e = Ok x e' \<and> k e' = Ok y e'')"
  by (simp add: vthen_def vbind_Ok_iff)

lemma vthen_Err_iff:
  "vthen m k e = Err er e'' \<longleftrightarrow>
     m e = Err er e'' \<or> (\<exists>x e'. m e = Ok x e' \<and> k e' = Err er e'')"
  by (simp add: vthen_def vbind_Err_iff)

lemma ret_Ok_iff [simp]: "ret x e = Ok y e' \<longleftrightarrow> y = x \<and> e' = e"
  by (auto simp: ret_def)

lemma throw_not_Ok [simp]: "throw er e = Ok y e' \<longleftrightarrow> False"
  by (simp add: throw_def)

lemma ok_or_Ok_iff [simp]: "ok_or er x e = Ok y e' \<longleftrightarrow> x = Some y \<and> e' = e"
  by (auto simp: ok_or_def split: option.splits)

lemma fail_if_Ok_iff [simp]: "fail_if b er e = Ok y e' \<longleftrightarrow> \<not> b \<and> e' = e"
  by (auto simp: fail_if_def)

lemma result_Ok_iff [simp]: "result r e = Ok y e' \<longleftrightarrow> r = Inr y \<and> e' = e"
  by (auto simp: result_def split: sum.splits)

lemma gets_Ok_iff [simp]: "gets f e = Ok y e' \<longleftrightarrow> y = f e \<and> e' = e"
  by (auto simp: gets_def)

lemma modify_inst_Ok_iff [simp]: "modify_inst f e = Ok u e' \<longleftrightarrow> e' = e\<lparr>inst := f (inst e)\<rparr>"
  by (auto simp: modify_inst_def)

lemma modify_pers_Ok_iff [simp]: "modify_pers f e = Ok u e' \<longleftrightarrow> e' = e\<lparr>pers := f (pers e)\<rparr>"
  by (auto simp: modify_pers_def)

lemma require_auth_Ok_iff [simp]: "require_auth a e = Ok u e' \<longleftrightarrow> authorized e a \<and> e' = e"
  by (auto simp: require_auth_def)

lemma token_transfer_Ok_iff [simp]:
  "token_transfer tk t a b n e = Ok u e' \<longleftrightarrow> tk_transfer tk t a b n e = Some e'"
  by (auto simp: token_transfer_def split: option.splits)

lemma token_balance_Ok_iff [simp]:
  "token_balance tk t a e = Ok n e' \<longleftrightarrow> tk_balance tk t a e = Some (n, e')"
  by (auto simp: token_balance_def split: option.splits)

text \<open>Monad laws, to regroup a sequence of statements.\<close>

lemma vbind_assoc: "vbind (vbind m f) g = vbind m (\<lambda>x. vbind (f x) g)"
  by (rule ext) (simp add: vbind_def split: outcome.split)

lemma vbind_ret: "vbind (ret x) f = f x"
  by (rule ext) (simp add: vbind_def ret_def)

lemmas vm_Ok_iffs = vbind_Ok_iff vthen_Ok_iff

lemma vm_run [vm_simps]:
  "vthen m k e = vbind m (\<lambda>_. k) e"
  "ret x e = Ok x e"
  "throw er e = Err er e"
  "ok_or er (Some v) e = Ok v e"
  "ok_or er None e = Err er e"
  "fail_if b er e = (if b then Err er e else Ok () e)"
  "result (Inr v) e = Ok v e"
  "result (Inl er) e = Err er e"
  "gets f e = Ok (f e) e"
  "modify_inst g e = Ok () (e\<lparr>inst := g (inst e)\<rparr>)"
  "modify_pers h e = Ok () (e\<lparr>pers := h (pers e)\<rparr>)"
  "extend_ttl c e = Ok () (log_ttl [c] e)"
  by (simp_all add: vthen_def ret_def throw_def ok_or_def fail_if_def result_def gets_def
      modify_inst_def modify_pers_def extend_ttl_def)

text \<open>TTL requests do not touch anything else, and move outwards past every update.\<close>

lemma log_ttl_proj [simp]:
  "inst (log_ttl ks e) = inst e"
  "pers (log_ttl ks e) = pers e"
  "timestamp (log_ttl ks e) = timestamp e"
  "authorized (log_ttl ks e) = authorized e"
  "contract_address (log_ttl ks e) = contract_address e"
  "event_log (log_ttl ks e) = event_log e"
  "wasm (log_ttl ks e) = wasm e"
  "world (log_ttl ks e) = world e"
  "ttl_log (log_ttl ks e) = ttl_log e @ ks"
  by (simp_all add: log_ttl_def)

lemma log_ttl_upd [simp]:
  "(log_ttl ks e)\<lparr>inst := i\<rparr> = log_ttl ks (e\<lparr>inst := i\<rparr>)"
  "(log_ttl ks e)\<lparr>pers := p\<rparr> = log_ttl ks (e\<lparr>pers := p\<rparr>)"
  "(log_ttl ks e)\<lparr>event_log := l\<rparr> = log_ttl ks (e\<lparr>event_log := l\<rparr>)"
  "(log_ttl ks e)\<lparr>wasm := h\<rparr> = log_ttl ks (e\<lparr>wasm := h\<rparr>)"
  by (simp_all add: log_ttl_def)

lemma log_ttl_log_ttl [simp]: "log_ttl bs (log_ttl as e) = log_ttl (as @ bs) e"
  by (simp add: log_ttl_def)

lemma log_ttl_ex [simp]: "\<exists>ks. log_ttl xs e = log_ttl ks e" "\<exists>ks. e = log_ttl ks e"
  by (blast, rule exI [of _ "[]"], simp add: log_ttl_def)

lemma log_ttl_Nil [simp]: "log_ttl [] e = e"
  by (simp add: log_ttl_def)

end
