(* ===== verification/Vault_Events.thy ===== *)
theory Vault_Events
  imports Vault_Env
begin

text \<open>
  The event emitters of \<open>events.rs\<close>: each publishes its topics and a payload
  stamped with the ledger time, and changes nothing else.
\<close>

section \<open>Topics\<close>

definition PROTOCOL :: string where "PROTOCOL = ''AxionVault''"
definition ACT_INIT :: string where "ACT_INIT = ''Initialize''"
definition ACT_DEPOSIT :: string where "ACT_DEPOSIT = ''Deposit''"
definition ACT_WITHDRAW :: string where "ACT_WITHDRAW = ''Withdraw''"
definition ACT_DISTRIBUTE :: string where "ACT_DISTRIBUTE = ''Distribute''"
definition ACT_CLAIM :: string where "ACT_CLAIM = ''Claim''"
definition EVT_ADMIN_PROPOSED :: string where "EVT_ADMIN_PROPOSED = ''AdminProp''"
definition EVT_ADMIN_ACCEPTED :: string where "EVT_ADMIN_ACCEPTED = ''AdminAcpt''"
definition ACT_LOCK :: string where "ACT_LOCK = ''Lock''"
definition ACT_UNLOCK :: string where "ACT_UNLOCK = ''Unlock''"
definition EVT_UPGRADE :: string where "EVT_UPGRADE = ''Upgrade''"
definition EVT_ASSET_ADDED :: string where "EVT_ASSET_ADDED = ''AssetAdd''"
definition ACT_ASSET_DEPOSIT :: string where "ACT_ASSET_DEPOSIT = ''AssetDep''"
definition ACT_ASSET_WITHDRAW :: string where "ACT_ASSET_WITHDRAW = ''AssetWith''"
definition ACT_ASSET_DISTRIBUTE :: string where "ACT_ASSET_DISTRIBUTE = ''AssetDist''"
definition ACT_ASSET_CLAIM :: string where "ACT_ASSET_CLAIM = ''AssetClm''"

section \<open>Emitters\<close>

definition emit_initialize :: "Address \<Rightarrow> Address \<Rightarrow> Address \<Rightarrow> (unit, 'w) vm" where
  "emit_initialize admin deposit_token reward_token =
     vbind (gets timestamp) (\<lambda>ts. publish [PROTOCOL, ACT_INIT] (InitializeEvent admin deposit_token reward_token ts))"

definition emit_lock :: "Address \<Rightarrow> int \<Rightarrow> int \<Rightarrow> (unit, 'w) vm" where
  "emit_lock user amount unlock_ts =
     vbind (gets timestamp) (\<lambda>ts. publish [PROTOCOL, ACT_LOCK] (LockEvent user amount unlock_ts ts))"

definition emit_unlock :: "Address \<Rightarrow> int \<Rightarrow> (unit, 'w) vm" where
  "emit_unlock user amount =
     vbind (gets timestamp) (\<lambda>ts. publish [PROTOCOL, ACT_UNLOCK] (UnlockEvent user amount ts))"

definition emit_deposit :: "Address \<Rightarrow> int \<Rightarrow> (unit, 'w) vm" where
  "emit_deposit user amount =
     vbind (gets timestamp) (\<lambda>ts. publish [PROTOCOL, ACT_DEPOSIT] (DepositEvent user amount ts))"

definition emit_withdraw :: "Address \<Rightarrow> int \<Rightarrow> int \<Rightarrow> (unit, 'w) vm" where
  "emit_withdraw user amount remaining_balance =
     vbind (gets timestamp) (\<lambda>ts. publish [PROTOCOL, ACT_WITHDRAW] (WithdrawEvent user amount remaining_balance ts))"

definition emit_distribute :: "Address \<Rightarrow> int \<Rightarrow> (unit, 'w) vm" where
  "emit_distribute caller amount =
     vbind (gets timestamp) (\<lambda>ts. publish [PROTOCOL, ACT_DISTRIBUTE] (DistributeEvent caller amount ts))"

definition emit_claim_rewards :: "Address \<Rightarrow> int \<Rightarrow> (unit, 'w) vm" where
  "emit_claim_rewards user amount =
     vbind (gets timestamp) (\<lambda>ts. publish [PROTOCOL, ACT_CLAIM] (ClaimEvent user amount ts))"

definition emit_admin_transfer_proposed :: "Address \<Rightarrow> Address \<Rightarrow> (unit, 'w) vm" where
  "emit_admin_transfer_proposed current_admin pending_admin =
     vbind (gets timestamp) (\<lambda>ts. publish [EVT_ADMIN_PROPOSED] (AdminTransferProposedEvent current_admin pending_admin ts))"

definition emit_admin_transfer_accepted :: "Address \<Rightarrow> Address \<Rightarrow> (unit, 'w) vm" where
  "emit_admin_transfer_accepted previous_admin new_admin =
     vbind (gets timestamp) (\<lambda>ts. publish [EVT_ADMIN_ACCEPTED] (AdminTransferAcceptedEvent previous_admin new_admin ts))"

definition emit_upgrade :: "Address \<Rightarrow> BytesN32 \<Rightarrow> (unit, 'w) vm" where
  "emit_upgrade admin new_wasm_hash =
     vbind (gets timestamp) (\<lambda>ts. publish [EVT_UPGRADE] (UpgradeEvent admin new_wasm_hash ts))"

definition emit_asset_added :: "Address \<Rightarrow> (unit, 'w) vm" where
  "emit_asset_added asset =
     vbind (gets timestamp) (\<lambda>ts. publish [EVT_ASSET_ADDED] (AssetAddedEvent asset ts))"

definition emit_asset_deposit :: "Address \<Rightarrow> Address \<Rightarrow> int \<Rightarrow> (unit, 'w) vm" where
  "emit_asset_deposit user asset amount =
     vbind (gets timestamp) (\<lambda>ts. publish [PROTOCOL, ACT_ASSET_DEPOSIT] (AssetDepositEvent user asset amount ts))"

definition emit_asset_withdraw :: "Address \<Rightarrow> Address \<Rightarrow> int \<Rightarrow> int \<Rightarrow> (unit, 'w) vm" where
  "emit_asset_withdraw user asset amount remaining_balance =
     vbind (gets timestamp) (\<lambda>ts. publish [PROTOCOL, ACT_ASSET_WITHDRAW] (AssetWithdrawEvent user asset amount remaining_balance ts))"

definition emit_asset_distribute :: "Address \<Rightarrow> Address \<Rightarrow> int \<Rightarrow> (unit, 'w) vm" where
  "emit_asset_distribute caller asset amount =
     vbind (gets timestamp) (\<lambda>ts. publish [PROTOCOL, ACT_ASSET_DISTRIBUTE] (AssetDistributeEvent caller asset amount ts))"

definition emit_asset_claim_rewards :: "Address \<Rightarrow> Address \<Rightarrow> int \<Rightarrow> (unit, 'w) vm" where
  "emit_asset_claim_rewards user asset amount =
     vbind (gets timestamp) (\<lambda>ts. publish [PROTOCOL, ACT_ASSET_CLAIM] (AssetClaimEvent user asset amount ts))"

text \<open>Every emitter is one \<open>publish\<close> at the current time.\<close>

lemmas emit_defs =
  emit_initialize_def
  emit_lock_def
  emit_unlock_def
  emit_deposit_def
  emit_withdraw_def
  emit_distribute_def
  emit_claim_rewards_def
  emit_admin_transfer_proposed_def
  emit_admin_transfer_accepted_def
  emit_upgrade_def
  emit_asset_added_def
  emit_asset_deposit_def
  emit_asset_withdraw_def
  emit_asset_distribute_def
  emit_asset_claim_rewards_def

definition emit :: "string list \<Rightarrow> (int \<Rightarrow> event_data) \<Rightarrow> 'w env \<Rightarrow> 'w env" where
  "emit ts d e = e\<lparr>event_log := event_log e @ [\<lparr>ev_topics = ts, ev_data = d (timestamp e)\<rparr>]\<rparr>"

lemma emit_proj [simp]:
  "inst (emit ts d e) = inst e"
  "pers (emit ts d e) = pers e"
  "timestamp (emit ts d e) = timestamp e"
  "authorized (emit ts d e) = authorized e"
  "contract_address (emit ts d e) = contract_address e"
  "wasm (emit ts d e) = wasm e"
  "world (emit ts d e) = world e"
  "ttl_log (emit ts d e) = ttl_log e"
  "event_log (emit ts d e) = event_log e @ [\<lparr>ev_topics = ts, ev_data = d (timestamp e)\<rparr>]"
  by (simp_all add: emit_def)

lemma emit_run [vm_simps]:
  "emit_initialize a0 a1 a2 e = Ok () (emit [PROTOCOL, ACT_INIT] (InitializeEvent a0 a1 a2) e)"
  "emit_lock a0 n1 n2 e = Ok () (emit [PROTOCOL, ACT_LOCK] (LockEvent a0 n1 n2) e)"
  "emit_unlock a0 n1 e = Ok () (emit [PROTOCOL, ACT_UNLOCK] (UnlockEvent a0 n1) e)"
  "emit_deposit a0 n1 e = Ok () (emit [PROTOCOL, ACT_DEPOSIT] (DepositEvent a0 n1) e)"
  "emit_withdraw a0 n1 n2 e = Ok () (emit [PROTOCOL, ACT_WITHDRAW] (WithdrawEvent a0 n1 n2) e)"
  "emit_distribute a0 n1 e = Ok () (emit [PROTOCOL, ACT_DISTRIBUTE] (DistributeEvent a0 n1) e)"
  "emit_claim_rewards a0 n1 e = Ok () (emit [PROTOCOL, ACT_CLAIM] (ClaimEvent a0 n1) e)"
  "emit_admin_transfer_proposed a0 a1 e = Ok () (emit [EVT_ADMIN_PROPOSED] (AdminTransferProposedEvent a0 a1) e)"
  "emit_admin_transfer_accepted a0 a1 e = Ok () (emit [EVT_ADMIN_ACCEPTED] (AdminTransferAcceptedEvent a0 a1) e)"
  "emit_upgrade a0 h1 e = Ok () (emit [EVT_UPGRADE] (UpgradeEvent a0 h1) e)"
  "emit_asset_added a0 e = Ok () (emit [EVT_ASSET_ADDED] (AssetAddedEvent a0) e)"
  "emit_asset_deposit a0 a1 n2 e = Ok () (emit [PROTOCOL, ACT_ASSET_DEPOSIT] (AssetDepositEvent a0 a1 n2) e)"
  "emit_asset_withdraw a0 a1 n2 n3 e = Ok () (emit [PROTOCOL, ACT_ASSET_WITHDRAW] (AssetWithdrawEvent a0 a1 n2 n3) e)"
  "emit_asset_distribute a0 a1 n2 e = Ok () (emit [PROTOCOL, ACT_ASSET_DISTRIBUTE] (AssetDistributeEvent a0 a1 n2) e)"
  "emit_asset_claim_rewards a0 a1 n2 e = Ok () (emit [PROTOCOL, ACT_ASSET_CLAIM] (AssetClaimEvent a0 a1 n2) e)"
  by (simp_all add: emit_defs emit_def vbind_def gets_def publish_def)

end
