(* ===== verification/Reward_Math.thy ===== *)
theory Reward_Math
  imports Vault_Events
begin

text \<open>
  The pure reward arithmetic of \<open>storage.rs\<close>: the index increment of a
  distribution, the reward accrued by a position, the utilization multiplier and the
  linear vesting schedule, all on checked 128-bit integers.
\<close>

section \<open>Constants\<close>

definition PRECISION_FACTOR :: int where
  "PRECISION_FACTOR = 1000000000"

definition REWARD_INDEX_SCALE :: int where
  "REWARD_INDEX_SCALE = PRECISION_FACTOR"

lemma scale_pos [simp]: "0 < REWARD_INDEX_SCALE"
  by (simp add: REWARD_INDEX_SCALE_def PRECISION_FACTOR_def)

section \<open>Index increment and accrual\<close>

definition checked_reward_index_increment :: "int \<Rightarrow> int \<Rightarrow> VaultError + int" where
  "checked_reward_index_increment amount total_deposits =
     (if total_deposits \<le> 0 then Inl (from_BalanceError BE_NoDeposits)
      else
        rbind (rok_or (from_ArithmeticError AE_Overflow)
                 (checked_mul_i128 amount REWARD_INDEX_SCALE)) (\<lambda>scaled.
        rbind (rok_or (from_ArithmeticError AE_RewardCalculationFailed)
                 (checked_div_i128 scaled total_deposits)) (\<lambda>increment.
        if increment \<le> 0 then Inl (from_ArithmeticError AE_ZeroRewardIncrement)
        else Inr increment)))"

definition checked_accrued_rewards :: "int \<Rightarrow> int \<Rightarrow> VaultError + int" where
  "checked_accrued_rewards bal delta =
     rbind (rok_or (from_ArithmeticError AE_Overflow) (checked_mul_i128 bal delta)) (\<lambda>product.
     rok_or (from_ArithmeticError AE_RewardCalculationFailed)
       (checked_div_i128 product REWARD_INDEX_SCALE))"

definition accrue_position_rewards ::
  "int \<Rightarrow> VaultState \<Rightarrow> UserPosition \<Rightarrow> VaultError + UserPosition" where
  "accrue_position_rewards now state position =
     (if vs_reward_index state = up_reward_index position \<or> up_balance position = 0
      then Inr (position\<lparr>up_reward_index := vs_reward_index state\<rparr>)
      else
        rbind
          (if up_balance position > 0 then
             rbind (rok_or (from_ArithmeticError AE_Overflow)
                      (checked_sub_i128 (vs_reward_index state) (up_reward_index position))) (\<lambda>delta.
             rbind (checked_accrued_rewards (up_balance position) delta) (\<lambda>accrued.
             if accrued > 0 then
               rbind (rok_or (from_ArithmeticError AE_Overflow)
                        (checked_add_i128 (up_accrued_rewards position) accrued)) (\<lambda>next.
               Inr (position\<lparr>up_accrued_rewards := next, up_last_reward_timestamp := now\<rparr>))
             else Inr position))
           else Inr position)
          (\<lambda>position. Inr (position\<lparr>up_reward_index := vs_reward_index state\<rparr>)))"

definition accrue_asset_position_rewards ::
  "int \<Rightarrow> int \<Rightarrow> UserPosition \<Rightarrow> VaultError + UserPosition" where
  "accrue_asset_position_rewards now asset_reward_index position =
     (if asset_reward_index = up_reward_index position \<or> up_balance position = 0
      then Inr (position\<lparr>up_reward_index := asset_reward_index\<rparr>)
      else
        rbind
          (if up_balance position > 0 then
             rbind (rok_or (from_ArithmeticError AE_Overflow)
                      (checked_sub_i128 asset_reward_index (up_reward_index position))) (\<lambda>delta.
             rbind (checked_accrued_rewards (up_balance position) delta) (\<lambda>accrued.
             if accrued > 0 then
               rbind (rok_or (from_ArithmeticError AE_Overflow)
                        (checked_add_i128 (up_accrued_rewards position) accrued)) (\<lambda>next.
               Inr (position\<lparr>up_accrued_rewards := next, up_last_reward_timestamp := now\<rparr>))
             else Inr position))
           else Inr position)
          (\<lambda>position. Inr (position\<lparr>up_reward_index := asset_reward_index\<rparr>)))"

section \<open>Utilization multiplier\<close>

text \<open>
  The loop over the curve: the first point whose utilization is at least the current
  one, or the last point's multiplier.
\<close>

fun select_multiplier :: "int \<Rightarrow> int \<Rightarrow> MultiplierPoint list \<Rightarrow> int" where
  "select_multiplier util selected [] = selected"
| "select_multiplier util selected (point # ps) =
     (if util \<le> utilization_bps point then multiplier_bps point
      else select_multiplier util selected ps)"

definition calculate_utilization_multiplier ::
  "int \<Rightarrow> int \<Rightarrow> MultiplierPoint list \<Rightarrow> VaultError + int" where
  "calculate_utilization_multiplier total_deposits target_deposits multipliers =
     (if target_deposits \<le> 0 \<or> multipliers = [] then Inr 10000
      else
        rbind (rok_or (from_ArithmeticError AE_Overflow)
                 (checked_mul_i128 total_deposits 10000)) (\<lambda>scaled.
        rbind (rok_or (from_ArithmeticError AE_RewardCalculationFailed)
                 (checked_div_i128 scaled target_deposits)) (\<lambda>quotient.
        Inr (select_multiplier (as_u32 quotient) (multiplier_bps (last multipliers)) multipliers))))"

section \<open>Vesting\<close>

definition calculate_vested_rewards :: "int \<Rightarrow> UserPosition \<Rightarrow> int \<Rightarrow> VaultError + int" where
  "calculate_vested_rewards current_timestamp position vesting_period =
     (if vesting_period = 0 then Inr (up_accrued_rewards position)
      else if up_last_reward_timestamp position = 0 then Inr 0
      else
        let time_elapsed =
              unwrap_or 0 (checked_sub_u64 current_timestamp (up_last_reward_timestamp position))
        in if time_elapsed \<ge> vesting_period then Inr (up_accrued_rewards position)
           else
             rbind (rok_or (from_ArithmeticError AE_Overflow)
                      (checked_mul_u128 (as_u128 (up_accrued_rewards position)) time_elapsed)) (\<lambda>product.
             rbind (rok_or (from_ArithmeticError AE_RewardCalculationFailed)
                      (checked_div_u128 product vesting_period)) (\<lambda>vested.
             Inr (as_i128 vested))))"

text \<open>The amount of a distribution after the multiplier, as \<open>store_reward_distribution\<close> computes it.\<close>

definition effective_reward_amount :: "int \<Rightarrow> int \<Rightarrow> VaultError + int" where
  "effective_reward_amount amount multiplier =
     rbind (rok_or (from_ArithmeticError AE_Overflow)
              (checked_mul_u128 (as_u128 amount) multiplier)) (\<lambda>product.
     rbind (rok_or (from_ArithmeticError AE_RewardCalculationFailed)
              (checked_div_u128 product 10000)) (\<lambda>quotient.
     Inr (as_i128 quotient)))"

section \<open>Facts\<close>

lemma accrue_asset_eq:
  "accrue_position_rewards now state position =
   accrue_asset_position_rewards now (vs_reward_index state) position"
  by (simp add: accrue_position_rewards_def accrue_asset_position_rewards_def)

lemma checked_reward_index_increment_Inr:
  assumes "checked_reward_index_increment amount tot = Inr inc"
  shows "0 < tot" "0 < inc" "in_i128 (amount * REWARD_INDEX_SCALE)"
    and "inc = trunc_div (amount * REWARD_INDEX_SCALE) tot"
  using assms
  by (auto simp: checked_reward_index_increment_def rbind_Inr_iff int_simps split: if_splits)

lemma increment_value:
  assumes "checked_reward_index_increment amount tot = Inr inc" "0 \<le> amount"
  shows "inc = amount * REWARD_INDEX_SCALE div tot" "inc * tot \<le> amount * REWARD_INDEX_SCALE"
proof -
  note f = checked_reward_index_increment_Inr [OF assms(1)]
  show eq: "inc = amount * REWARD_INDEX_SCALE div tot"
    using f assms(2) by (simp add: less_imp_le)
  show "inc * tot \<le> amount * REWARD_INDEX_SCALE"
    using f(1) unfolding eq by (rule div_mult_le)
qed

text \<open>Accrual at a settled index: what a position earns when its index is behind.\<close>

definition earned :: "int \<Rightarrow> int \<Rightarrow> int \<Rightarrow> int" where
  "earned bal uidx idx = bal * (idx - uidx) div REWARD_INDEX_SCALE"

lemma earned_nonneg: "0 \<le> bal \<Longrightarrow> uidx \<le> idx \<Longrightarrow> 0 \<le> earned bal uidx idx"
  by (simp add: earned_def pos_imp_zdiv_nonneg_iff)

lemma earned_trivial [simp]: "earned 0 uidx idx = 0" "earned bal idx idx = 0"
  by (simp_all add: earned_def)

lemma earned_scaled: "REWARD_INDEX_SCALE * earned bal uidx idx \<le> bal * (idx - uidx)"
  using div_mult_le [of REWARD_INDEX_SCALE "bal * (idx - uidx)"]
  by (simp add: earned_def mult.commute)

lemma accrue_Inr:
  assumes ok: "accrue_asset_position_rewards now idx p = Inr p'"
    and bal: "0 \<le> up_balance p" and le: "up_reward_index p \<le> idx"
  shows "p' = p\<lparr>up_reward_index := idx,
                up_accrued_rewards := up_accrued_rewards p + earned (up_balance p) (up_reward_index p) idx,
                up_last_reward_timestamp :=
                  (if 0 < earned (up_balance p) (up_reward_index p) idx then now
                   else up_last_reward_timestamp p)\<rparr>"
proof -
  have nn: "0 \<le> up_balance p * (idx - up_reward_index p)" using bal le by simp
  then have "0 \<le> earned (up_balance p) (up_reward_index p) idx"
    using bal le by (rule_tac earned_nonneg)
  then show ?thesis
    using ok nn bal
    by (auto simp: accrue_asset_position_rewards_def checked_accrued_rewards_def rbind_Inr_iff
        int_simps earned_def split: if_splits)
qed

lemma accrue_in_range:
  assumes ok: "accrue_asset_position_rewards now idx p = Inr p'"
    and "0 \<le> up_balance p" "up_reward_index p \<le> idx" "in_i128 (up_accrued_rewards p)"
  shows "in_i128 (up_accrued_rewards p')"
  using ok assms(4)
  by (auto simp: accrue_asset_position_rewards_def checked_accrued_rewards_def rbind_Inr_iff
      int_simps split: if_splits)

lemma accrue_Err:
  "accrue_asset_position_rewards now idx p = Inl er \<Longrightarrow>
     er = MathOverflow \<or> er = RewardCalculationFailed"
  by (auto simp: accrue_asset_position_rewards_def checked_accrued_rewards_def rbind_def rok_or_def
      split: if_splits option.splits sum.splits)

lemma partial_vesting_bounds:
  fixes acc el per :: int
  assumes "0 \<le> acc" "0 \<le> el" "el < per"
  shows "0 \<le> acc * el div per" "acc * el div per \<le> acc"
proof -
  show "0 \<le> acc * el div per" using assms by (simp add: pos_imp_zdiv_nonneg_iff)
  have "acc * el \<le> acc * per" using assms by (simp add: mult_left_mono)
  then have "acc * el div per \<le> acc * per div per"
    using assms by (intro zdiv_mono1) auto
  then show "acc * el div per \<le> acc" using assms by simp
qed

lemma elapsed_nonneg: "0 \<le> unwrap_or 0 (checked_sub_u64 a b)"
  by (auto simp: unwrap_or_def int_simps in_u64_def split: option.splits)

lemma calculate_vested_bounds:
  assumes ok: "calculate_vested_rewards now p per = Inr v"
    and acc: "0 \<le> up_accrued_rewards p" "in_i128 (up_accrued_rewards p)"
    and per: "0 \<le> per"
  shows "0 \<le> v \<and> v \<le> up_accrued_rewards p"
proof -
  let ?el = "unwrap_or 0 (checked_sub_u64 now (up_last_reward_timestamp p))"
  have u: "as_u128 (up_accrued_rewards p) = up_accrued_rewards p" using acc by simp
  show ?thesis
  proof (cases "per = 0 \<or> up_last_reward_timestamp p = 0 \<or> per \<le> ?el")
    case True
    then show ?thesis
      using ok acc by (auto simp: calculate_vested_rewards_def Let_def split: if_splits)
  next
    case False
    then have lt: "?el < per" and v: "v = as_i128 (up_accrued_rewards p * ?el div per)"
      using ok u
      by (auto simp: calculate_vested_rewards_def Let_def rbind_Inr_iff int_simps split: if_splits)
    note b = partial_vesting_bounds [OF acc(1) elapsed_nonneg lt]
    then have "in_i128 (up_accrued_rewards p * ?el div per)"
      using acc(2) by (blast intro: in_i128_between)
    with b v show ?thesis by simp
  qed
qed

lemma effective_reward_value:
  assumes ok: "effective_reward_amount amount m = Inr eff" and "0 \<le> amount" "in_i128 amount"
  shows "eff = amount * m div 10000"
proof -
  have q: "in_u128 (amount * m)" and e: "eff = as_i128 (amount * m div 10000)"
    using assms by (auto simp: effective_reward_amount_def rbind_Inr_iff int_simps)
  have "0 \<le> amount * m div 10000" "amount * m div 10000 < 2 ^ 127"
    using q by (auto simp: in_u128_def pos_imp_zdiv_nonneg_iff div_less_iff_less_mult)
  with e show ?thesis by (simp add: in_i128_def)
qed

end
