(* ===== verification/Reward_Pool.thy ===== *)
theory Reward_Pool
  imports Reward_Math
begin

text \<open>
  The contract of an index-based reward pool, stated on plain integers: what the native
  vault and each supported asset promise their depositors. A pool keeps a balance, a
  last-seen index and an accrued reward per user, the total balance and the global index.
  The theory proves that stakes always add up to the total and that rewards owed never
  exceed rewards paid in, and packages both as the locale \<open>reward_ledger\<close>, which the
  storage layer interprets for its own states and operations.
\<close>

section \<open>Pools\<close>

record 'u pool =
  p_bal :: "'u \<Rightarrow> int"
  p_uidx :: "'u \<Rightarrow> int"
  p_acc :: "'u \<Rightarrow> int"
  p_total :: int
  p_idx :: int

definition settle :: "'u \<Rightarrow> 'u pool \<Rightarrow> 'u pool" where
  "settle u p = p\<lparr>p_uidx := (p_uidx p)(u := p_idx p),
                  p_acc := (p_acc p)(u := p_acc p u + earned (p_bal p u) (p_uidx p u) (p_idx p))\<rparr>"

definition change_stake :: "'u \<Rightarrow> int \<Rightarrow> 'u pool \<Rightarrow> 'u pool" where
  "change_stake u d p =
     p\<lparr>p_bal := (p_bal p)(u := p_bal p u + d), p_total := p_total p + d\<rparr>"

definition raise_index :: "int \<Rightarrow> 'u pool \<Rightarrow> 'u pool" where
  "raise_index d p = p\<lparr>p_idx := p_idx p + d\<rparr>"

definition pay_out :: "'u \<Rightarrow> int \<Rightarrow> 'u pool \<Rightarrow> 'u pool" where
  "pay_out u v p = p\<lparr>p_acc := (p_acc p)(u := p_acc p u - v)\<rparr>"

lemmas pool_defs = settle_def change_stake_def raise_index_def pay_out_def

datatype 'u pool_op =
  PDeposit 'u int
| PWithdraw 'u int
| PSettle 'u
| PDistribute int
| PClaim 'u int

text \<open>
  A distribution of \<open>a\<close> raises the index by some \<open>d\<close> with \<open>d * total\<close> at most
  \<open>a\<close> in scaled units; every operation on a user's stake settles the user first.
\<close>

inductive pool_step :: "'u pool \<Rightarrow> 'u pool_op \<Rightarrow> 'u pool \<Rightarrow> bool" where
  deposit: "0 < a \<Longrightarrow> pool_step p (PDeposit u a) (change_stake u a (settle u p))"
| withdraw: "0 < a \<Longrightarrow> a \<le> p_bal p u \<Longrightarrow>
    pool_step p (PWithdraw u a) (change_stake u (- a) (settle u p))"
| settle: "pool_step p (PSettle u) (settle u p)"
| distribute: "0 < d \<Longrightarrow> d * p_total p \<le> a * REWARD_INDEX_SCALE \<Longrightarrow>
    pool_step p (PDistribute a) (raise_index d p)"
| claim: "0 \<le> v \<Longrightarrow> v \<le> p_acc (settle u p) u \<Longrightarrow>
    pool_step p (PClaim u v) (pay_out u v (settle u p))"

inductive_cases pool_step_cases: "pool_step p op p'"

section \<open>Invariant\<close>

definition pool_inv :: "'u pool \<Rightarrow> bool" where
  "pool_inv p \<longleftrightarrow>
     finite (support (p_bal p)) \<and> finite (support (p_acc p)) \<and>
     (\<forall>u. 0 \<le> p_bal p u) \<and> (\<forall>u. 0 \<le> p_acc p u) \<and> (\<forall>u. p_uidx p u \<le> p_idx p) \<and>
     p_total p = total_of (p_bal p)"

lemma pool_invD:
  assumes "pool_inv p"
  shows "finite (support (p_bal p))" "finite (support (p_acc p))" "0 \<le> p_bal p u" "0 \<le> p_acc p u"
    "p_uidx p u \<le> p_idx p" "p_total p = total_of (p_bal p)"
  using assms by (simp_all add: pool_inv_def)

lemma settle_inv: "pool_inv p \<Longrightarrow> pool_inv (settle u p)"
  by (auto simp: pool_inv_def settle_def earned_nonneg)

lemma pool_step_inv: "pool_step p op p' \<Longrightarrow> pool_inv p \<Longrightarrow> pool_inv p'"
proof (induction rule: pool_step.induct)
  case (deposit a p u)
  then have "pool_inv (settle u p)" by (simp add: settle_inv)
  then show ?case using deposit
    by (auto simp: pool_inv_def change_stake_def total_of_upd add_nonneg_nonneg)
next
  case (withdraw a p u)
  then have "pool_inv (settle u p)" by (simp add: settle_inv)
  then show ?case using withdraw
    by (auto simp: pool_inv_def change_stake_def total_of_upd settle_def)
next
  case (settle p u)
  then show ?case by (rule settle_inv)
next
  case (distribute d p a)
  then show ?case by (auto simp: pool_inv_def raise_index_def intro: order_trans)
next
  case (claim v u p)
  then have "pool_inv (settle u p)" by (simp add: settle_inv)
  then show ?case using claim by (auto simp: pool_inv_def pay_out_def)
qed

section \<open>What the pool owes\<close>

text \<open>
  The scaled claim of one user: what is accrued, plus the still unaccrued share of the
  index, before rounding. The liability is its sum over all users.
\<close>

definition owed :: "'u pool \<Rightarrow> 'u \<Rightarrow> int" where
  "owed p u = p_acc p u * REWARD_INDEX_SCALE + p_bal p u * (p_idx p - p_uidx p u)"

definition liability :: "'u pool \<Rightarrow> int" where
  "liability p = total_of (owed p)"

lemma finite_owed:
  assumes "pool_inv p" shows "finite (support (owed p))"
proof (rule finite_subset)
  show "support (owed p) \<subseteq> support (p_acc p) \<union> support (p_bal p)"
    by (auto simp: owed_def)
  show "finite (support (p_acc p) \<union> support (p_bal p))"
    using assms by (simp add: pool_inv_def)
qed

lemma owed_nonneg: "pool_inv p \<Longrightarrow> 0 \<le> owed p u"
  by (simp add: pool_inv_def owed_def add_nonneg_nonneg less_imp_le)

lemma liability_nonneg: "pool_inv p \<Longrightarrow> 0 \<le> liability p"
  unfolding liability_def by (intro total_of_nonneg owed_nonneg)

lemma owed_settle_other: "w \<noteq> u \<Longrightarrow> owed (settle u p) w = owed p w"
  by (simp add: owed_def settle_def)

lemma owed_settle_le: "owed (settle u p) u \<le> owed p u"
  using earned_scaled [of "p_bal p u" "p_uidx p u" "p_idx p"]
  by (simp add: owed_def settle_def algebra_simps)

lemma liability_point:
  assumes inv: "pool_inv p" and inv': "pool_inv p'"
    and other: "\<And>w. w \<noteq> u \<Longrightarrow> owed p' w = owed p w"
  shows "liability p' = liability p - owed p u + owed p' u"
proof -
  have "owed p' = (owed p)(u := owed p' u)" using other by auto
  then have "liability p' = total_of ((owed p)(u := owed p' u))"
    by (simp add: liability_def)
  then show ?thesis
    by (simp add: total_of_upd finite_owed inv liability_def)
qed

lemma liability_settle_le:
  assumes "pool_inv p" shows "liability (settle u p) \<le> liability p"
  using liability_point [OF assms settle_inv [OF assms], of u u] owed_settle_other [of _ u p]
    owed_settle_le [of u p]
  by simp

lemma liability_change_stake:
  "p_uidx p u = p_idx p \<Longrightarrow> liability (change_stake u d p) = liability p"
proof -
  assume "p_uidx p u = p_idx p"
  then have "owed (change_stake u d p) = owed p"
    by (auto simp: owed_def change_stake_def)
  then show ?thesis by (simp add: liability_def)
qed

lemma liability_raise_index:
  assumes inv: "pool_inv p"
  shows "liability (raise_index d p) = liability p + p_total p * d"
proof -
  have "owed (raise_index d p) = (\<lambda>u. owed p u + p_bal p u * d)"
    by (auto simp: owed_def raise_index_def algebra_simps)
  then show ?thesis
    using inv
    by (simp add: liability_def total_of_add finite_owed finite_support_mult total_of_cmult pool_inv_def)
qed

lemma liability_pay_out:
  assumes inv: "pool_inv p" and inv': "pool_inv (pay_out u v p)"
  shows "liability (pay_out u v p) = liability p - v * REWARD_INDEX_SCALE"
proof -
  have "owed (pay_out u v p) w = owed p w" if "w \<noteq> u" for w
    using that by (simp add: owed_def pay_out_def)
  then have "liability (pay_out u v p) = liability p - owed p u + owed (pay_out u v p) u"
    by (rule liability_point [OF inv inv'])
  then show ?thesis by (simp add: owed_def pay_out_def algebra_simps)
qed

text \<open>Rewards paid into and out of the pool by one operation.\<close>

fun paid_in :: "'u pool_op \<Rightarrow> int" where
  "paid_in (PDistribute a) = a"
| "paid_in _ = 0"

fun paid_out :: "'u pool_op \<Rightarrow> int" where
  "paid_out (PClaim u v) = v"
| "paid_out _ = 0"

fun staked :: "'u pool_op \<Rightarrow> int" where
  "staked (PDeposit u a) = a"
| "staked (PWithdraw u a) = - a"
| "staked _ = 0"

lemma pool_step_liability:
  assumes "pool_step p op p'" "pool_inv p"
  shows "liability p' + paid_out op * REWARD_INDEX_SCALE \<le> liability p + paid_in op * REWARD_INDEX_SCALE"
  using assms
proof (induction rule: pool_step.induct)
  case (deposit a p u)
  then show ?case
    using liability_settle_le [of p u] liability_change_stake [of "settle u p" u a]
    by (simp add: settle_def)
next
  case (withdraw a p u)
  then show ?case
    using liability_settle_le [of p u] liability_change_stake [of "settle u p" u "- a"]
    by (simp add: settle_def)
next
  case (settle p u)
  then show ?case by (simp add: liability_settle_le)
next
  case (distribute d p a)
  then show ?case by (simp add: liability_raise_index mult.commute)
next
  case (claim v u p)
  then have inv: "pool_inv (settle u p)" by (simp add: settle_inv)
  moreover have "pool_inv (pay_out u v (settle u p))"
    using claim by (blast intro: pool_step_inv pool_step.claim)
  ultimately show ?case
    using liability_pay_out [of "settle u p" u v] liability_settle_le [OF claim.prems, of u]
    by simp
qed

lemma pool_step_total: "pool_step p op p' \<Longrightarrow> p_total p' = p_total p + staked op"
  by (erule pool_step.cases) (simp_all add: pool_defs)

lemma pool_step_index_mono: "pool_step p op p' \<Longrightarrow> p_idx p \<le> p_idx p'"
  by (erule pool_step.cases) (simp_all add: pool_defs)

section \<open>Runs\<close>

text \<open>A finite sequence of labelled steps.\<close>

inductive runs :: "('s \<Rightarrow> 'l \<Rightarrow> 's \<Rightarrow> bool) \<Rightarrow> 's \<Rightarrow> 'l list \<Rightarrow> 's \<Rightarrow> bool"
  for step where
  runs_Nil: "runs step s [] s"
| runs_snoc: "runs step s ls s' \<Longrightarrow> step s' l s'' \<Longrightarrow> runs step s (ls @ [l]) s''"

section \<open>The interface\<close>

text \<open>
  A reward ledger is a state with an invariant and labelled operations that abstracts to
  a pool: every operation that succeeds is a step of the pool.
\<close>

locale reward_ledger =
  fixes abs :: "'s \<Rightarrow> 'u pool"
    and ok :: "'s \<Rightarrow> bool"
    and exec :: "'s \<Rightarrow> 'u pool_op \<Rightarrow> 's \<Rightarrow> bool"
  assumes ok_pool: "ok s \<Longrightarrow> pool_inv (abs s)"
    and exec_ok: "ok s \<Longrightarrow> exec s op s' \<Longrightarrow> ok s'"
    and exec_refines: "ok s \<Longrightarrow> exec s op s' \<Longrightarrow> pool_step (abs s) op (abs s')"
begin

lemma runs_ok: "runs exec s ops s' \<Longrightarrow> ok s \<Longrightarrow> ok s'"
  by (induction rule: runs.induct) (auto intro: exec_ok)

lemma runs_total:
  "runs exec s ops s' \<Longrightarrow> ok s \<Longrightarrow>
     p_total (abs s') = p_total (abs s) + sum_list (map staked ops)"
proof (induction rule: runs.induct)
  case (runs_snoc s ls s' l s'')
  then have "pool_step (abs s') l (abs s'')" by (blast intro: exec_refines runs_ok)
  then show ?case using runs_snoc by (simp add: pool_step_total)
qed simp

lemma runs_index_mono: "runs exec s ops s' \<Longrightarrow> ok s \<Longrightarrow> p_idx (abs s) \<le> p_idx (abs s')"
proof (induction rule: runs.induct)
  case (runs_snoc s ls s' l s'')
  then have "pool_step (abs s') l (abs s'')" by (blast intro: exec_refines runs_ok)
  then show ?case using runs_snoc pool_step_index_mono by fastforce
qed simp

lemma runs_liability:
  "runs exec s ops s' \<Longrightarrow> ok s \<Longrightarrow>
     liability (abs s') + sum_list (map paid_out ops) * REWARD_INDEX_SCALE
     \<le> liability (abs s) + sum_list (map paid_in ops) * REWARD_INDEX_SCALE"
proof (induction rule: runs.induct)
  case (runs_snoc s ls s' l s'')
  then have st: "ok s'" by (blast intro: runs_ok)
  with runs_snoc have "pool_step (abs s') l (abs s'')" by (blast intro: exec_refines)
  from pool_step_liability [OF this ok_pool [OF st]] runs_snoc.IH runs_snoc.prems
  show ?case by (simp add: algebra_simps)
qed simp

text \<open>Starting with nothing owed, no more is ever claimed than was distributed.\<close>

lemma claims_covered:
  assumes "runs exec s ops s'" "ok s" "liability (abs s) = 0"
  shows "sum_list (map paid_out ops) \<le> sum_list (map paid_in ops)"
proof -
  have "0 \<le> liability (abs s')"
    using assms by (blast intro: liability_nonneg ok_pool runs_ok)
  with runs_liability [OF assms(1,2)] assms(3)
  have "sum_list (map paid_out ops) * REWARD_INDEX_SCALE \<le> sum_list (map paid_in ops) * REWARD_INDEX_SCALE"
    by linarith
  then show ?thesis by (simp add: mult_le_cancel_right)
qed

lemma stakes_add_up:
  assumes "runs exec s ops s'" "ok s"
  shows "p_total (abs s') = total_of (p_bal (abs s'))"
  using ok_pool [OF runs_ok [OF assms]] by (simp add: pool_inv_def)

end

end
