(* ===== verification/Vault_Storage.thy ===== *)
theory Vault_Storage
  imports Reward_Pool
begin

text \<open>
  The storage layer of the native vault (\<open>storage.rs\<close>, up to the multi-asset section):
  initialisation, global state, reentrancy guard, user positions and locks, and the
  deposit, withdraw, lock, distribution, claim and preview operations.
\<close>

section \<open>TTL\<close>

definition INSTANCE_TTL_THRESHOLD :: int where "INSTANCE_TTL_THRESHOLD = 518400"
definition INSTANCE_TTL_EXTEND_TO :: int where "INSTANCE_TTL_EXTEND_TO = 518400"
definition PERSISTENT_TTL_THRESHOLD :: int where "PERSISTENT_TTL_THRESHOLD = 518400"
definition PERSISTENT_TTL_EXTEND_TO :: int where "PERSISTENT_TTL_EXTEND_TO = 518400"

definition bump_instance_ttl :: "(unit, 'w) vm" where
  "bump_instance_ttl = extend_ttl (ExtendInstance INSTANCE_TTL_THRESHOLD INSTANCE_TTL_EXTEND_TO)"

definition bump_persistent_ttl :: "DataKey \<Rightarrow> (unit, 'w) vm" where
  "bump_persistent_ttl key =
     extend_ttl (ExtendPersistent key PERSISTENT_TTL_THRESHOLD PERSISTENT_TTL_EXTEND_TO)"

definition vwhen :: "bool \<Rightarrow> (unit, 'w) vm \<Rightarrow> (unit, 'w) vm" where
  "vwhen b m = (if b then m else ret ())"

section \<open>Initialisation and guards\<close>

definition is_initialized :: "'w env \<Rightarrow> bool" where
  "is_initialized e = unwrap_or False (k_Initialized (inst e))"

definition require_initialized :: "(unit, 'w) vm" where
  "require_initialized =
     vbind (gets is_initialized) (\<lambda>b.
     if b then ret () else throw (from_StateError SE_NotInitialized))"

definition require_not_paused :: "(unit, 'w) vm" where
  "require_not_paused =
     vbind (gets (\<lambda>e. unwrap_or False (k_IsPaused (inst e)))) (\<lambda>b.
     if b then throw (from_AuthorizationError AU_Unauthorized) else ret ())"

definition initialize_state ::
  "Address \<Rightarrow> Address \<Rightarrow> Address \<Rightarrow> int \<Rightarrow> int \<Rightarrow> MultiplierPoint list \<Rightarrow> (unit, 'w) vm" where
  "initialize_state admin deposit_token reward_token vesting_period target_deposits multipliers =
     vthen (modify_inst (\<lambda>i. i\<lparr>k_Initialized := Some True\<rparr>))
    (vthen (modify_inst (\<lambda>i. i\<lparr>k_Admin := Some admin\<rparr>))
    (vthen (modify_inst (\<lambda>i. i\<lparr>k_PendingAdmin := None\<rparr>))
    (vthen (modify_inst (\<lambda>i. i\<lparr>k_DepositToken := Some deposit_token\<rparr>))
    (vthen (modify_inst (\<lambda>i. i\<lparr>k_RewardToken := Some reward_token\<rparr>))
    (vthen (modify_inst (\<lambda>i. i\<lparr>k_VestingPeriod := Some vesting_period\<rparr>))
    (vthen (modify_inst (\<lambda>i. i\<lparr>k_TotalDeposits := Some 0\<rparr>))
    (vthen (modify_inst (\<lambda>i. i\<lparr>k_RewardIndex := Some 0\<rparr>))
    (vthen (modify_inst (\<lambda>i. i\<lparr>k_TargetDeposits := Some target_deposits\<rparr>))
    (vthen (modify_inst (\<lambda>i. i\<lparr>k_UtilizationMultipliers := Some multipliers\<rparr>))
    (vthen (modify_inst (\<lambda>i. i\<lparr>k_ReentrancyGuard := Some False\<rparr>))
    (vthen (modify_inst (\<lambda>i. i\<lparr>k_IsPaused := Some False\<rparr>))
     bump_instance_ttl)))))))))))"

section \<open>Global state\<close>

definition get_state :: "(VaultState, 'w) vm" where
  "get_state =
     vthen require_initialized
    (vbind (gets (\<lambda>e. k_Admin (inst e))) (\<lambda>a.
     vbind (ok_or (from_StateError SE_InvalidState) a) (\<lambda>admin.
     vbind (gets (\<lambda>e. k_DepositToken (inst e))) (\<lambda>d.
     vbind (ok_or (from_StateError SE_InvalidState) d) (\<lambda>deposit_token.
     vbind (gets (\<lambda>e. k_RewardToken (inst e))) (\<lambda>r.
     vbind (ok_or (from_StateError SE_InvalidState) r) (\<lambda>reward_token.
     vbind (gets (\<lambda>e. unwrap_or 0 (k_TotalDeposits (inst e)))) (\<lambda>total_deposits.
     vbind (gets (\<lambda>e. unwrap_or 0 (k_RewardIndex (inst e)))) (\<lambda>reward_index.
     vbind (gets (\<lambda>e. unwrap_or 0 (k_VestingPeriod (inst e)))) (\<lambda>vesting_period.
     vbind (gets (\<lambda>e. unwrap_or 0 (k_TargetDeposits (inst e)))) (\<lambda>target_deposits.
     vbind (gets (\<lambda>e. unwrap_or [] (k_UtilizationMultipliers (inst e)))) (\<lambda>multipliers.
     vthen bump_instance_ttl
      (ret \<lparr> vs_admin = admin, vs_deposit_token = deposit_token, vs_reward_token = reward_token,
             vs_total_deposits = total_deposits, vs_reward_index = reward_index,
             vs_vesting_period = vesting_period, vs_target_deposits = target_deposits,
             vs_utilization_multipliers = multipliers \<rparr>)))))))))))))"

definition get_admin :: "(Address, 'w) vm" where
  "get_admin = vbind get_state (\<lambda>s. ret (vs_admin s))"

definition set_admin :: "Address \<Rightarrow> (unit, 'w) vm" where
  "set_admin admin = vthen (modify_inst (\<lambda>i. i\<lparr>k_Admin := Some admin\<rparr>)) bump_instance_ttl"

definition get_pending_admin :: "(Address option, 'w) vm" where
  "get_pending_admin =
     vthen require_initialized
    (vbind (gets (\<lambda>e. k_PendingAdmin (inst e))) (\<lambda>pending.
     vthen bump_instance_ttl (ret pending)))"

definition set_pending_admin :: "Address \<Rightarrow> (unit, 'w) vm" where
  "set_pending_admin pending_admin =
     vthen (modify_inst (\<lambda>i. i\<lparr>k_PendingAdmin := Some pending_admin\<rparr>)) bump_instance_ttl"

definition clear_pending_admin :: "(unit, 'w) vm" where
  "clear_pending_admin = vthen (modify_inst (\<lambda>i. i\<lparr>k_PendingAdmin := None\<rparr>)) bump_instance_ttl"

definition get_deposit_token :: "(Address, 'w) vm" where
  "get_deposit_token = vbind get_state (\<lambda>s. ret (vs_deposit_token s))"

definition get_reward_token :: "(Address, 'w) vm" where
  "get_reward_token = vbind get_state (\<lambda>s. ret (vs_reward_token s))"

definition get_total_deposits :: "(int, 'w) vm" where
  "get_total_deposits = vbind get_state (\<lambda>s. ret (vs_total_deposits s))"

definition set_total_deposits :: "int \<Rightarrow> (unit, 'w) vm" where
  "set_total_deposits t = vthen (modify_inst (\<lambda>i. i\<lparr>k_TotalDeposits := Some t\<rparr>)) bump_instance_ttl"

definition get_reward_index :: "(int, 'w) vm" where
  "get_reward_index = vbind get_state (\<lambda>s. ret (vs_reward_index s))"

definition set_reward_index :: "int \<Rightarrow> (unit, 'w) vm" where
  "set_reward_index index = vthen (modify_inst (\<lambda>i. i\<lparr>k_RewardIndex := Some index\<rparr>)) bump_instance_ttl"

definition get_vesting_period :: "(int, 'w) vm" where
  "get_vesting_period = vbind get_state (\<lambda>s. ret (vs_vesting_period s))"

definition set_paused :: "bool \<Rightarrow> (unit, 'w) vm" where
  "set_paused paused = vthen (modify_inst (\<lambda>i. i\<lparr>k_IsPaused := Some paused\<rparr>)) bump_instance_ttl"

definition set_target_deposits :: "int \<Rightarrow> (unit, 'w) vm" where
  "set_target_deposits new_target =
     vthen (modify_inst (\<lambda>i. i\<lparr>k_TargetDeposits := Some new_target\<rparr>)) bump_instance_ttl"

definition set_utilization_multipliers :: "MultiplierPoint list \<Rightarrow> (unit, 'w) vm" where
  "set_utilization_multipliers multipliers =
     vthen (modify_inst (\<lambda>i. i\<lparr>k_UtilizationMultipliers := Some multipliers\<rparr>)) bump_instance_ttl"

section \<open>Reentrancy guard\<close>

definition enter_non_reentrant :: "(unit, 'w) vm" where
  "enter_non_reentrant =
     vbind (gets (\<lambda>e. unwrap_or False (k_ReentrancyGuard (inst e)))) (\<lambda>g.
     vthen (fail_if g (from_AuthorizationError AU_ReentrancyDetected))
    (vthen (modify_inst (\<lambda>i. i\<lparr>k_ReentrancyGuard := Some True\<rparr>))
     bump_instance_ttl))"

definition exit_non_reentrant :: "(unit, 'w) vm" where
  "exit_non_reentrant =
     vthen (modify_inst (\<lambda>i. i\<lparr>k_ReentrancyGuard := Some False\<rparr>)) bump_instance_ttl"

section \<open>User positions\<close>

text \<open>\<open>.map(|l| l.amount).sum()\<close> on \<open>i128\<close>, which wraps in the release build.\<close>

definition sum_amounts :: "Lock list \<Rightarrow> int" where
  "sum_amounts locks = foldl (\<lambda>s l. wrapping_add_i128 s (lock_amount l)) 0 locks"

definition get_liquid_balance_unchecked :: "Address \<Rightarrow> (int, 'w) vm" where
  "get_liquid_balance_unchecked user =
     vbind (gets (\<lambda>e. unwrap_or 0 (k_UserLiquidBalance (pers e) user))) (\<lambda>bal.
     vthen (vwhen (bal \<noteq> 0) (bump_persistent_ttl (UserLiquidBalance user)))
     (ret bal))"

definition get_user_locks_unchecked :: "Address \<Rightarrow> (Lock list, 'w) vm" where
  "get_user_locks_unchecked user =
     vbind (gets (\<lambda>e. unwrap_or [] (k_UserLocks (pers e) user))) (\<lambda>locks.
     vthen (vwhen (locks \<noteq> []) (bump_persistent_ttl (UserLocks user)))
     (ret locks))"

definition get_user_position_unchecked :: "Address \<Rightarrow> (UserPosition, 'w) vm" where
  "get_user_position_unchecked user =
     vbind (get_liquid_balance_unchecked user) (\<lambda>liquid_balance.
     vbind (get_user_locks_unchecked user) (\<lambda>locks.
     vbind (ok_or (from_ArithmeticError AE_Overflow)
              (checked_add_i128 liquid_balance (sum_amounts locks))) (\<lambda>total_balance.
     vbind (gets (\<lambda>e. unwrap_or 0 (k_UserRewardIndex (pers e) user))) (\<lambda>reward_index.
     vbind (gets (\<lambda>e. unwrap_or 0 (k_UserAccruedRewards (pers e) user))) (\<lambda>accrued_rewards.
     vbind (gets (\<lambda>e. unwrap_or 0 (k_UserLastRewardTimestamp (pers e) user))) (\<lambda>last_reward_timestamp.
     vthen (vwhen (reward_index \<noteq> 0) (bump_persistent_ttl (UserRewardIndex user)))
    (vthen (vwhen (accrued_rewards \<noteq> 0) (bump_persistent_ttl (UserAccruedRewards user)))
    (vthen (vwhen (last_reward_timestamp \<noteq> 0) (bump_persistent_ttl (UserLastRewardTimestamp user)))
      (ret \<lparr> up_balance = total_balance, up_reward_index = reward_index,
             up_accrued_rewards = accrued_rewards,
             up_last_reward_timestamp = last_reward_timestamp \<rparr>)))))))))"

definition get_user_position :: "Address \<Rightarrow> (UserPosition, 'w) vm" where
  "get_user_position user = vthen require_initialized (get_user_position_unchecked user)"

definition set_user_position :: "Address \<Rightarrow> UserPosition \<Rightarrow> (unit, 'w) vm" where
  "set_user_position user position =
     vthen
       (if up_reward_index position = 0
        then modify_pers (\<lambda>p. p\<lparr>k_UserRewardIndex := (k_UserRewardIndex p)(user := None)\<rparr>)
        else vthen (modify_pers (\<lambda>p. p\<lparr>k_UserRewardIndex :=
                      (k_UserRewardIndex p)(user \<mapsto> up_reward_index position)\<rparr>))
                   (bump_persistent_ttl (UserRewardIndex user)))
    (vthen
       (if up_accrued_rewards position = 0
        then modify_pers (\<lambda>p. p\<lparr>k_UserAccruedRewards := (k_UserAccruedRewards p)(user := None)\<rparr>)
        else vthen (modify_pers (\<lambda>p. p\<lparr>k_UserAccruedRewards :=
                      (k_UserAccruedRewards p)(user \<mapsto> up_accrued_rewards position)\<rparr>))
                   (bump_persistent_ttl (UserAccruedRewards user)))
    (vthen (modify_pers (\<lambda>p. p\<lparr>k_UserLastRewardTimestamp :=
              (k_UserLastRewardTimestamp p)(user \<mapsto> up_last_reward_timestamp position)\<rparr>))
           (bump_persistent_ttl (UserLastRewardTimestamp user))))"

definition get_user_balance :: "Address \<Rightarrow> (int, 'w) vm" where
  "get_user_balance user = vbind (get_user_position user) (\<lambda>position. ret (up_balance position))"

definition get_liquid_balance :: "Address \<Rightarrow> (int, 'w) vm" where
  "get_liquid_balance user = vthen require_initialized (get_liquid_balance_unchecked user)"

definition set_liquid_balance :: "Address \<Rightarrow> int \<Rightarrow> (unit, 'w) vm" where
  "set_liquid_balance user amount =
     (if amount = 0
      then modify_pers (\<lambda>p. p\<lparr>k_UserLiquidBalance := (k_UserLiquidBalance p)(user := None)\<rparr>)
      else vthen (modify_pers (\<lambda>p. p\<lparr>k_UserLiquidBalance := (k_UserLiquidBalance p)(user \<mapsto> amount)\<rparr>))
                 (bump_persistent_ttl (UserLiquidBalance user)))"

definition get_locked_balance :: "Address \<Rightarrow> (int, 'w) vm" where
  "get_locked_balance user =
     vthen require_initialized
    (vbind (get_user_locks_unchecked user) (\<lambda>locks.
     vbind (gets timestamp) (\<lambda>now.
     ret (sum_amounts (filter (\<lambda>l. unlock_timestamp l > now) locks)))))"

definition set_user_locks :: "Address \<Rightarrow> Lock list \<Rightarrow> (unit, 'w) vm" where
  "set_user_locks user locks =
     vthen (modify_pers (\<lambda>p. p\<lparr>k_UserLocks := (k_UserLocks p)(user \<mapsto> locks)\<rparr>))
           (vwhen (locks \<noteq> []) (bump_persistent_ttl (UserLocks user)))"

section \<open>Locks\<close>

text \<open>The loop of \<open>unlock_expired_locks\<close>, with its three mutable variables.\<close>

fun unlock_loop ::
  "int \<Rightarrow> int \<Rightarrow> Lock list \<Rightarrow> int \<Rightarrow> Lock list \<Rightarrow> int \<Rightarrow> VaultError + int \<times> Lock list" where
  "unlock_loop now limit [] unlocked_amount new_locks processed_count = Inr (unlocked_amount, new_locks)"
| "unlock_loop now limit (lock # locks) unlocked_amount new_locks processed_count =
     (if unlock_timestamp lock \<le> now \<and> processed_count < limit
      then rbind (rok_or (from_ArithmeticError AE_Overflow)
                    (checked_add_i128 unlocked_amount (lock_amount lock))) (\<lambda>unlocked_amount.
           unlock_loop now limit locks unlocked_amount new_locks (processed_count + 1))
      else unlock_loop now limit locks unlocked_amount (new_locks @ [lock]) processed_count)"

definition unlock_expired_locks :: "Address \<Rightarrow> int \<Rightarrow> (int, 'w) vm" where
  "unlock_expired_locks user limit =
     (if limit = 0 then ret 0
      else
        vbind (gets timestamp) (\<lambda>current_timestamp.
        vbind (get_user_locks_unchecked user) (\<lambda>locks.
        vbind (result (unlock_loop current_timestamp limit locks 0 [] 0)) (\<lambda>(unlocked_amount, new_locks).
        vthen
          (if unlocked_amount > 0 then
             vbind (get_liquid_balance_unchecked user) (\<lambda>liquid_balance.
             vbind (ok_or (from_ArithmeticError AE_Overflow)
                      (checked_add_i128 liquid_balance unlocked_amount)) (\<lambda>new_liquid_balance.
             vthen (set_liquid_balance user new_liquid_balance)
                   (set_user_locks user new_locks)))
           else ret ())
          (ret unlocked_amount)))))"

section \<open>Deposit, withdraw and lock\<close>

definition store_deposit :: "Address \<Rightarrow> int \<Rightarrow> (VaultState \<times> UserPosition, 'w) vm" where
  "store_deposit user amount =
     vbind get_state (\<lambda>state.
     vbind (get_user_position_unchecked user) (\<lambda>position.
     vbind (gets timestamp) (\<lambda>now.
     vbind (result (accrue_position_rewards now state position)) (\<lambda>position.
     vbind (ok_or (from_ArithmeticError AE_Overflow)
              (checked_add_i128 (up_balance position) amount)) (\<lambda>bal.
     vbind (get_liquid_balance_unchecked user) (\<lambda>liquid_balance.
     vbind (ok_or (from_ArithmeticError AE_Overflow)
              (checked_add_i128 liquid_balance amount)) (\<lambda>new_liquid_balance.
     vbind (ok_or (from_ArithmeticError AE_Overflow)
              (checked_add_i128 (vs_total_deposits state) amount)) (\<lambda>next_total.
     vthen (set_liquid_balance user new_liquid_balance)
    (vthen (set_total_deposits next_total)
    (vthen (set_user_position user (position\<lparr>up_balance := bal\<rparr>))
     (ret (state\<lparr>vs_total_deposits := next_total\<rparr>, position\<lparr>up_balance := bal\<rparr>))))))))))))"

definition WITHDRAW_UNLOCK_LIMIT :: int where
  "WITHDRAW_UNLOCK_LIMIT = 5"

definition store_withdraw :: "Address \<Rightarrow> int \<Rightarrow> (VaultState \<times> UserPosition, 'w) vm" where
  "store_withdraw user amount =
     vbind get_state (\<lambda>state.
     vbind (get_user_position_unchecked user) (\<lambda>position.
     vbind (gets timestamp) (\<lambda>now.
     vbind (result (accrue_position_rewards now state position)) (\<lambda>position.
     vthen (unlock_expired_locks user WITHDRAW_UNLOCK_LIMIT)
    (vbind (get_liquid_balance_unchecked user) (\<lambda>liquid_balance.
     vthen (fail_if (liquid_balance < amount) (from_BalanceError BE_InsufficientBalance))
    (vbind (ok_or (from_ArithmeticError AE_Overflow)
              (checked_sub_i128 (up_balance position) amount)) (\<lambda>bal.
     vbind (ok_or (from_ArithmeticError AE_Overflow)
              (checked_sub_i128 liquid_balance amount)) (\<lambda>new_liquid_balance.
     vbind (ok_or (from_ArithmeticError AE_Overflow)
              (checked_sub_i128 (vs_total_deposits state) amount)) (\<lambda>next_total.
     vthen (set_liquid_balance user new_liquid_balance)
    (vthen (set_total_deposits next_total)
    (vthen (set_user_position user (position\<lparr>up_balance := bal\<rparr>))
     (ret (state\<lparr>vs_total_deposits := next_total\<rparr>, position\<lparr>up_balance := bal\<rparr>))))))))))))))"

definition store_lock :: "Address \<Rightarrow> int \<Rightarrow> int \<Rightarrow> (unit, 'w) vm" where
  "store_lock user amount duration =
     vbind get_state (\<lambda>state.
     vbind (get_user_position_unchecked user) (\<lambda>position.
     vbind (gets timestamp) (\<lambda>now.
     vbind (result (accrue_position_rewards now state position)) (\<lambda>position.
     vthen (set_user_position user position)
    (vbind (get_liquid_balance_unchecked user) (\<lambda>liquid_balance.
     vthen (fail_if (liquid_balance < amount) (from_BalanceError BE_InsufficientBalance))
    (vbind (ok_or (from_ArithmeticError AE_Overflow)
              (checked_sub_i128 liquid_balance amount)) (\<lambda>new_liquid_balance.
     vthen (set_liquid_balance user new_liquid_balance)
    (vbind (get_user_locks_unchecked user) (\<lambda>locks.
     vbind (gets timestamp) (\<lambda>now.
     vbind (ok_or (from_ArithmeticError AE_Overflow) (checked_add_u64 now duration)) (\<lambda>unlock_ts.
     set_user_locks user
       (locks @ [\<lparr> lock_amount = amount, unlock_timestamp = unlock_ts, reward_multiplier = 0 \<rparr>])))))))))))))"

section \<open>Distribution and claims\<close>

definition store_reward_distribution :: "int \<Rightarrow> (VaultState, 'w) vm" where
  "store_reward_distribution amount =
     vbind get_state (\<lambda>state.
     vbind (result (calculate_utilization_multiplier (vs_total_deposits state)
              (vs_target_deposits state) (vs_utilization_multipliers state))) (\<lambda>multiplier.
     vbind (result (effective_reward_amount amount multiplier)) (\<lambda>effective_amount.
     vbind (result (checked_reward_index_increment effective_amount (vs_total_deposits state))) (\<lambda>increment.
     vbind (ok_or (from_ArithmeticError AE_Overflow)
              (checked_add_i128 (vs_reward_index state) increment)) (\<lambda>next_reward_index.
     vthen (set_reward_index next_reward_index)
     (ret (state\<lparr>vs_reward_index := next_reward_index\<rparr>)))))))"

definition store_claimable_rewards :: "Address \<Rightarrow> (int, 'w) vm" where
  "store_claimable_rewards user =
     vbind get_state (\<lambda>state.
     vbind (get_user_position_unchecked user) (\<lambda>position.
     vbind (gets timestamp) (\<lambda>now.
     vbind (result (accrue_position_rewards now state position)) (\<lambda>position.
     vbind (gets timestamp) (\<lambda>current_timestamp.
     vbind (result (calculate_vested_rewards current_timestamp position (vs_vesting_period state))) (\<lambda>vested.
     vbind (ok_or (from_ArithmeticError AE_Overflow)
              (checked_sub_i128 (up_accrued_rewards position) vested)) (\<lambda>remaining.
     vthen (set_user_position user (position\<lparr>up_accrued_rewards := remaining\<rparr>))
     (ret vested))))))))"

section \<open>Previews\<close>

definition preview_user_rewards :: "Address \<Rightarrow> (UserRewardSnapshot, 'w) vm" where
  "preview_user_rewards user =
     vthen require_initialized
    (vbind get_state (\<lambda>state.
     vbind (get_user_position_unchecked user) (\<lambda>position.
     vbind (gets timestamp) (\<lambda>now.
     vbind (result (accrue_position_rewards now state position)) (\<lambda>position.
     vbind (gets timestamp) (\<lambda>current_timestamp.
     vbind (result (calculate_vested_rewards current_timestamp position (vs_vesting_period state))) (\<lambda>vested.
     ret \<lparr> rs_reward_index = up_reward_index position, rs_rewards = up_accrued_rewards position,
           rs_vested_rewards = vested \<rparr>)))))))"

definition pending_user_rewards_view :: "Address \<Rightarrow> (int, 'w) vm" where
  "pending_user_rewards_view user = vbind (preview_user_rewards user) (\<lambda>s. ret (rs_rewards s))"

definition vested_user_rewards_view :: "Address \<Rightarrow> (int, 'w) vm" where
  "vested_user_rewards_view user = vbind (preview_user_rewards user) (\<lambda>s. ret (rs_vested_rewards s))"

end
