(* ===== verification/Native_Ledger.thy ===== *)
theory Native_Ledger
  imports Vault_Storage
begin

text \<open>
  Closed forms of the storage operations of \<open>Vault_Storage\<close>, the invariant of the
  native ledger and the proof that its operations implement the reward pool of
  \<open>Reward_Pool\<close>, by interpretation of \<open>reward_ledger\<close>.
\<close>

section \<open>Accessors in closed form\<close>

definition ttl_inst :: "ttl_call list" where
  "ttl_inst = [ExtendInstance INSTANCE_TTL_THRESHOLD INSTANCE_TTL_EXTEND_TO]"

definition ttl_if :: "bool \<Rightarrow> DataKey \<Rightarrow> ttl_call list" where
  "ttl_if b k = (if b then [ExtendPersistent k PERSISTENT_TTL_THRESHOLD PERSISTENT_TTL_EXTEND_TO] else [])"

abbreviation liquid_of :: "pers_storage \<Rightarrow> Address \<Rightarrow> int" where
  "liquid_of p u \<equiv> unwrap_or 0 (k_UserLiquidBalance p u)"

abbreviation locks_of :: "pers_storage \<Rightarrow> Address \<Rightarrow> Lock list" where
  "locks_of p u \<equiv> unwrap_or [] (k_UserLocks p u)"

definition position_of :: "pers_storage \<Rightarrow> Address \<Rightarrow> int \<Rightarrow> UserPosition" where
  "position_of p u t =
     \<lparr> up_balance = t, up_reward_index = unwrap_or 0 (k_UserRewardIndex p u),
       up_accrued_rewards = unwrap_or 0 (k_UserAccruedRewards p u),
       up_last_reward_timestamp = unwrap_or 0 (k_UserLastRewardTimestamp p u) \<rparr>"

definition put_liquid :: "Address \<Rightarrow> int \<Rightarrow> pers_storage \<Rightarrow> pers_storage" where
  "put_liquid u a p = p\<lparr>k_UserLiquidBalance := (k_UserLiquidBalance p)(u := if a = 0 then None else Some a)\<rparr>"

definition put_locks :: "Address \<Rightarrow> Lock list \<Rightarrow> pers_storage \<Rightarrow> pers_storage" where
  "put_locks u ls p = p\<lparr>k_UserLocks := (k_UserLocks p)(u \<mapsto> ls)\<rparr>"

definition put_position :: "Address \<Rightarrow> UserPosition \<Rightarrow> pers_storage \<Rightarrow> pers_storage" where
  "put_position u q p = p\<lparr>
     k_UserRewardIndex := (k_UserRewardIndex p)(u := if up_reward_index q = 0 then None else Some (up_reward_index q)),
     k_UserAccruedRewards := (k_UserAccruedRewards p)(u := if up_accrued_rewards q = 0 then None else Some (up_accrued_rewards q)),
     k_UserLastRewardTimestamp := (k_UserLastRewardTimestamp p)(u \<mapsto> up_last_reward_timestamp q)\<rparr>"

lemmas put_defs = put_liquid_def put_locks_def put_position_def

lemma bump_run [vm_simps]:
  "bump_instance_ttl e = Ok () (log_ttl ttl_inst e)"
  "bump_persistent_ttl k e = Ok () (log_ttl (ttl_if True k) e)"
  by (simp_all add: bump_instance_ttl_def bump_persistent_ttl_def extend_ttl_def ttl_inst_def ttl_if_def)

lemma vwhen_bump [vm_simps]: "vwhen b (bump_persistent_ttl k) e = Ok () (log_ttl (ttl_if b k) e)"
  by (simp add: vwhen_def vm_simps ttl_if_def)

lemma require_initialized_run [store_simps]:
  "require_initialized e = (if is_initialized e then Ok () e else Err NotInitialized e)"
  by (simp add: require_initialized_def vm_simps)

lemma require_not_paused_run [store_simps]:
  "require_not_paused e = (if unwrap_or False (k_IsPaused (inst e)) then Err Unauthorized e else Ok () e)"
  by (simp add: require_not_paused_def vm_simps)

lemma set_inst_run [store_simps]:
  "set_admin a e = Ok () (log_ttl ttl_inst (e\<lparr>inst := (inst e)\<lparr>k_Admin := Some a\<rparr>\<rparr>))"
  "set_pending_admin a e = Ok () (log_ttl ttl_inst (e\<lparr>inst := (inst e)\<lparr>k_PendingAdmin := Some a\<rparr>\<rparr>))"
  "clear_pending_admin e = Ok () (log_ttl ttl_inst (e\<lparr>inst := (inst e)\<lparr>k_PendingAdmin := None\<rparr>\<rparr>))"
  "set_total_deposits n e = Ok () (log_ttl ttl_inst (e\<lparr>inst := (inst e)\<lparr>k_TotalDeposits := Some n\<rparr>\<rparr>))"
  "set_reward_index n e = Ok () (log_ttl ttl_inst (e\<lparr>inst := (inst e)\<lparr>k_RewardIndex := Some n\<rparr>\<rparr>))"
  "set_paused b e = Ok () (log_ttl ttl_inst (e\<lparr>inst := (inst e)\<lparr>k_IsPaused := Some b\<rparr>\<rparr>))"
  "exit_non_reentrant e = Ok () (log_ttl ttl_inst (e\<lparr>inst := (inst e)\<lparr>k_ReentrancyGuard := Some False\<rparr>\<rparr>))"
  by (simp_all add: set_admin_def set_pending_admin_def clear_pending_admin_def set_total_deposits_def
      set_reward_index_def set_paused_def exit_non_reentrant_def vm_simps)

lemma enter_non_reentrant_run [store_simps]:
  "enter_non_reentrant e =
     (if unwrap_or False (k_ReentrancyGuard (inst e)) then Err ReentrancyDetected e
      else Ok () (log_ttl ttl_inst (e\<lparr>inst := (inst e)\<lparr>k_ReentrancyGuard := Some True\<rparr>\<rparr>)))"
  by (simp add: enter_non_reentrant_def vm_simps)

lemma get_liquid_run [store_simps]:
  "get_liquid_balance_unchecked u e =
     Ok (liquid_of (pers e) u) (log_ttl (ttl_if (liquid_of (pers e) u \<noteq> 0) (UserLiquidBalance u)) e)"
  by (simp add: get_liquid_balance_unchecked_def vm_simps)

lemma get_locks_run [store_simps]:
  "get_user_locks_unchecked u e =
     Ok (locks_of (pers e) u) (log_ttl (ttl_if (locks_of (pers e) u \<noteq> []) (UserLocks u)) e)"
  by (simp add: get_user_locks_unchecked_def vm_simps)

lemma set_liquid_run [store_simps]:
  "set_liquid_balance u a e =
     Ok () (log_ttl (ttl_if (a \<noteq> 0) (UserLiquidBalance u)) (e\<lparr>pers := put_liquid u a (pers e)\<rparr>))"
  by (simp add: set_liquid_balance_def vm_simps put_liquid_def ttl_if_def)

lemma set_locks_run [store_simps]:
  "set_user_locks u ls e =
     Ok () (log_ttl (ttl_if (ls \<noteq> []) (UserLocks u)) (e\<lparr>pers := put_locks u ls (pers e)\<rparr>))"
  by (simp add: set_user_locks_def vm_simps put_locks_def)

definition position_ttl :: "Address \<Rightarrow> UserPosition \<Rightarrow> ttl_call list" where
  "position_ttl u q =
     ttl_if (up_reward_index q \<noteq> 0) (UserRewardIndex u) @
     ttl_if (up_accrued_rewards q \<noteq> 0) (UserAccruedRewards u)"

lemma set_user_position_run [store_simps]:
  "set_user_position u q e =
     Ok () (log_ttl (position_ttl u q @ ttl_if True (UserLastRewardTimestamp u))
              (e\<lparr>pers := put_position u q (pers e)\<rparr>))"
  by (simp add: set_user_position_def vm_simps put_position_def position_ttl_def ttl_if_def)

lemma get_user_position_unchecked_run [store_simps]:
  "get_user_position_unchecked u e =
     (let l = liquid_of (pers e) u; ls = locks_of (pers e) u;
          ks = ttl_if (l \<noteq> 0) (UserLiquidBalance u) @ ttl_if (ls \<noteq> []) (UserLocks u)
      in case checked_add_i128 l (sum_amounts ls) of
           None \<Rightarrow> Err MathOverflow (log_ttl ks e)
         | Some t \<Rightarrow>
             Ok (position_of (pers e) u t)
                (log_ttl (ks @ position_ttl u (position_of (pers e) u t) @
                   ttl_if (up_last_reward_timestamp (position_of (pers e) u t) \<noteq> 0)
                     (UserLastRewardTimestamp u)) e))"
  by (simp add: get_user_position_unchecked_def vm_simps store_simps Let_def position_of_def position_ttl_def
      split: option.split)

text \<open>The state \<open>get_state\<close> reads, when it is complete.\<close>

definition state_of :: "inst_storage \<Rightarrow> Address \<Rightarrow> Address \<Rightarrow> Address \<Rightarrow> VaultState" where
  "state_of i a d r =
     \<lparr> vs_admin = a, vs_deposit_token = d, vs_reward_token = r,
       vs_total_deposits = unwrap_or 0 (k_TotalDeposits i), vs_reward_index = unwrap_or 0 (k_RewardIndex i),
       vs_vesting_period = unwrap_or 0 (k_VestingPeriod i), vs_target_deposits = unwrap_or 0 (k_TargetDeposits i),
       vs_utilization_multipliers = unwrap_or [] (k_UtilizationMultipliers i) \<rparr>"

lemma state_of_proj [simp]:
  "vs_admin (state_of i a d r) = a"
  "vs_deposit_token (state_of i a d r) = d"
  "vs_reward_token (state_of i a d r) = r"
  "vs_total_deposits (state_of i a d r) = unwrap_or 0 (k_TotalDeposits i)"
  "vs_reward_index (state_of i a d r) = unwrap_or 0 (k_RewardIndex i)"
  "vs_vesting_period (state_of i a d r) = unwrap_or 0 (k_VestingPeriod i)"
  "vs_target_deposits (state_of i a d r) = unwrap_or 0 (k_TargetDeposits i)"
  "vs_utilization_multipliers (state_of i a d r) = unwrap_or [] (k_UtilizationMultipliers i)"
  by (simp_all add: state_of_def)

lemma get_state_Ok_iff:
  "get_state e = Ok s e' \<longleftrightarrow>
     is_initialized e \<and> e' = log_ttl ttl_inst e \<and>
     (\<exists>a d r. k_Admin (inst e) = Some a \<and> k_DepositToken (inst e) = Some d \<and>
        k_RewardToken (inst e) = Some r \<and> s = state_of (inst e) a d r)"
  by (auto simp: get_state_def vm_Ok_iffs vm_simps store_simps state_of_def)

lemma get_state_run:
  assumes "is_initialized e" "k_Admin (inst e) = Some a" "k_DepositToken (inst e) = Some d"
    "k_RewardToken (inst e) = Some r"
  shows "get_state e = Ok (state_of (inst e) a d r) (log_ttl ttl_inst e)"
  using assms by (simp add: get_state_Ok_iff)

section \<open>Lock lists\<close>

definition locked_sum :: "Lock list \<Rightarrow> int" where
  "locked_sum ls = sum_list (map lock_amount ls)"

lemma locked_sum_simps [simp]:
  "locked_sum [] = 0"
  "locked_sum (l # ls) = lock_amount l + locked_sum ls"
  "locked_sum (ks @ ls) = locked_sum ks + locked_sum ls"
  by (simp_all add: locked_sum_def)

definition locks_positive :: "Lock list \<Rightarrow> bool" where
  "locks_positive ls \<longleftrightarrow> list_all (\<lambda>l. 0 < lock_amount l) ls"

lemma locks_positive_simps [simp]:
  "locks_positive []"
  "locks_positive (l # ls) \<longleftrightarrow> 0 < lock_amount l \<and> locks_positive ls"
  "locks_positive (ks @ ls) \<longleftrightarrow> locks_positive ks \<and> locks_positive ls"
  by (simp_all add: locks_positive_def)

lemma locked_sum_nonneg: "locks_positive ls \<Longrightarrow> 0 \<le> locked_sum ls"
  by (induction ls) auto

text \<open>The release build's wrapping sum is the true sum as long as that fits.\<close>

lemma sum_amounts_acc:
  "locks_positive ls \<Longrightarrow> 0 \<le> s \<Longrightarrow> in_i128 (s + locked_sum ls) \<Longrightarrow>
     foldl (\<lambda>s l. wrapping_add_i128 s (lock_amount l)) s ls = s + locked_sum ls"
proof (induction ls arbitrary: s)
  case (Cons l ls)
  have "in_i128 (s + lock_amount l)"
    by (rule in_i128_between [OF Cons.prems(3)]) (use Cons.prems locked_sum_nonneg [of ls] in auto)
  then show ?case
    using Cons by (simp add: wrapping_add_i128_def add.assoc)
qed simp

lemma sum_amounts_eq: "locks_positive ls \<Longrightarrow> in_i128 (locked_sum ls) \<Longrightarrow> sum_amounts ls = locked_sum ls"
  using sum_amounts_acc [of ls 0] by (simp add: sum_amounts_def)

lemma unlock_loop_conserves:
  "unlock_loop now limit ls un nl pc = Inr (un', nl') \<Longrightarrow>
     un' + locked_sum nl' = un + locked_sum nl + locked_sum ls"
proof (induction ls arbitrary: un nl pc)
  case (Cons l ls)
  from Cons.prems show ?case
    by (auto simp: rbind_Inr_iff int_simps split: if_splits dest!: Cons.IH)
qed simp

lemma unlock_loop_positive:
  "unlock_loop now limit ls un nl pc = Inr (un', nl') \<Longrightarrow>
     locks_positive ls \<Longrightarrow> locks_positive nl \<Longrightarrow> 0 \<le> un \<Longrightarrow> locks_positive nl' \<and> un \<le> un'"
proof (induction ls arbitrary: un nl pc)
  case (Cons l ls)
  from Cons.prems show ?case
    by (auto simp: rbind_Inr_iff int_simps split: if_splits dest!: Cons.IH)
qed simp

text \<open>It releases exactly the first \<open>limit\<close> expired locks, in order.\<close>

lemma unlock_loop_released:
  "unlock_loop now limit ls un nl pc = Inr (un', nl') \<Longrightarrow> pc \<le> limit \<Longrightarrow>
     un' = un + locked_sum (take (nat (limit - pc)) (filter (\<lambda>l. unlock_timestamp l \<le> now) ls))"
proof (induction ls arbitrary: un nl pc)
  case (Cons l ls)
  show ?case
  proof (cases "unlock_timestamp l \<le> now \<and> pc < limit")
    case True
    then have "nat (limit - pc) = Suc (nat (limit - (pc + 1)))" by linarith
    moreover from True Cons.prems
    have "unlock_loop now limit ls (un + lock_amount l) nl (pc + 1) = Inr (un', nl')"
      by (simp add: rbind_Inr_iff int_simps)
    ultimately show ?thesis using Cons.IH True by fastforce
  next
    case False
    with Cons.prems have "unlock_loop now limit ls un (nl @ [l]) pc = Inr (un', nl')" by auto
    from Cons.IH [OF this Cons.prems(2)] False Cons.prems(2) show ?thesis by auto
  qed
qed simp

text \<open>The locks an unlocking pass keeps: all but the first \<open>k\<close> expired ones, in their order.\<close>

fun kept_locks :: "nat \<Rightarrow> int \<Rightarrow> Lock list \<Rightarrow> Lock list" where
  "kept_locks k now [] = []"
| "kept_locks k now (l # ls) =
     (if unlock_timestamp l \<le> now \<and> 0 < k then kept_locks (k - 1) now ls else l # kept_locks k now ls)"

lemma unlock_loop_kept:
  "unlock_loop now limit ls un nl pc = Inr (un', nl') \<Longrightarrow> pc \<le> limit \<Longrightarrow>
     nl' = nl @ kept_locks (nat (limit - pc)) now ls"
proof (induction ls arbitrary: un nl pc)
  case (Cons l ls)
  show ?case
  proof (cases "unlock_timestamp l \<le> now \<and> pc < limit")
    case True
    then have "unlock_loop now limit ls (un + lock_amount l) nl (pc + 1) = Inr (un', nl')"
      using Cons.prems by (simp add: rbind_Inr_iff int_simps)
    moreover from True have "nat (limit - pc) - 1 = nat (limit - (pc + 1))" by linarith
    ultimately show ?thesis using Cons.IH True by simp
  next
    case False
    with Cons.prems have "unlock_loop now limit ls un (nl @ [l]) pc = Inr (un', nl')" by auto
    from Cons.IH [OF this Cons.prems(2)] False show ?thesis by auto
  qed
qed simp

lemma kept_locks_all:
  "locks_positive ls \<Longrightarrow> locked_sum (take k (filter (\<lambda>l. unlock_timestamp l \<le> now) ls)) \<le> 0 \<Longrightarrow>
     kept_locks k now ls = ls"
proof (induction ls)
  case (Cons l ls)
  have pos: "locks_positive (take j (filter (\<lambda>l. unlock_timestamp l \<le> now) ls))" for j
    using Cons.prems(1) by (auto simp: locks_positive_def list_all_iff dest: in_set_takeD)
  show ?case
  proof (cases "unlock_timestamp l \<le> now \<and> 0 < k")
    case True
    then obtain j where "k = Suc j" by (cases k) auto
    with True Cons.prems locked_sum_nonneg [OF pos, of j] show ?thesis by simp
  qed (use Cons in auto)
qed simp

lemma unlock_loop_runs:
  "locks_positive ls \<Longrightarrow> 0 \<le> un \<Longrightarrow> in_i128 (un + locked_sum ls) \<Longrightarrow>
     \<exists>un' nl'. unlock_loop now limit ls un nl pc = Inr (un', nl')"
proof (induction ls arbitrary: un nl pc)
  case (Cons l ls)
  have nn: "0 \<le> locked_sum ls" using Cons.prems locked_sum_nonneg by simp
  have "in_i128 (un + lock_amount l)" "in_i128 (un + locked_sum ls)"
    by (rule in_i128_between [OF Cons.prems(3)]; use Cons.prems nn in simp)+
  then show ?case
    using Cons by (auto simp: rbind_Inr_iff int_simps checked_def add.assoc)
qed simp

section \<open>Abstraction and invariant\<close>

definition native_pool :: "'w env \<Rightarrow> Address pool" where
  "native_pool e =
     \<lparr> p_bal = (\<lambda>u. liquid_of (pers e) u + locked_sum (locks_of (pers e) u)),
       p_uidx = (\<lambda>u. unwrap_or 0 (k_UserRewardIndex (pers e) u)),
       p_acc = (\<lambda>u. unwrap_or 0 (k_UserAccruedRewards (pers e) u)),
       p_total = unwrap_or 0 (k_TotalDeposits (inst e)),
       p_idx = unwrap_or 0 (k_RewardIndex (inst e)) \<rparr>"

definition native_ok :: "'w env \<Rightarrow> bool" where
  "native_ok e \<longleftrightarrow>
     pool_inv (native_pool e) \<and> in_i128 (p_total (native_pool e)) \<and>
     (\<forall>u. 0 \<le> liquid_of (pers e) u) \<and> (\<forall>u. locks_positive (locks_of (pers e) u)) \<and>
     (\<forall>u. in_i128 (p_acc (native_pool e) u)) \<and>
     0 \<le> unwrap_or 0 (k_VestingPeriod (inst e))"

lemma unwrap_or_if [simp]: "unwrap_or d (if a = d then None else Some a) = a"
  by simp

lemma native_pool_log_ttl [simp]: "native_pool (log_ttl ks e) = native_pool e"
  by (simp add: native_pool_def)

lemma native_pool_emit [simp]: "native_pool (emit ts d e) = native_pool e"
  by (simp add: native_pool_def)

lemma native_ok_log_ttl [simp]: "native_ok (log_ttl ks e) = native_ok e"
  by (simp add: native_ok_def)

lemma native_ok_emit [simp]: "native_ok (emit ts d e) = native_ok e"
  by (simp add: native_ok_def)

lemma native_okD:
  assumes "native_ok e"
  shows "pool_inv (native_pool e)" "in_i128 (unwrap_or 0 (k_TotalDeposits (inst e)))"
    "0 \<le> liquid_of (pers e) u" "locks_positive (locks_of (pers e) u)"
    "in_i128 (unwrap_or 0 (k_UserAccruedRewards (pers e) u))"
    "0 \<le> unwrap_or 0 (k_VestingPeriod (inst e))"
  using assms by (simp_all add: native_ok_def native_pool_def)

lemma native_bal_bound:
  assumes "native_ok e"
  shows "in_i128 (liquid_of (pers e) u + locked_sum (locks_of (pers e) u))"
proof -
  let ?p = "native_pool e"
  have inv: "pool_inv ?p" by (rule native_okD [OF assms])
  have "p_bal ?p u \<le> p_total ?p"
    using pool_invD(1,3,6) [OF inv] member_le_total [of "p_bal ?p" u] by simp
  moreover have "in_i128 (p_total ?p)" "0 \<le> p_bal ?p u"
    using assms pool_invD(3) [OF inv] by (simp_all add: native_ok_def)
  ultimately have "in_i128 (p_bal ?p u)" by (blast intro: in_i128_between)
  then show ?thesis by (simp add: native_pool_def)
qed

lemma native_locked_bound:
  assumes "native_ok e"
  shows "in_i128 (locked_sum (locks_of (pers e) u))"
  by (rule in_i128_between [OF native_bal_bound [OF assms, of u]])
    (use native_okD [OF assms] locked_sum_nonneg in \<open>auto simp: native_okD\<close>)

lemma native_sum_amounts:
  "native_ok e \<Longrightarrow> sum_amounts (locks_of (pers e) u) = locked_sum (locks_of (pers e) u)"
  by (simp add: sum_amounts_eq native_okD native_locked_bound)

text \<open>Reading a position never overflows on a good state.\<close>

lemma get_position_native:
  assumes "native_ok e"
  obtains ks where "get_user_position_unchecked u e =
    Ok (position_of (pers e) u (p_bal (native_pool e) u)) (log_ttl ks e)"
  using native_bal_bound [OF assms, of u]
  by (simp add: get_user_position_unchecked_run Let_def native_sum_amounts [OF assms]
      checked_add_i128_def checked_def native_pool_def)

lemma get_position_native_Ok:
  assumes "native_ok e" "get_user_position_unchecked u e = Ok q e'"
  shows "q = position_of (pers e) u (p_bal (native_pool e) u) \<and> (\<exists>ks. e' = log_ttl ks e)"
  using get_position_native [OF assms(1), of u] assms(2) by (metis outcome.inject(1))

lemma accrue_native:
  assumes ok: "native_ok e"
    and acc: "accrue_position_rewards now (state_of (inst e) a d r)
                (position_of (pers e) u (p_bal (native_pool e) u)) = Inr q"
  shows "up_balance q = p_bal (native_pool e) u" "up_reward_index q = p_idx (native_pool e)"
    "up_accrued_rewards q = p_acc (settle u (native_pool e)) u" "in_i128 (up_accrued_rewards q)"
    "up_last_reward_timestamp q =
       (if 0 < earned (p_bal (native_pool e) u) (p_uidx (native_pool e) u) (p_idx (native_pool e)) then now
        else unwrap_or 0 (k_UserLastRewardTimestamp (pers e) u))"
proof -
  let ?p = "native_pool e"
  note inv = native_okD(1) [OF ok]
  have idx: "vs_reward_index (state_of (inst e) a d r) = p_idx ?p" by (simp add: native_pool_def)
  have pos: "up_balance (position_of (pers e) u (p_bal ?p u)) = p_bal ?p u"
    "up_reward_index (position_of (pers e) u (p_bal ?p u)) = p_uidx ?p u"
    "up_accrued_rewards (position_of (pers e) u (p_bal ?p u)) = p_acc ?p u"
    "up_last_reward_timestamp (position_of (pers e) u (p_bal ?p u)) =
       unwrap_or 0 (k_UserLastRewardTimestamp (pers e) u)"
    by (simp_all add: position_of_def native_pool_def)
  note acc' = acc [unfolded accrue_asset_eq idx]
  note q = accrue_Inr [OF acc', unfolded pos, OF pool_invD(3,5) [OF inv]]
  show "up_balance q = p_bal ?p u" "up_reward_index q = p_idx ?p"
    "up_accrued_rewards q = p_acc (settle u ?p) u"
    "up_last_reward_timestamp q = (if 0 < earned (p_bal ?p u) (p_uidx ?p u) (p_idx ?p) then now
        else unwrap_or 0 (k_UserLastRewardTimestamp (pers e) u))"
    using q by (simp_all add: settle_def pos)
  show "in_i128 (up_accrued_rewards q)"
    by (rule accrue_in_range [OF acc'])
      (use pool_invD(3,5) [OF inv] native_okD(5) [OF ok] in \<open>simp_all add: position_of_def native_pool_def\<close>)
qed

text \<open>Effects of the writes on the abstract pool.\<close>

definition with_stores :: "inst_storage \<Rightarrow> pers_storage \<Rightarrow> 'w env \<Rightarrow> 'w env" where
  "with_stores i p e = e\<lparr>inst := i, pers := p\<rparr>"

lemma with_stores_proj [simp]:
  "inst (with_stores i p e) = i"
  "pers (with_stores i p e) = p"
  "timestamp (with_stores i p e) = timestamp e"
  "authorized (with_stores i p e) = authorized e"
  "contract_address (with_stores i p e) = contract_address e"
  "event_log (with_stores i p e) = event_log e"
  "wasm (with_stores i p e) = wasm e"
  "world (with_stores i p e) = world e"
  by (simp_all add: with_stores_def)

definition settled_by :: "'w env \<Rightarrow> Address \<Rightarrow> UserPosition \<Rightarrow> bool" where
  "settled_by e u q \<longleftrightarrow>
     up_reward_index q = p_idx (native_pool e) \<and>
     up_accrued_rewards q = p_acc (settle u (native_pool e)) u"

lemma put_position_settle:
  assumes "settled_by e u q"
  shows "native_pool (with_stores (inst e) (put_position u q (pers e)) e) = settle u (native_pool e)"
  using assms by (auto simp: settled_by_def native_pool_def put_position_def settle_def)

section \<open>Operations as pool steps\<close>

lemma settled_by_accrue:
  assumes "native_ok e"
    and "accrue_position_rewards now (state_of (inst e) a d r)
           (position_of (pers e) u (p_bal (native_pool e) u)) = Inr q"
  shows "settled_by e u q" "up_balance q = p_bal (native_pool e) u" "in_i128 (up_accrued_rewards q)"
  using accrue_native [OF assms] by (simp_all add: settled_by_def)

lemma settled_by_balance [simp]: "settled_by e u (q\<lparr>up_balance := b\<rparr>) = settled_by e u q"
  by (simp add: settled_by_def)

text \<open>Every native operation starts by loading the state and the settled position.\<close>

definition load_settled :: "Address \<Rightarrow> (VaultState \<times> UserPosition, 'w) vm" where
  "load_settled u =
     vbind get_state (\<lambda>state.
     vbind (get_user_position_unchecked u) (\<lambda>position.
     vbind (gets timestamp) (\<lambda>now.
     vbind (result (accrue_position_rewards now state position)) (\<lambda>position.
     ret (state, position)))))"

lemma load_settled_Ok:
  assumes ok: "native_ok e" and run: "load_settled u e = Ok (s, q) e'"
  shows "\<exists>ks a d r. e' = log_ttl ks e \<and> s = state_of (inst e) a d r \<and>
           k_Admin (inst e) = Some a \<and> k_DepositToken (inst e) = Some d \<and> k_RewardToken (inst e) = Some r"
    "is_initialized e" "settled_by e u q" "up_balance q = p_bal (native_pool e) u"
    "in_i128 (up_accrued_rewards q)"
proof -
  from run obtain e1 e2 q0 where st: "get_state e = Ok s e1"
    and ps: "get_user_position_unchecked u e1 = Ok q0 e2"
    and acc: "accrue_position_rewards (timestamp e2) s q0 = Inr q" and e': "e' = e2"
    by (auto simp: load_settled_def vm_Ok_iffs)
  from st obtain a d r where s: "s = state_of (inst e) a d r" "k_Admin (inst e) = Some a"
    "k_DepositToken (inst e) = Some d" "k_RewardToken (inst e) = Some r"
    and e1: "e1 = log_ttl ttl_inst e" and init: "is_initialized e"
    by (auto simp: get_state_Ok_iff)
  from ps e1 ok have q0: "q0 = position_of (pers e) u (p_bal (native_pool e) u)"
    and e2: "\<exists>ks. e2 = log_ttl ks e1"
    using get_position_native_Ok [of e1 u q0 e2] by simp_all
  from e2 e1 e' s show "\<exists>ks a d r. e' = log_ttl ks e \<and> s = state_of (inst e) a d r \<and>
           k_Admin (inst e) = Some a \<and> k_DepositToken (inst e) = Some d \<and> k_RewardToken (inst e) = Some r"
    by auto
  show "is_initialized e" by (rule init)
  from settled_by_accrue [OF ok acc [unfolded q0 s(1)]]
  show "settled_by e u q" "up_balance q = p_bal (native_pool e) u" "in_i128 (up_accrued_rewards q)" .
qed

text \<open>The store after a stake change of user \<open>u\<close>.\<close>

lemma native_pool_stake:
  assumes "settled_by e u q" "l + locked_sum (locks_of p0 u) = p_bal (native_pool e) u + d"
    and "p0 = pers e \<or> (\<exists>l' ls. p0 = put_locks u ls (put_liquid u l' (pers e)))"
  shows "native_pool (with_stores ((inst e)\<lparr>k_TotalDeposits := Some (p_total (native_pool e) + d)\<rparr>)
                       (put_position u q (put_liquid u l p0)) e)
         = change_stake u d (settle u (native_pool e))"
  using assms
  by (auto simp: settled_by_def native_pool_def put_defs settle_def change_stake_def fun_eq_iff)

lemma native_ok_stake:
  assumes ok: "native_ok e" and q: "settled_by e u q" "in_i128 (up_accrued_rewards q)"
    and pool: "pool_inv (native_pool e')" and tot: "in_i128 (p_total (native_pool e'))"
    and vest: "k_VestingPeriod (inst e') = k_VestingPeriod (inst e)"
    and acc: "k_UserAccruedRewards (pers e') = k_UserAccruedRewards (put_position u q (pers e))"
    and liq: "k_UserLiquidBalance (pers e') = k_UserLiquidBalance (put_liquid u l (pers e))"
    and l: "0 \<le> l"
    and lk: "k_UserLocks (pers e') = k_UserLocks (pers e) \<or>
             (\<exists>ls. k_UserLocks (pers e') = (k_UserLocks (pers e))(u \<mapsto> ls) \<and> locks_positive ls)"
  shows "native_ok e'"
proof -
  have "0 \<le> liquid_of (pers e') w" for w
    using native_okD(3) [OF ok, of w] l liq by (simp add: put_liquid_def)
  moreover have "locks_positive (locks_of (pers e') w)" for w
    using native_okD(4) [OF ok, of w] lk by auto
  moreover have "in_i128 (p_acc (native_pool e') w)" for w
    using native_okD(5) [OF ok, of w] q acc by (simp add: native_pool_def put_position_def)
  ultimately show ?thesis
    using pool tot vest native_okD(6) [OF ok] by (simp add: native_ok_def)
qed

subsection \<open>Deposit\<close>

lemma store_deposit_load:
  "store_deposit u a =
     vbind (load_settled u) (\<lambda>(state, position).
     vbind (ok_or MathOverflow (checked_add_i128 (up_balance position) a)) (\<lambda>bal.
     vbind (get_liquid_balance_unchecked u) (\<lambda>liquid_balance.
     vbind (ok_or MathOverflow (checked_add_i128 liquid_balance a)) (\<lambda>new_liquid_balance.
     vbind (ok_or MathOverflow (checked_add_i128 (vs_total_deposits state) a)) (\<lambda>next_total.
     vthen (set_liquid_balance u new_liquid_balance)
    (vthen (set_total_deposits next_total)
    (vthen (set_user_position u (position\<lparr>up_balance := bal\<rparr>))
     (ret (state\<lparr>vs_total_deposits := next_total\<rparr>, position\<lparr>up_balance := bal\<rparr>)))))))))"
  by (simp add: store_deposit_def load_settled_def vbind_assoc vbind_ret)

lemma store_deposit_Ok:
  assumes ok: "native_ok e" and run: "store_deposit u a e = Ok (s, q) e'"
  obtains ks q0 where "settled_by e u q0" "in_i128 (up_accrued_rewards q0)" "q = q0\<lparr>up_balance := p_bal (native_pool e) u + a\<rparr>"
    "e' = log_ttl ks (with_stores ((inst e)\<lparr>k_TotalDeposits := Some (p_total (native_pool e) + a)\<rparr>)
                       (put_position u q (put_liquid u (liquid_of (pers e) u + a) (pers e))) e)"
    "in_i128 (p_total (native_pool e) + a)" "is_initialized e"
proof -
  from run obtain q0 e1 s0 where ld: "load_settled u e = Ok (s0, q0) e1"
    and rest: "q = q0\<lparr>up_balance := up_balance q0 + a\<rparr>" "in_i128 (vs_total_deposits s0 + a)"
    "\<exists>ks. e' = log_ttl ks (with_stores ((inst e1)\<lparr>k_TotalDeposits := Some (vs_total_deposits s0 + a)\<rparr>)
       (put_position u q (put_liquid u (liquid_of (pers e1) u + a) (pers e1))) e1)"
    by (auto simp: store_deposit_load vm_Ok_iffs store_simps int_simps with_stores_def)
  note L = load_settled_Ok [OF ok ld]
  from L(1) obtain ks1 x y z where e1: "e1 = log_ttl ks1 e" and s0: "s0 = state_of (inst e) x y z" by auto
  from rest(3) obtain ks where "e' = log_ttl ks (with_stores ((inst e)\<lparr>k_TotalDeposits := Some (p_total (native_pool e) + a)\<rparr>)
                       (put_position u q (put_liquid u (liquid_of (pers e) u + a) (pers e))) e)"
    by (auto simp: e1 s0 with_stores_def native_pool_def)
  then show ?thesis
    using that L rest s0 by (auto simp: native_pool_def)
qed

lemma store_deposit_step:
  assumes ok: "native_ok e" and a: "0 < a" and run: "store_deposit u a e = Ok (s, q) e'"
  shows "pool_step (native_pool e) (PDeposit u a) (native_pool e')" "native_ok e'"
proof -
  obtain ks q0 where q: "settled_by e u q0" "in_i128 (up_accrued_rewards q0)"
      "q = q0\<lparr>up_balance := p_bal (native_pool e) u + a\<rparr>"
    and e': "e' = log_ttl ks (with_stores ((inst e)\<lparr>k_TotalDeposits := Some (p_total (native_pool e) + a)\<rparr>)
                       (put_position u q (put_liquid u (liquid_of (pers e) u + a) (pers e))) e)"
    and tot: "in_i128 (p_total (native_pool e) + a)"
    using store_deposit_Ok [OF ok run] by metis
  have pool: "native_pool e' = change_stake u a (settle u (native_pool e))"
    unfolding e' native_pool_log_ttl
    by (rule native_pool_stake) (use q in \<open>auto simp: native_pool_def\<close>)
  show step: "pool_step (native_pool e) (PDeposit u a) (native_pool e')"
    unfolding pool using a by (rule pool_step.deposit)
  show "native_ok e'"
    by (rule native_ok_stake [OF ok, of u q _ "liquid_of (pers e) u + a"])
      (use q a tot native_okD(3) [OF ok, of u] pool_step_inv [OF step native_okD(1) [OF ok]]
          pool_step_total [OF step] e' in \<open>auto simp: put_defs\<close>)
qed

subsection \<open>Releasing expired locks\<close>

text \<open>\<open>unlocked_store e u p\<close>: the store \<open>p\<close> after moving some of \<open>u\<close>'s locks to the liquid balance.\<close>

definition unlocked_store :: "'w env \<Rightarrow> Address \<Rightarrow> pers_storage \<Rightarrow> bool" where
  "unlocked_store e u p \<longleftrightarrow>
     p = pers e \<or>
     (\<exists>l ls. p = put_locks u ls (put_liquid u l (pers e)) \<and> locks_positive ls \<and>
        liquid_of (pers e) u \<le> l \<and> l + locked_sum ls = p_bal (native_pool e) u)"

lemma unlocked_store_bal:
  "unlocked_store e u p \<Longrightarrow> liquid_of p u + locked_sum (locks_of p u) = p_bal (native_pool e) u"
  by (auto simp: unlocked_store_def put_defs native_pool_def)

lemma unlocked_store_liquid:
  "native_ok e \<Longrightarrow> unlocked_store e u p \<Longrightarrow> 0 \<le> liquid_of p u"
  using native_okD(3) [of e u] by (auto simp: unlocked_store_def put_defs)

lemma unlocked_store_pool:
  "unlocked_store e u p \<Longrightarrow> native_pool (with_stores (inst e) p e) = native_pool e"
  by (auto simp: unlocked_store_def put_defs native_pool_def fun_eq_iff)

lemma unlocked_store_ok:
  assumes "native_ok e" "unlocked_store e u p"
  shows "native_ok (with_stores (inst e) p e)"
proof -
  have "0 \<le> liquid_of p w" for w
    using unlocked_store_liquid [OF assms] native_okD(3) [OF assms(1), of w] assms(2)
    by (cases "w = u") (auto simp: unlocked_store_def put_defs)
  moreover have "locks_positive (locks_of p w)" for w
    using native_okD(4) [OF assms(1), of w] assms(2) by (auto simp: unlocked_store_def put_defs)
  ultimately show ?thesis
    using assms(1) unlocked_store_pool [OF assms(2)] by (simp add: native_ok_def)
qed

lemma unlock_expired_locks_Ok:
  assumes ok: "native_ok e" and limit: "0 \<le> limit"
    and run: "unlock_expired_locks u limit e = Ok n e'"
  obtains ks p where "e' = log_ttl ks (with_stores (inst e) p e)" "unlocked_store e u p"
    "n = locked_sum (take (nat limit) (filter (\<lambda>l. unlock_timestamp l \<le> timestamp e) (locks_of (pers e) u)))"
    "liquid_of p u = liquid_of (pers e) u + n"
proof (cases "limit = 0")
  case True
  with run have "n = 0 \<and> e' = log_ttl [] (with_stores (inst e) (pers e) e)"
    by (simp add: unlock_expired_locks_def with_stores_def)
  with True show ?thesis
    by (intro that [of "[]" "pers e"]) (simp_all add: unlocked_store_def)
next
  case False
  let ?ls = "locks_of (pers e) u" let ?l = "liquid_of (pers e) u"
  from run False obtain nl where lp: "unlock_loop (timestamp e) limit ?ls 0 [] 0 = Inr (n, nl)"
    and st: "0 < n \<longrightarrow>
        (\<exists>ks. e' = log_ttl ks (with_stores (inst e) (put_locks u nl (put_liquid u (?l + n) (pers e))) e))"
      "\<not> 0 < n \<longrightarrow> (\<exists>ks. e' = log_ttl ks e)"
    by (cases "0 < n") (auto simp: unlock_expired_locks_def vm_Ok_iffs store_simps int_simps with_stores_def)
  have c: "n + locked_sum nl = locked_sum ?ls" using unlock_loop_conserves [OF lp] by simp
  have p: "locks_positive nl" "0 \<le> n" using unlock_loop_positive [OF lp] native_okD(4) [OF ok] by auto
  have r: "n = locked_sum (take (nat limit) (filter (\<lambda>l. unlock_timestamp l \<le> timestamp e) ?ls))"
    using unlock_loop_released [OF lp] limit by simp
  show ?thesis
  proof (cases "0 < n")
    case True
    with st obtain ks where "e' = log_ttl ks (with_stores (inst e) (put_locks u nl (put_liquid u (?l + n) (pers e))) e)"
      by auto
    moreover have "unlocked_store e u (put_locks u nl (put_liquid u (?l + n) (pers e)))"
      unfolding unlocked_store_def using p c by (auto simp: native_pool_def intro!: exI)
    ultimately show ?thesis by (rule that) (use r in \<open>auto simp: put_defs\<close>)
  next
    case False
    with st p obtain ks where "e' = log_ttl ks (with_stores (inst e) (pers e) e)" and "n = 0"
      by (auto simp: with_stores_def)
    then show ?thesis using that r by (auto simp: unlocked_store_def)
  qed
qed

lemma unlock_expired_locks_kept:
  assumes ok: "native_ok e" and limit: "0 \<le> limit"
    and run: "unlock_expired_locks u limit e = Ok n e'"
  shows "locks_of (pers e') w =
      (if w = u then kept_locks (nat limit) (timestamp e) (locks_of (pers e) u) else locks_of (pers e) w)"
    "liquid_of (pers e') w = liquid_of (pers e) w + (if w = u then n else 0)"
proof -
  let ?ls = "locks_of (pers e) u"
  have n: "n = locked_sum (take (nat limit) (filter (\<lambda>l. unlock_timestamp l \<le> timestamp e) ?ls))"
    using unlock_expired_locks_Ok [OF assms] by metis
  have pos: "locks_positive ?ls" using native_okD(4) [OF ok] .
  have "n = 0 \<and> (\<exists>ks. e' = log_ttl ks e) \<or> (\<exists>nl ks. unlock_loop (timestamp e) limit ?ls 0 [] 0 = Inr (n, nl) \<and>
      (if 0 < n then e' = log_ttl ks (with_stores (inst e) (put_locks u nl (put_liquid u (liquid_of (pers e) u + n) (pers e))) e)
       else e' = log_ttl ks e))"
    using run by (cases "limit = 0"; cases "0 < n")
      (auto simp: unlock_expired_locks_def vm_Ok_iffs store_simps int_simps with_stores_def intro: exI [of _ "[]"])
  then have st: "if 0 < n then (\<exists>ks. e' = log_ttl ks (with_stores (inst e) (put_locks u
        (kept_locks (nat limit) (timestamp e) ?ls) (put_liquid u (liquid_of (pers e) u + n) (pers e))) e))
     else (\<exists>ks. e' = log_ttl ks e)"
    using unlock_loop_kept [of "timestamp e" limit ?ls 0 "[]" 0] limit by auto
  have z: "\<not> 0 < n \<Longrightarrow> n = 0 \<and> kept_locks (nat limit) (timestamp e) ?ls = ?ls"
  proof -
    assume "\<not> 0 < n"
    moreover have "locks_positive (take (nat limit) (filter (\<lambda>l. unlock_timestamp l \<le> timestamp e) ?ls))"
      using pos by (auto simp: locks_positive_def list_all_iff dest: in_set_takeD)
    ultimately show ?thesis using kept_locks_all [OF pos, of "nat limit" "timestamp e"] n locked_sum_nonneg by fastforce
  qed
  show "locks_of (pers e') w =
      (if w = u then kept_locks (nat limit) (timestamp e) ?ls else locks_of (pers e) w)"
    using st z by (cases "0 < n") (auto simp: put_defs)
  show "liquid_of (pers e') w = liquid_of (pers e) w + (if w = u then n else 0)"
    using st z by (cases "0 < n") (auto simp: put_defs)
qed

lemma unlock_expired_locks_pool:
  assumes "native_ok e" "0 \<le> limit" "unlock_expired_locks u limit e = Ok n e'"
  shows "native_pool e' = native_pool e" "native_ok e'"
proof -
  obtain ks p where e': "e' = log_ttl ks (with_stores (inst e) p e)" and u: "unlocked_store e u p"
    using unlock_expired_locks_Ok [OF assms] by metis
  show "native_pool e' = native_pool e" using unlocked_store_pool [OF u] e' by simp
  show "native_ok e'" using unlocked_store_ok [OF assms(1) u] e' by simp
qed

subsection \<open>Withdraw\<close>

lemma store_withdraw_load:
  "store_withdraw u a =
     vbind (load_settled u) (\<lambda>(state, position).
     vthen (unlock_expired_locks u WITHDRAW_UNLOCK_LIMIT)
    (vbind (get_liquid_balance_unchecked u) (\<lambda>liquid_balance.
     vthen (fail_if (liquid_balance < a) InsufficientBalance)
    (vbind (ok_or MathOverflow (checked_sub_i128 (up_balance position) a)) (\<lambda>bal.
     vbind (ok_or MathOverflow (checked_sub_i128 liquid_balance a)) (\<lambda>new_liquid_balance.
     vbind (ok_or MathOverflow (checked_sub_i128 (vs_total_deposits state) a)) (\<lambda>next_total.
     vthen (set_liquid_balance u new_liquid_balance)
    (vthen (set_total_deposits next_total)
    (vthen (set_user_position u (position\<lparr>up_balance := bal\<rparr>))
     (ret (state\<lparr>vs_total_deposits := next_total\<rparr>, position\<lparr>up_balance := bal\<rparr>)))))))))))"
  by (simp add: store_withdraw_def load_settled_def vbind_assoc vbind_ret)

lemma store_withdraw_Ok:
  assumes ok: "native_ok e" and run: "store_withdraw u a e = Ok (s, q) e'"
  obtains ks q0 p where "settled_by e u q0" "in_i128 (up_accrued_rewards q0)"
    "q = q0\<lparr>up_balance := p_bal (native_pool e) u - a\<rparr>" "unlocked_store e u p"
    "liquid_of p u = liquid_of (pers e) u + locked_sum (take 5
       (filter (\<lambda>l. unlock_timestamp l \<le> timestamp e) (locks_of (pers e) u)))"
    "a \<le> liquid_of p u"
    "e' = log_ttl ks (with_stores ((inst e)\<lparr>k_TotalDeposits := Some (p_total (native_pool e) - a)\<rparr>)
                       (put_position u q (put_liquid u (liquid_of p u - a) p)) e)"
    "in_i128 (p_total (native_pool e) - a)" "is_initialized e"
proof -
  from run obtain q0 e1 s0 n e2 where ld: "load_settled u e = Ok (s0, q0) e1"
    and ul: "unlock_expired_locks u WITHDRAW_UNLOCK_LIMIT e1 = Ok n e2"
    and rest: "q = q0\<lparr>up_balance := up_balance q0 - a\<rparr>" "in_i128 (vs_total_deposits s0 - a)"
    "a \<le> liquid_of (pers e2) u"
    "\<exists>ks. e' = log_ttl ks (with_stores ((inst e2)\<lparr>k_TotalDeposits := Some (vs_total_deposits s0 - a)\<rparr>)
       (put_position u q (put_liquid u (liquid_of (pers e2) u - a) (pers e2))) e2)"
    by (auto simp: store_withdraw_load vm_Ok_iffs store_simps int_simps with_stores_def)
  note L = load_settled_Ok [OF ok ld]
  from L(1) obtain ks1 x y z where e1: "e1 = log_ttl ks1 e" and s0: "s0 = state_of (inst e) x y z" by auto
  have ok1: "native_ok e1" using ok e1 by simp
  obtain ks2 p where e2: "e2 = log_ttl ks2 (with_stores (inst e1) p e1)" and p: "unlocked_store e1 u p"
    and n: "n = locked_sum (take 5 (filter (\<lambda>l. unlock_timestamp l \<le> timestamp e) (locks_of (pers e) u)))"
    and l: "liquid_of p u = liquid_of (pers e) u + n"
    using unlock_expired_locks_Ok [OF ok1 _ ul] e1 by (auto simp: WITHDRAW_UNLOCK_LIMIT_def)
  from rest(4) obtain ks where "e' = log_ttl ks (with_stores ((inst e)\<lparr>k_TotalDeposits := Some (p_total (native_pool e) - a)\<rparr>)
                       (put_position u q (put_liquid u (liquid_of p u - a) p)) e)"
    by (auto simp: e1 e2 s0 with_stores_def native_pool_def)
  moreover have "unlocked_store e u p" using p e1 by (simp add: unlocked_store_def)
  moreover have "in_i128 (p_total (native_pool e) - a)" using rest(2) s0 by (simp add: native_pool_def)
  moreover have "a \<le> liquid_of p u" using rest(3) e2 by simp
  moreover have "q = q0\<lparr>up_balance := p_bal (native_pool e) u - a\<rparr>" using rest(1) L(4) by simp
  ultimately show ?thesis using that [of q0 p ks] L(2,3,5) l n by simp
qed

lemma store_withdraw_kept:
  assumes ok: "native_ok e" and run: "store_withdraw u a e = Ok (s, q) e'"
  shows "locks_of (pers e') w =
      (if w = u then kept_locks 5 (timestamp e) (locks_of (pers e) u) else locks_of (pers e) w)"
    "w \<noteq> u \<Longrightarrow> liquid_of (pers e') w = liquid_of (pers e) w"
proof -
  from run obtain q0 e1 s0 n e2 where ld: "load_settled u e = Ok (s0, q0) e1"
    and ul: "unlock_expired_locks u WITHDRAW_UNLOCK_LIMIT e1 = Ok n e2"
    and rest: "\<exists>ks. e' = log_ttl ks (with_stores ((inst e2)\<lparr>k_TotalDeposits := Some (vs_total_deposits s0 - a)\<rparr>)
       (put_position u q (put_liquid u (liquid_of (pers e2) u - a) (pers e2))) e2)"
    by (auto simp: store_withdraw_load vm_Ok_iffs store_simps int_simps with_stores_def)
  from load_settled_Ok(1) [OF ok ld] obtain ks1 where e1: "e1 = log_ttl ks1 e" by auto
  have "native_ok e1" using ok e1 by simp
  note k = unlock_expired_locks_kept [OF this _ ul, of w]
  from rest have "locks_of (pers e') w = locks_of (pers e2) w"
    "w \<noteq> u \<Longrightarrow> liquid_of (pers e') w = liquid_of (pers e2) w" by (auto simp: put_defs)
  then show "locks_of (pers e') w =
      (if w = u then kept_locks 5 (timestamp e) (locks_of (pers e) u) else locks_of (pers e) w)"
    "w \<noteq> u \<Longrightarrow> liquid_of (pers e') w = liquid_of (pers e) w"
    using k e1 by (simp_all add: WITHDRAW_UNLOCK_LIMIT_def)
qed

lemma native_pool_unlocked_stake:
  assumes "settled_by e u q" "unlocked_store e u p" "liquid_of p u + d = l"
  shows "native_pool (with_stores ((inst e)\<lparr>k_TotalDeposits := Some (p_total (native_pool e) + d)\<rparr>)
                       (put_position u q (put_liquid u l p)) e)
         = change_stake u d (settle u (native_pool e))"
  by (rule native_pool_stake)
    (use assms unlocked_store_bal [OF assms(2)] in \<open>auto simp: unlocked_store_def\<close>)

lemma store_withdraw_step:
  assumes ok: "native_ok e" and a: "0 < a" and run: "store_withdraw u a e = Ok (s, q) e'"
  shows "pool_step (native_pool e) (PWithdraw u a) (native_pool e')" "native_ok e'"
proof -
  obtain ks q0 p where q: "settled_by e u q0" "in_i128 (up_accrued_rewards q0)"
      "q = q0\<lparr>up_balance := p_bal (native_pool e) u - a\<rparr>" and p: "unlocked_store e u p" "a \<le> liquid_of p u"
    and e': "e' = log_ttl ks (with_stores ((inst e)\<lparr>k_TotalDeposits := Some (p_total (native_pool e) - a)\<rparr>)
                       (put_position u q (put_liquid u (liquid_of p u - a) p)) e)"
    and tot: "in_i128 (p_total (native_pool e) - a)"
    using store_withdraw_Ok [OF ok run] by metis
  have lk: "k_UserLocks (pers e') = k_UserLocks (pers e) \<or>
      (\<exists>ls. k_UserLocks (pers e') = (k_UserLocks (pers e))(u \<mapsto> ls) \<and> locks_positive ls)"
    "0 \<le> locked_sum (locks_of p u)"
    using p(1) e' native_okD(4) [OF ok, of u]
    by (auto simp: unlocked_store_def put_defs locked_sum_nonneg)
  have pool: "native_pool e' = change_stake u (- a) (settle u (native_pool e))"
    unfolding e' native_pool_log_ttl
    using native_pool_unlocked_stake [of e u q p "- a"] q p by simp
  have "a \<le> p_bal (native_pool e) u"
    using unlocked_store_bal [OF p(1)] p(2) lk(2) by simp
  then show step: "pool_step (native_pool e) (PWithdraw u a) (native_pool e')"
    unfolding pool using a by (blast intro: pool_step.withdraw)
  have liq: "k_UserLiquidBalance (pers e') = k_UserLiquidBalance (put_liquid u (liquid_of p u - a) (pers e))"
    using p(1) e' by (auto simp: unlocked_store_def put_defs)
  have acc: "k_UserAccruedRewards (pers e') = k_UserAccruedRewards (put_position u q (pers e))"
    using p(1) e' by (auto simp: unlocked_store_def put_defs)
  show "native_ok e'"
    by (rule native_ok_stake [OF ok _ _ _ _ _ acc liq _ lk(1)])
      (use q p tot pool_step_inv [OF step native_okD(1) [OF ok]] pool_step_total [OF step] e' in simp_all)
qed

subsection \<open>Lock\<close>

lemma store_lock_load:
  "store_lock u a dur =
     vbind (load_settled u) (\<lambda>(state, position).
     vthen (set_user_position u position)
    (vbind (get_liquid_balance_unchecked u) (\<lambda>liquid_balance.
     vthen (fail_if (liquid_balance < a) InsufficientBalance)
    (vbind (ok_or MathOverflow (checked_sub_i128 liquid_balance a)) (\<lambda>new_liquid_balance.
     vthen (set_liquid_balance u new_liquid_balance)
    (vbind (get_user_locks_unchecked u) (\<lambda>locks.
     vbind (gets timestamp) (\<lambda>now.
     vbind (ok_or MathOverflow (checked_add_u64 now dur)) (\<lambda>unlock_ts.
     set_user_locks u
       (locks @ [\<lparr> lock_amount = a, unlock_timestamp = unlock_ts, reward_multiplier = 0 \<rparr>]))))))))))"
  by (simp add: store_lock_def load_settled_def vbind_assoc vbind_ret)

lemma store_lock_Ok:
  assumes ok: "native_ok e" and run: "store_lock u a dur e = Ok x e'"
  obtains ks q where "settled_by e u q" "in_i128 (up_accrued_rewards q)" "a \<le> liquid_of (pers e) u"
    "in_u64 (timestamp e + dur)" "is_initialized e"
    "e' = log_ttl ks (with_stores (inst e)
       (put_locks u (locks_of (pers e) u @
            [\<lparr> lock_amount = a, unlock_timestamp = timestamp e + dur, reward_multiplier = 0 \<rparr>])
         (put_liquid u (liquid_of (pers e) u - a) (put_position u q (pers e)))) e)"
proof -
  have stores: "k_UserLiquidBalance (put_position u q p) = k_UserLiquidBalance p"
    "k_UserLocks (put_liquid u l (put_position u q p)) = k_UserLocks p" for q p l
    by (simp_all add: put_defs)
  from run obtain q e1 s0 where ld: "load_settled u e = Ok (s0, q) e1"
    and rest: "a \<le> liquid_of (pers e1) u" "in_u64 (timestamp e1 + dur)"
    "\<exists>ks. e' = log_ttl ks (with_stores (inst e1)
       (put_locks u (locks_of (pers e1) u @
            [\<lparr> lock_amount = a, unlock_timestamp = timestamp e1 + dur, reward_multiplier = 0 \<rparr>])
         (put_liquid u (liquid_of (pers e1) u - a) (put_position u q (pers e1)))) e1)"
    by (auto simp: store_lock_load vm_Ok_iffs store_simps int_simps with_stores_def stores)
  note L = load_settled_Ok [OF ok ld]
  from L(1) obtain ks1 where e1: "e1 = log_ttl ks1 e" by auto
  from rest(3) obtain ks where "e' = log_ttl ks (with_stores (inst e)
       (put_locks u (locks_of (pers e) u @
            [\<lparr> lock_amount = a, unlock_timestamp = timestamp e + dur, reward_multiplier = 0 \<rparr>])
         (put_liquid u (liquid_of (pers e) u - a) (put_position u q (pers e)))) e)"
    by (auto simp: e1 with_stores_def)
  then show ?thesis using that L rest e1 by simp
qed

lemma store_lock_step:
  assumes ok: "native_ok e" and a: "0 < a" and run: "store_lock u a dur e = Ok x e'"
  shows "pool_step (native_pool e) (PSettle u) (native_pool e')" "native_ok e'"
proof -
  obtain ks q where q: "settled_by e u q" "in_i128 (up_accrued_rewards q)" "a \<le> liquid_of (pers e) u"
    and e': "e' = log_ttl ks (with_stores (inst e)
       (put_locks u (locks_of (pers e) u @
            [\<lparr> lock_amount = a, unlock_timestamp = timestamp e + dur, reward_multiplier = 0 \<rparr>])
         (put_liquid u (liquid_of (pers e) u - a) (put_position u q (pers e)))) e)"
    using store_lock_Ok [OF ok run] by metis
  have pool: "native_pool e' = settle u (native_pool e)"
    using q(1) e' by (auto simp: settled_by_def native_pool_def put_defs settle_def fun_eq_iff)
  show step: "pool_step (native_pool e) (PSettle u) (native_pool e')"
    unfolding pool by (rule pool_step.settle)
  have tot: "in_i128 (p_total (native_pool e'))"
    using ok pool by (simp add: native_ok_def settle_def)
  show "native_ok e'"
    by (rule native_ok_stake [OF ok q(1,2) pool_step_inv [OF step native_okD(1) [OF ok]] tot,
          where l = "liquid_of (pers e) u - a"])
      (use q(3) a native_okD(4) [OF ok, of u] e' in \<open>auto simp: put_defs\<close>)
qed

subsection \<open>Distribution\<close>

lemma store_reward_distribution_Ok:
  assumes run: "store_reward_distribution amount e = Ok s e'" and amount: "0 \<le> amount" "in_i128 amount"
  obtains ks m inc where
    "calculate_utilization_multiplier (p_total (native_pool e)) (unwrap_or 0 (k_TargetDeposits (inst e)))
       (unwrap_or [] (k_UtilizationMultipliers (inst e))) = Inr m"
    "checked_reward_index_increment (amount * m div 10000) (p_total (native_pool e)) = Inr inc"
    "e' = log_ttl ks (with_stores ((inst e)\<lparr>k_RewardIndex := Some (p_idx (native_pool e) + inc)\<rparr>) (pers e) e)"
    "vs_reward_index s = p_idx (native_pool e) + inc" "is_initialized e"
proof -
  from run obtain a d r m eff inc where
    m: "calculate_utilization_multiplier (unwrap_or 0 (k_TotalDeposits (inst e)))
          (unwrap_or 0 (k_TargetDeposits (inst e))) (unwrap_or [] (k_UtilizationMultipliers (inst e))) = Inr m"
    and eff: "effective_reward_amount amount m = Inr eff"
    and inc: "checked_reward_index_increment eff (unwrap_or 0 (k_TotalDeposits (inst e))) = Inr inc"
    and s: "vs_reward_index s = unwrap_or 0 (k_RewardIndex (inst e)) + inc" and init: "is_initialized e"
    and e': "\<exists>ks. e' = log_ttl ks (with_stores
          ((inst e)\<lparr>k_RewardIndex := Some (unwrap_or 0 (k_RewardIndex (inst e)) + inc)\<rparr>) (pers e) e)"
    by (auto simp: store_reward_distribution_def vm_Ok_iffs get_state_Ok_iff store_simps int_simps with_stores_def)
  have "eff = amount * m div 10000" by (rule effective_reward_value [OF eff amount])
  with m inc s e' init that show ?thesis by (auto simp: native_pool_def)
qed

lemma select_multiplier_nonneg:
  "0 \<le> sel \<Longrightarrow> list_all (\<lambda>x. 0 \<le> multiplier_bps x) ps \<Longrightarrow> 0 \<le> select_multiplier util sel ps"
  by (induction ps) auto

lemma increment_amount_nonneg:
  assumes "checked_reward_index_increment amount tot = Inr inc" shows "0 < amount"
proof (rule ccontr)
  note f = checked_reward_index_increment_Inr [OF assms]
  assume "\<not> 0 < amount"
  then have "amount * REWARD_INDEX_SCALE \<le> 0" by (simp add: mult_le_0_iff less_imp_le)
  then have "trunc_div (amount * REWARD_INDEX_SCALE) tot \<le> 0"
    using f(1) by (auto simp: trunc_div_def sgn_if pos_imp_zdiv_nonneg_iff)
  with f show False by simp
qed

lemma store_reward_distribution_step:
  assumes ok: "native_ok e" and run: "store_reward_distribution amount e = Ok s e'"
    and amount: "0 \<le> amount" "in_i128 amount"
  obtains m where
    "calculate_utilization_multiplier (p_total (native_pool e)) (unwrap_or 0 (k_TargetDeposits (inst e)))
       (unwrap_or [] (k_UtilizationMultipliers (inst e))) = Inr m"
    "pool_step (native_pool e) (PDistribute (amount * m div 10000)) (native_pool e')" "native_ok e'"
    "pers e' = pers e"
proof -
  obtain ks m inc where m: "calculate_utilization_multiplier (p_total (native_pool e))
      (unwrap_or 0 (k_TargetDeposits (inst e))) (unwrap_or [] (k_UtilizationMultipliers (inst e))) = Inr m"
    and inc: "checked_reward_index_increment (amount * m div 10000) (p_total (native_pool e)) = Inr inc"
    and e': "e' = log_ttl ks (with_stores ((inst e)\<lparr>k_RewardIndex := Some (p_idx (native_pool e) + inc)\<rparr>) (pers e) e)"
    using store_reward_distribution_Ok [OF run amount] by metis
  have pool: "native_pool e' = raise_index inc (native_pool e)"
    using e' by (simp add: native_pool_def raise_index_def)
  have "0 < amount * m div 10000" by (rule increment_amount_nonneg [OF inc])
  then have "inc * p_total (native_pool e) \<le> (amount * m div 10000) * REWARD_INDEX_SCALE" "0 < inc"
    using increment_value(2) [OF inc] checked_reward_index_increment_Inr(2) [OF inc] by simp_all
  then have step: "pool_step (native_pool e) (PDistribute (amount * m div 10000)) (native_pool e')"
    unfolding pool by (blast intro: pool_step.distribute)
  have "native_ok e'"
    using ok pool_step_inv [OF step native_okD(1) [OF ok]] pool e'
    by (simp add: native_ok_def raise_index_def)
  with m step e' that show ?thesis by simp
qed

subsection \<open>Claim\<close>

lemma store_claimable_load:
  "store_claimable_rewards u =
     vbind (load_settled u) (\<lambda>(state, position).
     vbind (gets timestamp) (\<lambda>now.
     vbind (result (calculate_vested_rewards now position (vs_vesting_period state))) (\<lambda>vested.
     vbind (ok_or MathOverflow (checked_sub_i128 (up_accrued_rewards position) vested)) (\<lambda>remaining.
     vthen (set_user_position u (position\<lparr>up_accrued_rewards := remaining\<rparr>))
     (ret vested)))))"
  by (simp add: store_claimable_rewards_def load_settled_def vbind_assoc vbind_ret)

lemma store_claimable_Ok:
  assumes ok: "native_ok e" and run: "store_claimable_rewards u e = Ok v e'"
  obtains ks q where "settled_by e u q" "in_i128 (up_accrued_rewards q)" "is_initialized e"
    "calculate_vested_rewards (timestamp e) q (unwrap_or 0 (k_VestingPeriod (inst e))) = Inr v"
    "0 \<le> v" "v \<le> up_accrued_rewards q"
    "e' = log_ttl ks (with_stores (inst e)
       (put_position u (q\<lparr>up_accrued_rewards := up_accrued_rewards q - v\<rparr>) (pers e)) e)"
proof -
  from run obtain q e1 s0 where ld: "load_settled u e = Ok (s0, q) e1"
    and rest: "calculate_vested_rewards (timestamp e1) q (vs_vesting_period s0) = Inr v"
    "\<exists>ks. e' = log_ttl ks (with_stores (inst e1)
       (put_position u (q\<lparr>up_accrued_rewards := up_accrued_rewards q - v\<rparr>) (pers e1)) e1)"
    by (auto simp: store_claimable_load vm_Ok_iffs store_simps int_simps with_stores_def)
  note L = load_settled_Ok [OF ok ld]
  from L(1) obtain ks1 x y z where e1: "e1 = log_ttl ks1 e" and s0: "s0 = state_of (inst e) x y z" by auto
  have "0 \<le> up_accrued_rewards q"
    using L(3) pool_invD(4) [OF settle_inv [OF native_okD(1) [OF ok]]] by (simp add: settled_by_def)
  then have "0 \<le> v \<and> v \<le> up_accrued_rewards q"
    by (rule calculate_vested_bounds [OF rest(1) _ L(5)]) (use s0 native_okD(6) [OF ok] in simp)
  moreover from rest(2) obtain ks where "e' = log_ttl ks (with_stores (inst e)
       (put_position u (q\<lparr>up_accrued_rewards := up_accrued_rewards q - v\<rparr>) (pers e)) e)"
    by (auto simp: e1 with_stores_def)
  ultimately show ?thesis using that L(2,3,5) rest(1) e1 s0 by simp
qed

lemma store_claimable_step:
  assumes ok: "native_ok e" and run: "store_claimable_rewards u e = Ok v e'"
  shows "pool_step (native_pool e) (PClaim u v) (native_pool e')" "native_ok e'"
proof -
  obtain ks q where q: "settled_by e u q" "in_i128 (up_accrued_rewards q)" and v: "0 \<le> v" "v \<le> up_accrued_rewards q"
    and e': "e' = log_ttl ks (with_stores (inst e)
       (put_position u (q\<lparr>up_accrued_rewards := up_accrued_rewards q - v\<rparr>) (pers e)) e)"
    using store_claimable_Ok [OF ok run] by metis
  have pool: "native_pool e' = pay_out u v (settle u (native_pool e))"
    using q(1) e' by (auto simp: settled_by_def native_pool_def put_defs settle_def pay_out_def fun_eq_iff)
  have "v \<le> p_acc (settle u (native_pool e)) u" using q v by (simp add: settled_by_def)
  then show step: "pool_step (native_pool e) (PClaim u v) (native_pool e')"
    unfolding pool using v by (blast intro: pool_step.claim)
  have acc: "in_i128 (p_acc (native_pool e') w)" for w
    using native_okD(5) [OF ok, of w] q v e'
    by (auto simp: native_pool_def put_defs intro: in_i128_between)
  show "native_ok e'"
    using ok acc pool_step_inv [OF step native_okD(1) [OF ok]] pool_step_total [OF step] e'
    by (simp add: native_ok_def put_defs)
qed

section \<open>The native ledger implements the pool\<close>

text \<open>The storage operations by the label of the pool step they perform.\<close>

inductive native_exec :: "'w env \<Rightarrow> Address pool_op \<Rightarrow> 'w env \<Rightarrow> bool" where
  exec_deposit: "0 < a \<Longrightarrow> store_deposit u a e = Ok r e' \<Longrightarrow> native_exec e (PDeposit u a) e'"
| exec_withdraw: "0 < a \<Longrightarrow> store_withdraw u a e = Ok r e' \<Longrightarrow> native_exec e (PWithdraw u a) e'"
| exec_lock: "0 < a \<Longrightarrow> store_lock u a dur e = Ok r e' \<Longrightarrow> native_exec e (PSettle u) e'"
| exec_distribute: "0 \<le> a \<Longrightarrow> in_i128 a \<Longrightarrow> store_reward_distribution a e = Ok s e' \<Longrightarrow>
    calculate_utilization_multiplier (p_total (native_pool e)) (unwrap_or 0 (k_TargetDeposits (inst e)))
      (unwrap_or [] (k_UtilizationMultipliers (inst e))) = Inr m \<Longrightarrow>
    native_exec e (PDistribute (a * m div 10000)) e'"
| exec_claim: "store_claimable_rewards u e = Ok v e' \<Longrightarrow> native_exec e (PClaim u v) e'"

lemma native_exec_step:
  assumes "native_exec e op e'" "native_ok e"
  shows "pool_step (native_pool e) op (native_pool e') \<and> native_ok e'"
  using assms
proof (induction rule: native_exec.induct)
  case (exec_deposit a u e r e')
  then show ?case by (cases r) (auto dest: store_deposit_step)
next
  case (exec_withdraw a u e r e')
  then show ?case by (cases r) (auto dest: store_withdraw_step)
next
  case (exec_lock a u dur e r e')
  then show ?case by (auto dest: store_lock_step)
next
  case (exec_distribute a e s e' m)
  then show ?case by (metis store_reward_distribution_step sum.inject(2))
next
  case (exec_claim u e v e')
  then show ?case by (auto dest: store_claimable_step)
qed

interpretation native: reward_ledger native_pool native_ok native_exec
  by unfold_locales (auto dest: native_exec_step native_okD(1))

end
