(* ===== verification/Asset_Ledger.thy ===== *)
theory Asset_Ledger
  imports Vault_Assets
begin

text \<open>
  Closed forms of the asset operations, the invariant of an asset's ledger, the
  interpretation of \<open>reward_ledger\<close> for every asset, and the independence of the
  ledgers from each other.
\<close>

section \<open>Closed forms\<close>

definition asset_position :: "pers_storage \<Rightarrow> Address \<Rightarrow> Address \<Rightarrow> UserPosition" where
  "asset_position p u x =
     \<lparr> up_balance = unwrap_or 0 (k_UserAssetBalance p (u, x)),
       up_reward_index = unwrap_or 0 (k_UserAssetRewardIndex p (u, x)),
       up_accrued_rewards = unwrap_or 0 (k_UserAssetAccruedRewards p (u, x)),
       up_last_reward_timestamp = unwrap_or 0 (k_UserAssetLastRewardTimestamp p (u, x)) \<rparr>"

definition put_asset_position :: "Address \<Rightarrow> Address \<Rightarrow> UserPosition \<Rightarrow> pers_storage \<Rightarrow> pers_storage" where
  "put_asset_position u x q p = p\<lparr>
     k_UserAssetBalance := (k_UserAssetBalance p)((u, x) := if up_balance q = 0 then None else Some (up_balance q)),
     k_UserAssetRewardIndex := (k_UserAssetRewardIndex p)((u, x) := if up_reward_index q = 0 then None else Some (up_reward_index q)),
     k_UserAssetAccruedRewards := (k_UserAssetAccruedRewards p)((u, x) := if up_accrued_rewards q = 0 then None else Some (up_accrued_rewards q)),
     k_UserAssetLastRewardTimestamp := (k_UserAssetLastRewardTimestamp p)((u, x) \<mapsto> up_last_reward_timestamp q)\<rparr>"

definition asset_position_ttl :: "Address \<Rightarrow> Address \<Rightarrow> UserPosition \<Rightarrow> ttl_call list" where
  "asset_position_ttl u x q =
     ttl_if (up_balance q \<noteq> 0) (UserAssetBalance u x) @
     ttl_if (up_reward_index q \<noteq> 0) (UserAssetRewardIndex u x) @
     ttl_if (up_accrued_rewards q \<noteq> 0) (UserAssetAccruedRewards u x)"

lemma is_asset_supported_cong [simp]:
  "is_asset_supported (log_ttl ks e) x = is_asset_supported e x"
  "is_asset_supported (emit ts d e) x = is_asset_supported e x"
  by (simp_all add: is_asset_supported_def get_supported_assets_def)

lemma get_asset_position_run [store_simps]:
  "get_user_asset_position_unchecked u x e =
     Ok (asset_position (pers e) u x)
        (log_ttl (asset_position_ttl u x (asset_position (pers e) u x) @
           ttl_if (up_last_reward_timestamp (asset_position (pers e) u x) \<noteq> 0)
             (UserAssetLastRewardTimestamp u x)) e)"
  by (simp add: get_user_asset_position_unchecked_def vm_simps asset_position_def asset_position_ttl_def)

lemma set_asset_position_run [store_simps]:
  "set_user_asset_position u x q e =
     Ok () (log_ttl (asset_position_ttl u x q @ ttl_if True (UserAssetLastRewardTimestamp u x))
              (e\<lparr>pers := put_asset_position u x q (pers e)\<rparr>))"
  by (simp add: set_user_asset_position_def vm_simps put_asset_position_def asset_position_ttl_def ttl_if_def)

lemma get_asset_run [store_simps]:
  "get_asset_total_deposits x e =
     (if is_asset_supported e x then Ok (unwrap_or 0 (k_AssetTotalDeposits (inst e) x)) e else Err InvalidAddress e)"
  "get_asset_reward_index x e =
     (if is_asset_supported e x then Ok (unwrap_or 0 (k_AssetRewardIndex (inst e) x)) e else Err InvalidAddress e)"
  "require_asset_supported x e = (if is_asset_supported e x then Ok () e else Err InvalidAddress e)"
  by (simp_all add: get_asset_total_deposits_def get_asset_reward_index_def require_asset_supported_def vm_simps)

lemma set_asset_run [store_simps]:
  "set_asset_total_deposits x t e =
     Ok () (log_ttl ttl_inst (e\<lparr>inst := (inst e)\<lparr>k_AssetTotalDeposits := (k_AssetTotalDeposits (inst e))(x \<mapsto> t)\<rparr>\<rparr>))"
  "set_asset_reward_index x t e =
     Ok () (log_ttl ttl_inst (e\<lparr>inst := (inst e)\<lparr>k_AssetRewardIndex := (k_AssetRewardIndex (inst e))(x \<mapsto> t)\<rparr>\<rparr>))"
  by (simp_all add: set_asset_total_deposits_def set_asset_reward_index_def vm_simps)

section \<open>Abstraction and invariant\<close>

definition asset_pool :: "Address \<Rightarrow> 'w env \<Rightarrow> Address pool" where
  "asset_pool x e =
     \<lparr> p_bal = (\<lambda>u. unwrap_or 0 (k_UserAssetBalance (pers e) (u, x))),
       p_uidx = (\<lambda>u. unwrap_or 0 (k_UserAssetRewardIndex (pers e) (u, x))),
       p_acc = (\<lambda>u. unwrap_or 0 (k_UserAssetAccruedRewards (pers e) (u, x))),
       p_total = unwrap_or 0 (k_AssetTotalDeposits (inst e) x),
       p_idx = unwrap_or 0 (k_AssetRewardIndex (inst e) x) \<rparr>"

definition asset_ok :: "Address \<Rightarrow> 'w env \<Rightarrow> bool" where
  "asset_ok x e \<longleftrightarrow>
     pool_inv (asset_pool x e) \<and> in_i128 (p_total (asset_pool x e)) \<and>
     (\<forall>u. in_i128 (p_acc (asset_pool x e) u)) \<and> 0 \<le> unwrap_or 0 (k_VestingPeriod (inst e))"

lemma asset_pool_cong [simp]:
  "asset_pool x (log_ttl ks e) = asset_pool x e"
  "asset_pool x (emit ts d e) = asset_pool x e"
  by (simp_all add: asset_pool_def)

lemma asset_ok_cong [simp]:
  "asset_ok x (log_ttl ks e) = asset_ok x e"
  "asset_ok x (emit ts d e) = asset_ok x e"
  by (simp_all add: asset_ok_def)

lemma asset_okD:
  assumes "asset_ok x e"
  shows "pool_inv (asset_pool x e)" "in_i128 (p_total (asset_pool x e))"
    "in_i128 (p_acc (asset_pool x e) u)" "0 \<le> unwrap_or 0 (k_VestingPeriod (inst e))"
  using assms by (simp_all add: asset_ok_def)

definition asset_settled_by :: "Address \<Rightarrow> 'w env \<Rightarrow> Address \<Rightarrow> UserPosition \<Rightarrow> bool" where
  "asset_settled_by x e u q \<longleftrightarrow>
     up_balance q = p_bal (asset_pool x e) u \<and> up_reward_index q = p_idx (asset_pool x e) \<and>
     up_accrued_rewards q = p_acc (settle u (asset_pool x e)) u \<and> in_i128 (up_accrued_rewards q)"

lemma accrue_asset:
  assumes ok: "asset_ok x e"
    and acc: "accrue_asset_position_rewards now (unwrap_or 0 (k_AssetRewardIndex (inst e) x))
                (asset_position (pers e) u x) = Inr q"
  shows "asset_settled_by x e u q"
proof -
  let ?p = "asset_pool x e"
  note inv = asset_okD(1) [OF ok]
  have idx: "unwrap_or 0 (k_AssetRewardIndex (inst e) x) = p_idx ?p" by (simp add: asset_pool_def)
  have pos: "up_balance (asset_position (pers e) u x) = p_bal ?p u"
    "up_reward_index (asset_position (pers e) u x) = p_uidx ?p u"
    "up_accrued_rewards (asset_position (pers e) u x) = p_acc ?p u"
    by (simp_all add: asset_position_def asset_pool_def)
  note q = accrue_Inr [OF acc [unfolded idx], unfolded pos, OF pool_invD(3,5) [OF inv]]
  have "in_i128 (up_accrued_rewards q)"
    by (rule accrue_in_range [OF acc [unfolded idx]])
      (use pool_invD(3,5) [OF inv] asset_okD(3) [OF ok] in \<open>simp_all add: pos\<close>)
  with q show ?thesis by (simp add: asset_settled_by_def settle_def pos)
qed

section \<open>Operations as pool steps\<close>

lemma asset_ok_step:
  assumes ok: "asset_ok x e" and step: "pool_step (asset_pool x e) op (asset_pool x e')"
    and tot: "in_i128 (p_total (asset_pool x e'))"
    and acc: "\<And>w. in_i128 (p_acc (asset_pool x e') w)"
    and vest: "k_VestingPeriod (inst e') = k_VestingPeriod (inst e)"
  shows "asset_ok x e'"
  using ok pool_step_inv [OF step] tot acc vest by (simp add: asset_ok_def)

lemma asset_pool_stake:
  assumes "asset_settled_by x e u q"
  shows "asset_pool x (with_stores
      ((inst e)\<lparr>k_AssetTotalDeposits := (k_AssetTotalDeposits (inst e))(x \<mapsto> p_total (asset_pool x e) + d)\<rparr>)
      (put_asset_position u x (q\<lparr>up_balance := up_balance q + d\<rparr>) (pers e)) e)
    = change_stake u d (settle u (asset_pool x e))"
  using assms
  by (auto simp: asset_settled_by_def asset_pool_def put_asset_position_def settle_def change_stake_def fun_eq_iff)

lemma asset_stake_step:
  assumes ok: "asset_ok x e" and q: "asset_settled_by x e u q"
    and e': "e' = log_ttl ks (with_stores
      ((inst e)\<lparr>k_AssetTotalDeposits := (k_AssetTotalDeposits (inst e))(x \<mapsto> p_total (asset_pool x e) + d)\<rparr>)
      (put_asset_position u x (q\<lparr>up_balance := up_balance q + d\<rparr>) (pers e)) e)"
    and step: "pool_step (asset_pool x e) op (change_stake u d (settle u (asset_pool x e)))"
    and tot: "in_i128 (p_total (asset_pool x e) + d)"
  shows "pool_step (asset_pool x e) op (asset_pool x e') \<and> asset_ok x e'"
proof -
  have pool: "asset_pool x e' = change_stake u d (settle u (asset_pool x e))"
    using asset_pool_stake [OF q, of d] e' by simp
  have "asset_ok x e'"
  proof (rule asset_ok_step [OF ok])
    show "pool_step (asset_pool x e) op (asset_pool x e')" using step pool by simp
    show "in_i128 (p_total (asset_pool x e'))" using tot pool by (simp add: change_stake_def settle_def)
    show "in_i128 (p_acc (asset_pool x e') w)" for w
      using q asset_okD(3) [OF ok, of w] pool
      by (auto simp: asset_settled_by_def change_stake_def settle_def)
    show "k_VestingPeriod (inst e') = k_VestingPeriod (inst e)" using e' by simp
  qed
  with step pool show ?thesis by simp
qed

lemma store_asset_deposit_Ok:
  assumes ok: "asset_ok x e" and run: "store_asset_deposit u x a e = Ok q' e'"
  obtains ks q where "asset_settled_by x e u q" "q' = q\<lparr>up_balance := up_balance q + a\<rparr>"
    "e' = log_ttl ks (with_stores
      ((inst e)\<lparr>k_AssetTotalDeposits := (k_AssetTotalDeposits (inst e))(x \<mapsto> p_total (asset_pool x e) + a)\<rparr>)
      (put_asset_position u x q' (pers e)) e)"
    "in_i128 (p_total (asset_pool x e) + a)" "is_asset_supported e x"
proof -
  from run obtain q where
    acc: "accrue_asset_position_rewards (timestamp e) (unwrap_or 0 (k_AssetRewardIndex (inst e) x))
            (asset_position (pers e) u x) = Inr q"
    and r: "q' = q\<lparr>up_balance := up_balance q + a\<rparr>" "in_i128 (unwrap_or 0 (k_AssetTotalDeposits (inst e) x) + a)"
      "is_asset_supported e x"
    and e': "\<exists>ks. e' = log_ttl ks (with_stores
      ((inst e)\<lparr>k_AssetTotalDeposits := (k_AssetTotalDeposits (inst e))(x \<mapsto> unwrap_or 0 (k_AssetTotalDeposits (inst e) x) + a)\<rparr>)
      (put_asset_position u x q' (pers e)) e)"
    by (auto simp: store_asset_deposit_def vm_Ok_iffs store_simps int_simps with_stores_def split: if_splits)
  from accrue_asset [OF ok acc] r e' that show ?thesis by (auto simp: asset_pool_def)
qed

lemma store_asset_deposit_step:
  assumes ok: "asset_ok x e" and a: "0 < a" and run: "store_asset_deposit u x a e = Ok q' e'"
  shows "pool_step (asset_pool x e) (PDeposit u a) (asset_pool x e') \<and> asset_ok x e'"
  using store_asset_deposit_Ok [OF ok run] asset_stake_step [OF ok, of u _ e' _ a] a
  by (metis pool_step.deposit)

lemma store_asset_withdraw_Ok:
  assumes ok: "asset_ok x e" and run: "store_asset_withdraw u x a e = Ok q' e'"
  obtains ks q where "asset_settled_by x e u q" "q' = q\<lparr>up_balance := up_balance q + (- a)\<rparr>"
    "e' = log_ttl ks (with_stores
      ((inst e)\<lparr>k_AssetTotalDeposits := (k_AssetTotalDeposits (inst e))(x \<mapsto> p_total (asset_pool x e) + (- a))\<rparr>)
      (put_asset_position u x q' (pers e)) e)"
    "in_i128 (p_total (asset_pool x e) + (- a))" "a \<le> p_bal (asset_pool x e) u" "is_asset_supported e x"
proof -
  from run obtain q where
    acc: "accrue_asset_position_rewards (timestamp e) (unwrap_or 0 (k_AssetRewardIndex (inst e) x))
            (asset_position (pers e) u x) = Inr q"
    and r: "q' = q\<lparr>up_balance := up_balance q - a\<rparr>" "in_i128 (unwrap_or 0 (k_AssetTotalDeposits (inst e) x) - a)"
      "a \<le> up_balance q" "is_asset_supported e x"
    and e': "\<exists>ks. e' = log_ttl ks (with_stores
      ((inst e)\<lparr>k_AssetTotalDeposits := (k_AssetTotalDeposits (inst e))(x \<mapsto> unwrap_or 0 (k_AssetTotalDeposits (inst e) x) - a)\<rparr>)
      (put_asset_position u x q' (pers e)) e)"
    by (auto simp: store_asset_withdraw_def vm_Ok_iffs store_simps int_simps with_stores_def split: if_splits)
  have s: "asset_settled_by x e u q" by (rule accrue_asset [OF ok acc])
  then have "a \<le> p_bal (asset_pool x e) u" using r by (simp add: asset_settled_by_def)
  with s r e' that show ?thesis by (auto simp: asset_pool_def)
qed

lemma store_asset_withdraw_step:
  assumes ok: "asset_ok x e" and a: "0 < a" and run: "store_asset_withdraw u x a e = Ok q' e'"
  shows "pool_step (asset_pool x e) (PWithdraw u a) (asset_pool x e') \<and> asset_ok x e'"
  using store_asset_withdraw_Ok [OF ok run] asset_stake_step [OF ok, of u _ e' _ "- a"] a
  by (metis pool_step.withdraw)

lemma store_asset_distribution_Ok:
  assumes run: "store_asset_reward_distribution x amount e = Ok n e'"
  obtains ks inc where "checked_reward_index_increment amount (p_total (asset_pool x e)) = Inr inc"
    "n = p_idx (asset_pool x e) + inc" "is_asset_supported e x"
    "e' = log_ttl ks (with_stores
      ((inst e)\<lparr>k_AssetRewardIndex := (k_AssetRewardIndex (inst e))(x \<mapsto> p_idx (asset_pool x e) + inc)\<rparr>) (pers e) e)"
  using run that
  by (auto simp: store_asset_reward_distribution_def vm_Ok_iffs store_simps int_simps with_stores_def asset_pool_def
      split: if_splits)

lemma store_asset_distribution_step:
  assumes ok: "asset_ok x e" and run: "store_asset_reward_distribution x amount e = Ok n e'"
  shows "pool_step (asset_pool x e) (PDistribute amount) (asset_pool x e') \<and> asset_ok x e'"
proof -
  obtain ks inc where inc: "checked_reward_index_increment amount (p_total (asset_pool x e)) = Inr inc"
    and e': "e' = log_ttl ks (with_stores
      ((inst e)\<lparr>k_AssetRewardIndex := (k_AssetRewardIndex (inst e))(x \<mapsto> p_idx (asset_pool x e) + inc)\<rparr>) (pers e) e)"
    using store_asset_distribution_Ok [OF run] by metis
  have pool: "asset_pool x e' = raise_index inc (asset_pool x e)"
    using e' by (simp add: asset_pool_def raise_index_def)
  have "0 < amount" by (rule increment_amount_nonneg [OF inc])
  then have "inc * p_total (asset_pool x e) \<le> amount * REWARD_INDEX_SCALE" "0 < inc"
    using increment_value(2) [OF inc] checked_reward_index_increment_Inr(2) [OF inc] by simp_all
  then have step: "pool_step (asset_pool x e) (PDistribute amount) (asset_pool x e')"
    unfolding pool by (blast intro: pool_step.distribute)
  moreover have "asset_ok x e'"
    by (rule asset_ok_step [OF ok step]) (use asset_okD(2,3) [OF ok] pool e' in \<open>simp_all add: raise_index_def\<close>)
  ultimately show ?thesis ..
qed

lemma store_asset_claimable_Ok:
  assumes ok: "asset_ok x e" and run: "store_asset_claimable_rewards u x e = Ok v e'"
  obtains ks q where "asset_settled_by x e u q" "is_asset_supported e x"
    "calculate_vested_rewards (timestamp e) q (unwrap_or 0 (k_VestingPeriod (inst e))) = Inr v"
    "0 \<le> v" "v \<le> up_accrued_rewards q"
    "e' = log_ttl ks (with_stores (inst e)
       (put_asset_position u x (q\<lparr>up_accrued_rewards := up_accrued_rewards q - v\<rparr>) (pers e)) e)"
proof -
  from run obtain q where
    acc: "accrue_asset_position_rewards (timestamp e) (unwrap_or 0 (k_AssetRewardIndex (inst e) x))
            (asset_position (pers e) u x) = Inr q"
    and v: "calculate_vested_rewards (timestamp e) q (unwrap_or 0 (k_VestingPeriod (inst e))) = Inr v"
    and sup: "is_asset_supported e x"
    and e': "\<exists>ks. e' = log_ttl ks (with_stores (inst e)
       (put_asset_position u x (q\<lparr>up_accrued_rewards := up_accrued_rewards q - v\<rparr>) (pers e)) e)"
    by (auto simp: store_asset_claimable_rewards_def vm_Ok_iffs get_state_Ok_iff store_simps int_simps with_stores_def
        split: if_splits)
  have s: "asset_settled_by x e u q" by (rule accrue_asset [OF ok acc])
  then have "in_i128 (up_accrued_rewards q)" unfolding asset_settled_by_def by blast
  moreover have "0 \<le> up_accrued_rewards q"
    using s pool_invD(4) [OF settle_inv [OF asset_okD(1) [OF ok]]] by (simp add: asset_settled_by_def)
  ultimately have "0 \<le> v \<and> v \<le> up_accrued_rewards q"
    by (intro calculate_vested_bounds [OF v _ _ asset_okD(4) [OF ok]])
  with s sup v e' that show ?thesis by auto
qed

lemma store_asset_claimable_step:
  assumes ok: "asset_ok x e" and run: "store_asset_claimable_rewards u x e = Ok v e'"
  shows "pool_step (asset_pool x e) (PClaim u v) (asset_pool x e') \<and> asset_ok x e'"
proof -
  obtain ks q where q: "asset_settled_by x e u q" and v: "0 \<le> v" "v \<le> up_accrued_rewards q"
    and e': "e' = log_ttl ks (with_stores (inst e)
       (put_asset_position u x (q\<lparr>up_accrued_rewards := up_accrued_rewards q - v\<rparr>) (pers e)) e)"
    using store_asset_claimable_Ok [OF ok run] by metis
  have pool: "asset_pool x e' = pay_out u v (settle u (asset_pool x e))"
    using q e' by (auto simp: asset_settled_by_def asset_pool_def put_asset_position_def settle_def pay_out_def fun_eq_iff)
  have "v \<le> p_acc (settle u (asset_pool x e)) u" using q v by (simp add: asset_settled_by_def)
  then have step: "pool_step (asset_pool x e) (PClaim u v) (asset_pool x e')"
    unfolding pool using v by (blast intro: pool_step.claim)
  have "in_i128 (up_accrued_rewards q - v)"
    by (rule in_i128_between [of "up_accrued_rewards q"]) (use q v in \<open>auto simp: asset_settled_by_def\<close>)
  then have "in_i128 (p_acc (asset_pool x e') w)" for w
    using asset_okD(3) [OF ok, of w] q pool by (auto simp: asset_settled_by_def pay_out_def settle_def)
  then have "asset_ok x e'"
    by (intro asset_ok_step [OF ok step])
      (use asset_okD(2) [OF ok] pool e' in \<open>simp_all add: pay_out_def settle_def\<close>)
  with step show ?thesis ..
qed

section \<open>Every asset implements the pool\<close>

inductive asset_exec :: "Address \<Rightarrow> 'w env \<Rightarrow> Address pool_op \<Rightarrow> 'w env \<Rightarrow> bool" for x where
  asset_deposit: "0 < a \<Longrightarrow> store_asset_deposit u x a e = Ok r e' \<Longrightarrow> asset_exec x e (PDeposit u a) e'"
| asset_withdraw: "0 < a \<Longrightarrow> store_asset_withdraw u x a e = Ok r e' \<Longrightarrow> asset_exec x e (PWithdraw u a) e'"
| asset_distribute: "store_asset_reward_distribution x a e = Ok n e' \<Longrightarrow> asset_exec x e (PDistribute a) e'"
| asset_claim: "store_asset_claimable_rewards u x e = Ok v e' \<Longrightarrow> asset_exec x e (PClaim u v) e'"

lemma asset_exec_step:
  "asset_exec x e op e' \<Longrightarrow> asset_ok x e \<Longrightarrow>
     pool_step (asset_pool x e) op (asset_pool x e') \<and> asset_ok x e'"
  by (induction rule: asset_exec.induct)
    (blast dest: store_asset_deposit_step store_asset_withdraw_step store_asset_distribution_step
      store_asset_claimable_step)+

interpretation asset: reward_ledger "asset_pool x" "asset_ok x" "asset_exec x" for x
  by unfold_locales (auto dest: asset_exec_step asset_okD(1))

end
