(* ===== verification/Vault_Contract.thy ===== *)
theory Vault_Contract
  imports Asset_Ledger
begin

text \<open>
  The entry points of the vault contract (\<open>contracts/vault-contract/src/lib.rs\<close>), each
  with its guards in the order of the source, over an arbitrary token implementation
  \<open>tk\<close>.
\<close>

section \<open>Validation and the reentrancy wrapper\<close>

definition validate_positive_amount :: "int \<Rightarrow> (unit, 'w) vm" where
  "validate_positive_amount amount =
     (if amount < 0 then throw (from_ValidationError VE_NegativeAmount)
      else if amount = 0 then throw (from_ValidationError VE_InvalidAmount)
      else ret ())"

definition validate_distinct_token_addresses :: "Address \<Rightarrow> Address \<Rightarrow> (unit, 'w) vm" where
  "validate_distinct_token_addresses deposit_token reward_token =
     fail_if (deposit_token = reward_token) (from_ValidationError VE_InvalidTokenConfiguration)"

fun ascending_from :: "int \<Rightarrow> MultiplierPoint list \<Rightarrow> bool" where
  "ascending_from last_util_bps [] = True"
| "ascending_from last_util_bps (point # ps) =
     (if utilization_bps point < last_util_bps then False
      else ascending_from (utilization_bps point) ps)"

definition validate_utilization_multipliers :: "MultiplierPoint list \<Rightarrow> (unit, 'w) vm" where
  "validate_utilization_multipliers multipliers =
     (if multipliers = [] then ret ()
      else fail_if (\<not> ascending_from 0 multipliers)
             (from_ValidationError VE_InvalidUtilizationParameters))"

definition ensure_contract_balance :: "int \<Rightarrow> int \<Rightarrow> (unit, 'w) vm" where
  "ensure_contract_balance bal requested_amount =
     fail_if (bal < requested_amount) (from_BalanceError BE_InsufficientContractBalance)"

definition with_non_reentrant :: "('a, 'w) vm \<Rightarrow> ('a, 'w) vm" where
  "with_non_reentrant f =
     vthen enter_non_reentrant
      (\<lambda>e. case f e of
             Ok x e' \<Rightarrow> vthen exit_non_reentrant (ret x) e'
           | Err er e' \<Rightarrow> vthen exit_non_reentrant (throw er) e'
           | Trap t \<Rightarrow> Trap t)"

section \<open>Administration\<close>

definition version :: int where
  "version = 1"

definition initialize ::
  "Address \<Rightarrow> Address \<Rightarrow> Address \<Rightarrow> int \<Rightarrow> int \<Rightarrow> MultiplierPoint list \<Rightarrow> (unit, 'w) vm" where
  "initialize admin deposit_token reward_token vesting_period target_deposits multipliers =
     vthen require_not_paused
    (vbind (gets is_initialized) (\<lambda>b.
     vthen (fail_if b (from_StateError SE_AlreadyInitialized))
    (vthen (validate_distinct_token_addresses deposit_token reward_token)
    (vthen (validate_utilization_multipliers multipliers)
    (vthen (require_auth admin)
    (vthen (initialize_state admin deposit_token reward_token vesting_period target_deposits multipliers)
     (emit_initialize admin deposit_token reward_token)))))))"

definition propose_new_admin :: "Address \<Rightarrow> (unit, 'w) vm" where
  "propose_new_admin new_admin =
     vthen require_initialized
    (vbind get_admin (\<lambda>admin.
     vthen (require_auth admin)
    (vthen (set_pending_admin new_admin)
     (emit_admin_transfer_proposed admin new_admin))))"

definition accept_admin :: "Address \<Rightarrow> (unit, 'w) vm" where
  "accept_admin new_admin =
     vthen require_initialized
    (vthen (require_auth new_admin)
    (vbind get_admin (\<lambda>previous_admin.
     vbind get_pending_admin (\<lambda>pending.
     vbind (ok_or (from_StateError SE_NoPendingAdmin) pending) (\<lambda>pending_admin.
     vthen (fail_if (pending_admin \<noteq> new_admin) (from_AuthorizationError AU_Unauthorized))
    (vthen (set_admin new_admin)
    (vthen clear_pending_admin
     (emit_admin_transfer_accepted previous_admin new_admin))))))))"

definition pause_contract :: "(unit, 'w) vm" where
  "pause_contract =
     vthen require_initialized
    (vbind get_admin (\<lambda>admin.
     vthen (require_auth admin) (set_paused True)))"

definition unpause_contract :: "(unit, 'w) vm" where
  "unpause_contract =
     vthen require_initialized
    (vbind get_admin (\<lambda>admin.
     vthen (require_auth admin) (set_paused False)))"

definition upgrade :: "BytesN32 \<Rightarrow> (unit, 'w) vm" where
  "upgrade new_wasm_hash =
     vthen require_initialized
    (vbind get_admin (\<lambda>admin.
     vthen (require_auth admin)
    (vthen (update_current_contract_wasm new_wasm_hash)
     (emit_upgrade admin new_wasm_hash))))"

section \<open>Native vault\<close>

definition deposit :: "'w token_if \<Rightarrow> Address \<Rightarrow> int \<Rightarrow> (unit, 'w) vm" where
  "deposit tk from amount =
     vthen require_not_paused
    (vthen require_initialized
    (vthen (validate_positive_amount amount)
    (vthen (require_auth from)
     (with_non_reentrant
       (vbind get_state (\<lambda>state.
        vbind (gets contract_address) (\<lambda>contract.
        vthen (token_transfer tk (vs_deposit_token state) from contract amount)
       (vthen (store_deposit from amount)
        (emit_deposit from amount)))))))))"

definition withdraw :: "'w token_if \<Rightarrow> Address \<Rightarrow> int \<Rightarrow> (unit, 'w) vm" where
  "withdraw tk to amount =
     vthen require_not_paused
    (vthen require_initialized
    (vthen (validate_positive_amount amount)
    (vthen (require_auth to)
     (with_non_reentrant
       (vbind get_state (\<lambda>state.
        vbind (store_withdraw to amount) (\<lambda>(_, position).
        vthen (emit_withdraw to amount (up_balance position))
       (vbind (gets contract_address) (\<lambda>contract.
        token_transfer tk (vs_deposit_token state) contract to amount)))))))))"

definition MIN_REWARD_DISTRIBUTION :: int where
  "MIN_REWARD_DISTRIBUTION = 100000"

definition distribute_rewards :: "'w token_if \<Rightarrow> int \<Rightarrow> (int, 'w) vm" where
  "distribute_rewards tk amount =
     vthen require_initialized
    (vthen (validate_positive_amount amount)
    (vthen (fail_if (amount < MIN_REWARD_DISTRIBUTION) (from_ValidationError VE_InsufficientRewardAmount))
    (vbind get_state (\<lambda>state.
     vthen (require_auth (vs_admin state))
     (with_non_reentrant
       (vbind (gets contract_address) (\<lambda>contract.
        vthen (token_transfer tk (vs_reward_token state) (vs_admin state) contract amount)
       (vbind (store_reward_distribution amount) (\<lambda>next_state.
        vthen (emit_distribute (vs_admin state) amount)
        (ret (vs_reward_index next_state)))))))))))"

definition lock :: "Address \<Rightarrow> int \<Rightarrow> int \<Rightarrow> (unit, 'w) vm" where
  "lock from amount duration_seconds =
     vthen require_not_paused
    (vthen require_initialized
    (vthen (validate_positive_amount amount)
    (vthen (fail_if (duration_seconds = 0) (from_ValidationError VE_InvalidLockDuration))
    (vthen (require_auth from)
     (with_non_reentrant
       (vbind (gets timestamp) (\<lambda>now.
        vbind (ok_or MathOverflow (checked_add_u64 now duration_seconds)) (\<lambda>unlock_ts.
        vthen (store_lock from amount duration_seconds)
        (emit_lock from amount unlock_ts)))))))))"

definition MAX_UNLOCK_LIMIT :: int where
  "MAX_UNLOCK_LIMIT = 50"

definition unlock_expired :: "Address \<Rightarrow> int \<Rightarrow> (int, 'w) vm" where
  "unlock_expired user limit =
     vthen require_not_paused
    (vthen require_initialized
    (vthen (require_auth user)
    (vthen (fail_if (limit > MAX_UNLOCK_LIMIT) OperationLimitExceeded)
     (with_non_reentrant
       (vbind (unlock_expired_locks user limit) (\<lambda>unlocked_amount.
        vthen (vwhen (unlocked_amount > 0) (emit_unlock user unlocked_amount))
        (ret unlocked_amount)))))))"

definition claim_rewards :: "'w token_if \<Rightarrow> Address \<Rightarrow> (int, 'w) vm" where
  "claim_rewards tk user =
     vthen require_not_paused
    (vthen require_initialized
    (vthen (require_auth user)
     (with_non_reentrant
       (vbind (store_claimable_rewards user) (\<lambda>amt.
        if amt \<le> 0 then ret 0
        else
          vbind get_reward_token (\<lambda>reward_token_id.
          vbind (gets contract_address) (\<lambda>contract.
          vbind (token_balance tk reward_token_id contract) (\<lambda>bal.
          vthen (ensure_contract_balance bal amt)
         (vthen (token_transfer tk reward_token_id contract user amt)
         (vthen (emit_claim_rewards user amt)
          (ret amt)))))))))))"

section \<open>Assets\<close>

definition add_asset :: "Address \<Rightarrow> Address \<Rightarrow> (unit, 'w) vm" where
  "add_asset admin asset =
     vthen require_initialized
    (vbind get_admin (\<lambda>stored_admin.
     vthen (fail_if (admin \<noteq> stored_admin) (from_AuthorizationError AU_Unauthorized))
    (vthen (require_auth admin)
    (vthen (add_supported_asset asset)
     (emit_asset_added asset)))))"

definition deposit_asset :: "'w token_if \<Rightarrow> Address \<Rightarrow> Address \<Rightarrow> int \<Rightarrow> (unit, 'w) vm" where
  "deposit_asset tk from asset amount =
     vthen require_not_paused
    (vthen require_initialized
    (vthen (validate_positive_amount amount)
    (vthen (require_auth from)
    (vthen (require_asset_supported asset)
     (with_non_reentrant
       (vbind (gets contract_address) (\<lambda>contract.
        vthen (token_transfer tk asset from contract amount)
       (vthen (store_asset_deposit from asset amount)
        (emit_asset_deposit from asset amount)))))))))"

definition withdraw_asset :: "'w token_if \<Rightarrow> Address \<Rightarrow> Address \<Rightarrow> int \<Rightarrow> (unit, 'w) vm" where
  "withdraw_asset tk to asset amount =
     vthen require_not_paused
    (vthen require_initialized
    (vthen (validate_positive_amount amount)
    (vthen (require_auth to)
    (vthen (require_asset_supported asset)
     (with_non_reentrant
       (vbind (store_asset_withdraw to asset amount) (\<lambda>position.
        vthen (emit_asset_withdraw to asset amount (up_balance position))
       (vbind (gets contract_address) (\<lambda>contract.
        token_transfer tk asset contract to amount)))))))))"

definition distribute_rewards_for_asset ::
  "'w token_if \<Rightarrow> Address \<Rightarrow> Address \<Rightarrow> int \<Rightarrow> (int, 'w) vm" where
  "distribute_rewards_for_asset tk admin asset amount =
     vthen require_initialized
    (vthen (validate_positive_amount amount)
    (vthen (fail_if (amount < MIN_REWARD_DISTRIBUTION) (from_ValidationError VE_InsufficientRewardAmount))
    (vthen (require_asset_supported asset)
    (vbind get_state (\<lambda>state.
     vthen (fail_if (admin \<noteq> vs_admin state) (from_AuthorizationError AU_Unauthorized))
    (vthen (require_auth admin)
     (with_non_reentrant
       (vbind (gets contract_address) (\<lambda>contract.
        vthen (token_transfer tk (vs_reward_token state) admin contract amount)
       (vbind (store_asset_reward_distribution asset amount) (\<lambda>next_reward_index.
        vthen (emit_asset_distribute admin asset amount)
        (ret next_reward_index))))))))))))"

definition claim_rewards_for_asset :: "'w token_if \<Rightarrow> Address \<Rightarrow> Address \<Rightarrow> (int, 'w) vm" where
  "claim_rewards_for_asset tk user asset =
     vthen require_not_paused
    (vthen require_initialized
    (vthen (require_auth user)
    (vthen (require_asset_supported asset)
     (with_non_reentrant
       (vbind (store_asset_claimable_rewards user asset) (\<lambda>amt.
        if amt \<le> 0 then ret 0
        else
          vbind get_reward_token (\<lambda>reward_token_id.
          vbind (gets contract_address) (\<lambda>contract.
          vbind (token_balance tk reward_token_id contract) (\<lambda>bal.
          vthen (ensure_contract_balance bal amt)
         (vthen (token_transfer tk reward_token_id contract user amt)
         (vthen (emit_asset_claim_rewards user asset amt)
          (ret amt))))))))))))"

section \<open>Views\<close>

definition balance_view :: "Address \<Rightarrow> (int, 'w) vm" where
  "balance_view user = get_user_balance user"

definition liquid_balance_view :: "Address \<Rightarrow> (int, 'w) vm" where
  "liquid_balance_view user = get_liquid_balance user"

definition locked_balance_view :: "Address \<Rightarrow> (int, 'w) vm" where
  "locked_balance_view user = get_locked_balance user"

definition total_deposits_view :: "(int, 'w) vm" where
  "total_deposits_view = get_total_deposits"

definition reward_index_view :: "(int, 'w) vm" where
  "reward_index_view = get_reward_index"

definition pending_rewards :: "Address \<Rightarrow> (int, 'w) vm" where
  "pending_rewards user = pending_user_rewards_view user"

definition vested_rewards :: "Address \<Rightarrow> (int, 'w) vm" where
  "vested_rewards user = vested_user_rewards_view user"

definition vesting_period_view :: "(int, 'w) vm" where
  "vesting_period_view = get_vesting_period"

definition admin_view :: "(Address, 'w) vm" where
  "admin_view = get_admin"

definition pending_admin_view :: "(Address option, 'w) vm" where
  "pending_admin_view = get_pending_admin"

definition deposit_token_view :: "(Address, 'w) vm" where
  "deposit_token_view = get_deposit_token"

definition reward_token_view :: "(Address, 'w) vm" where
  "reward_token_view = get_reward_token"

definition balance_of_asset :: "Address \<Rightarrow> Address \<Rightarrow> (int, 'w) vm" where
  "balance_of_asset user asset = get_user_asset_balance user asset"

definition total_deposits_of_asset :: "Address \<Rightarrow> (int, 'w) vm" where
  "total_deposits_of_asset asset = get_asset_total_deposits asset"

definition reward_index_of_asset :: "Address \<Rightarrow> (int, 'w) vm" where
  "reward_index_of_asset asset = get_asset_reward_index asset"

definition pending_rewards_for_asset :: "Address \<Rightarrow> Address \<Rightarrow> (int, 'w) vm" where
  "pending_rewards_for_asset user asset = pending_user_asset_rewards_view user asset"

definition vested_rewards_for_asset :: "Address \<Rightarrow> Address \<Rightarrow> (int, 'w) vm" where
  "vested_rewards_for_asset user asset = vested_user_asset_rewards_view user asset"

section \<open>Guards in closed form\<close>

lemma validate_positive_amount_run [store_simps]:
  "validate_positive_amount n e =
     (if n < 0 then Err NegativeAmount e else if n = 0 then Err InvalidAmount e else Ok () e)"
  by (simp add: validate_positive_amount_def vm_simps)

lemma validate_distinct_run [store_simps]:
  "validate_distinct_token_addresses d r e = (if d = r then Err InvalidTokenConfiguration e else Ok () e)"
  by (simp add: validate_distinct_token_addresses_def vm_simps)

lemma validate_utilization_run [store_simps]:
  "validate_utilization_multipliers ms e =
     (if ascending_from 0 ms then Ok () e else Err InvalidUtilizationParameters e)"
  by (simp add: validate_utilization_multipliers_def vm_simps)

lemma ensure_contract_balance_run [store_simps]:
  "ensure_contract_balance b n e = (if b < n then Err InsufficientContractBalance e else Ok () e)"
  by (simp add: ensure_contract_balance_def vm_simps)

lemma get_admin_Ok_iff:
  "get_admin e = Ok a e' \<longleftrightarrow> (\<exists>s. get_state e = Ok s e' \<and> a = vs_admin s)"
  by (auto simp: get_admin_def vm_Ok_iffs)

lemma get_reward_token_Ok_iff:
  "get_reward_token e = Ok a e' \<longleftrightarrow> (\<exists>s. get_state e = Ok s e' \<and> a = vs_reward_token s)"
  by (auto simp: get_reward_token_def vm_Ok_iffs)

lemma get_pending_admin_run [store_simps]:
  "get_pending_admin e =
     (if is_initialized e then Ok (k_PendingAdmin (inst e)) (log_ttl ttl_inst e) else Err NotInitialized e)"
  by (simp add: get_pending_admin_def vm_simps store_simps)

lemma ascending_from_iff:
  "ascending_from b ms \<longleftrightarrow>
     sorted (map utilization_bps ms) \<and> (\<forall>m \<in> set ms. b \<le> utilization_bps m)"
  by (induction ms arbitrary: b) (auto intro: order_trans)

end
