(* ===== verification/Vault_Invariant.thy ===== *)
theory Vault_Invariant
  imports Vault_Contract
begin

text \<open>
  The contract as a state machine: the calls that change state, the states they reach
  from a fresh deployment, and the invariant of all of them. Tokens are arbitrary
  contracts: during a transfer they may change everything outside the vault and call
  back into it any number of times.
\<close>

section \<open>Calls\<close>

datatype call =
  Initialize Address Address Address int int "MultiplierPoint list"
| ProposeNewAdmin Address
| AcceptAdmin Address
| Deposit Address int
| Withdraw Address int
| DistributeRewards int
| LockCall Address int int
| UnlockExpired Address int
| ClaimRewards Address
| PauseContract
| UnpauseContract
| Upgrade BytesN32
| AddAsset Address Address
| DepositAsset Address Address int
| WithdrawAsset Address Address int
| DistributeRewardsForAsset Address Address int
| ClaimRewardsForAsset Address Address

definition unit_result :: "(unit, 'w) vm \<Rightarrow> (int, 'w) vm" where
  "unit_result m = vthen m (ret 0)"

fun exec_call :: "'w token_if \<Rightarrow> call \<Rightarrow> (int, 'w) vm" where
  "exec_call tk (Initialize a d r v t m) = unit_result (initialize a d r v t m)"
| "exec_call tk (ProposeNewAdmin a) = unit_result (propose_new_admin a)"
| "exec_call tk (AcceptAdmin a) = unit_result (accept_admin a)"
| "exec_call tk (Deposit u n) = unit_result (deposit tk u n)"
| "exec_call tk (Withdraw u n) = unit_result (withdraw tk u n)"
| "exec_call tk (DistributeRewards n) = distribute_rewards tk n"
| "exec_call tk (LockCall u n d) = unit_result (lock u n d)"
| "exec_call tk (UnlockExpired u l) = unlock_expired u l"
| "exec_call tk (ClaimRewards u) = claim_rewards tk u"
| "exec_call tk PauseContract = unit_result pause_contract"
| "exec_call tk UnpauseContract = unit_result unpause_contract"
| "exec_call tk (Upgrade h) = unit_result (upgrade h)"
| "exec_call tk (AddAsset a x) = unit_result (add_asset a x)"
| "exec_call tk (DepositAsset u x n) = unit_result (deposit_asset tk u x n)"
| "exec_call tk (WithdrawAsset u x n) = unit_result (withdraw_asset tk u x n)"
| "exec_call tk (DistributeRewardsForAsset a x n) = distribute_rewards_for_asset tk a x n"
| "exec_call tk (ClaimRewardsForAsset u x) = claim_rewards_for_asset tk u x"

text \<open>The argument types of the entry points.\<close>

fun well_typed :: "call \<Rightarrow> bool" where
  "well_typed (Initialize a d r v t m) =
     (in_u64 v \<and> in_i128 t \<and> list_all (\<lambda>x. in_u32 (utilization_bps x) \<and> in_u32 (multiplier_bps x)) m)"
| "well_typed (Deposit u n) = in_i128 n"
| "well_typed (Withdraw u n) = in_i128 n"
| "well_typed (DistributeRewards n) = in_i128 n"
| "well_typed (LockCall u n d) = (in_i128 n \<and> in_u64 d)"
| "well_typed (UnlockExpired u l) = in_u32 l"
| "well_typed (DepositAsset u x n) = in_i128 n"
| "well_typed (WithdrawAsset u x n) = in_i128 n"
| "well_typed (DistributeRewardsForAsset a x n) = in_i128 n"
| "well_typed _ = True"

text \<open>The calls that run inside the reentrancy guard.\<close>

fun guarded :: "call \<Rightarrow> bool" where
  "guarded (Deposit u n) = True"
| "guarded (Withdraw u n) = True"
| "guarded (DistributeRewards n) = True"
| "guarded (LockCall u n d) = True"
| "guarded (UnlockExpired u l) = True"
| "guarded (ClaimRewards u) = True"
| "guarded (DepositAsset u x n) = True"
| "guarded (WithdrawAsset u x n) = True"
| "guarded (DistributeRewardsForAsset a x n) = True"
| "guarded (ClaimRewardsForAsset u x) = True"
| "guarded _ = False"

section \<open>The guard\<close>

definition guard_of :: "'w env \<Rightarrow> bool" where
  "guard_of e = unwrap_or False (k_ReentrancyGuard (inst e))"

definition set_guard :: "bool \<Rightarrow> 'w env \<Rightarrow> 'w env" where
  "set_guard b e = e\<lparr>inst := (inst e)\<lparr>k_ReentrancyGuard := Some b\<rparr>\<rparr>"

lemma set_guard_proj [simp]:
  "pers (set_guard b e) = pers e"
  "timestamp (set_guard b e) = timestamp e"
  "authorized (set_guard b e) = authorized e"
  "contract_address (set_guard b e) = contract_address e"
  "event_log (set_guard b e) = event_log e"
  "wasm (set_guard b e) = wasm e"
  "world (set_guard b e) = world e"
  "inst (set_guard b e) = (inst e)\<lparr>k_ReentrancyGuard := Some b\<rparr>"
  "guard_of (set_guard b e) = b"
  "is_initialized (set_guard b e) = is_initialized e"
  "native_pool (set_guard b e) = native_pool e"
  "asset_pool x (set_guard b e) = asset_pool x e"
  "native_ok (set_guard b e) = native_ok e"
  "asset_ok x (set_guard b e) = asset_ok x e"
  "is_asset_supported (set_guard b e) x = is_asset_supported e x"
  by (simp_all add: set_guard_def guard_of_def is_initialized_def native_pool_def asset_pool_def native_ok_def
      asset_ok_def is_asset_supported_def get_supported_assets_def)

lemma guard_of_log_ttl [simp]:
  "guard_of (log_ttl ks e) = guard_of e"
  "guard_of (emit ts d e) = guard_of e"
  "is_initialized (log_ttl ks e) = is_initialized e"
  "is_initialized (emit ts d e) = is_initialized e"
  by (simp_all add: guard_of_def is_initialized_def)

lemma with_non_reentrant_Ok_iff:
  "with_non_reentrant f e = Ok x e'' \<longleftrightarrow>
     \<not> guard_of e \<and>
     (\<exists>e'. f (log_ttl ttl_inst (set_guard True e)) = Ok x e' \<and> e'' = log_ttl ttl_inst (set_guard False e'))"
  by (auto simp: with_non_reentrant_def vm_Ok_iffs store_simps guard_of_def set_guard_def vm_simps vthen_def vbind_def
      split: outcome.splits if_splits)

lemma with_non_reentrant_blocked: "guard_of e \<Longrightarrow> with_non_reentrant f e \<noteq> Ok x e''"
  by (simp add: with_non_reentrant_Ok_iff)

lemmas guarded_defs =
  deposit_def withdraw_def distribute_rewards_def lock_def unlock_expired_def claim_rewards_def
  deposit_asset_def withdraw_asset_def distribute_rewards_for_asset_def claim_rewards_for_asset_def

lemma guarded_blocked: "guarded c \<Longrightarrow> guard_of e \<Longrightarrow> exec_call tk c e \<noteq> Ok r e'"
  by (cases c)
    (auto simp: unit_result_def guarded_defs vm_Ok_iffs store_simps get_state_Ok_iff
      with_non_reentrant_blocked split: if_splits)

section \<open>What a callback can change\<close>

text \<open>
  Everything a call that is not guarded leaves alone: the positions, the ledgers of the
  native vault and of every asset, the configuration and the guard.
\<close>

definition vault_frame :: "'w env \<Rightarrow> 'w env \<Rightarrow> bool" where
  "vault_frame e e' \<longleftrightarrow>
     pers e' = pers e \<and> contract_address e' = contract_address e \<and> timestamp e' = timestamp e \<and>
     k_Initialized (inst e') = k_Initialized (inst e) \<and>
     k_DepositToken (inst e') = k_DepositToken (inst e) \<and>
     k_RewardToken (inst e') = k_RewardToken (inst e) \<and>
     k_TotalDeposits (inst e') = k_TotalDeposits (inst e) \<and>
     k_RewardIndex (inst e') = k_RewardIndex (inst e) \<and>
     k_VestingPeriod (inst e') = k_VestingPeriod (inst e) \<and>
     k_TargetDeposits (inst e') = k_TargetDeposits (inst e) \<and>
     k_UtilizationMultipliers (inst e') = k_UtilizationMultipliers (inst e) \<and>
     k_ReentrancyGuard (inst e') = k_ReentrancyGuard (inst e) \<and>
     (\<forall>x. unwrap_or 0 (k_AssetTotalDeposits (inst e') x) = unwrap_or 0 (k_AssetTotalDeposits (inst e) x)) \<and>
     (\<forall>x. unwrap_or 0 (k_AssetRewardIndex (inst e') x) = unwrap_or 0 (k_AssetRewardIndex (inst e) x)) \<and>
     (\<forall>x. is_asset_supported e x \<longrightarrow> is_asset_supported e' x)"

lemma vault_frame_refl [simp]: "vault_frame e e"
  by (simp add: vault_frame_def)

lemma vault_frame_trans: "vault_frame e e' \<Longrightarrow> vault_frame e' e'' \<Longrightarrow> vault_frame e e''"
  by (simp add: vault_frame_def)

lemma vault_frame_pools:
  assumes "vault_frame e e'"
  shows "native_pool e' = native_pool e" "asset_pool x e' = asset_pool x e"
    "native_ok e' = native_ok e" "asset_ok x e' = asset_ok x e"
    "guard_of e' = guard_of e" "is_initialized e' = is_initialized e"
  using assms
  by (simp_all add: vault_frame_def native_pool_def asset_pool_def native_ok_def asset_ok_def guard_of_def
      is_initialized_def)

definition empty_pool :: "Address pool" where
  "empty_pool = \<lparr> p_bal = (\<lambda>_. 0), p_uidx = (\<lambda>_. 0), p_acc = (\<lambda>_. 0), p_total = 0, p_idx = 0 \<rparr>"

definition unsupported_empty :: "'w env \<Rightarrow> bool" where
  "unsupported_empty e \<longleftrightarrow> (\<forall>x. is_asset_supported e x \<or> asset_pool x e = empty_pool)"

lemma unsupported_emptyD:
  "unsupported_empty e \<Longrightarrow> \<not> is_asset_supported e x \<Longrightarrow>
     unwrap_or 0 (k_AssetTotalDeposits (inst e) x) = 0 \<and> unwrap_or 0 (k_AssetRewardIndex (inst e) x) = 0"
  by (auto simp: unsupported_empty_def asset_pool_def empty_pool_def)

lemma unsupported_empty_frame: "vault_frame e e' \<Longrightarrow> unsupported_empty e \<Longrightarrow> unsupported_empty e'"
  using vault_frame_pools(2) [of e e'] by (auto simp: unsupported_empty_def vault_frame_def)

lemma unsupported_empty_cong [simp]:
  "unsupported_empty (log_ttl ks e) = unsupported_empty e"
  "unsupported_empty (emit ts d e) = unsupported_empty e"
  "unsupported_empty (set_guard b e) = unsupported_empty e"
  by (simp_all add: unsupported_empty_def)

lemma add_supported_asset_run [store_simps]:
  "add_supported_asset x e =
     (if is_asset_supported e x then Ok () e
      else Ok () (log_ttl ttl_inst (e\<lparr>inst := (inst e)\<lparr>
             k_SupportedAssets := Some ((get_supported_assets e)(x \<mapsto> True)),
             k_AssetTotalDeposits := (k_AssetTotalDeposits (inst e))(x \<mapsto> 0),
             k_AssetRewardIndex := (k_AssetRewardIndex (inst e))(x \<mapsto> 0)\<rparr>\<rparr>)))"
  by (simp add: add_supported_asset_def vm_simps is_asset_supported_def)

lemma add_supported_asset_frame:
  assumes "add_supported_asset x e = Ok r e'" "unsupported_empty e"
  shows "vault_frame e e'"
proof (cases "is_asset_supported e x")
  case True
  with assms(1) show ?thesis by (simp add: add_supported_asset_run)
next
  case False
  let ?i = "(inst e)\<lparr>k_SupportedAssets := Some ((get_supported_assets e)(x \<mapsto> True)),
             k_AssetTotalDeposits := (k_AssetTotalDeposits (inst e))(x \<mapsto> 0),
             k_AssetRewardIndex := (k_AssetRewardIndex (inst e))(x \<mapsto> 0)\<rparr>"
  from False assms(1) have e': "e' = log_ttl ttl_inst (e\<lparr>inst := ?i\<rparr>)"
    by (simp add: add_supported_asset_run)
  have "is_asset_supported e' y" if "is_asset_supported e y" for y
    using that e' by (auto simp: is_asset_supported_def get_supported_assets_def)
  then show ?thesis
    using unsupported_emptyD [OF assms(2) False] e' by (simp add: vault_frame_def)
qed

lemma vault_frame_simps [simp]:
  "vault_frame e (log_ttl ks e') = vault_frame e e'"
  "vault_frame e (emit ts d e') = vault_frame e e'"
  "vault_frame (log_ttl ks e) e' = vault_frame e e'"
  "vault_frame e (e'\<lparr>inst := (inst e')\<lparr>k_Admin := a\<rparr>\<rparr>) = vault_frame e e'"
  "vault_frame e (e'\<lparr>inst := (inst e')\<lparr>k_PendingAdmin := a\<rparr>\<rparr>) = vault_frame e e'"
  "vault_frame e (e'\<lparr>inst := (inst e')\<lparr>k_IsPaused := b\<rparr>\<rparr>) = vault_frame e e'"
  "vault_frame e (e'\<lparr>inst := (inst e')\<lparr>k_Admin := a, k_PendingAdmin := a'\<rparr>\<rparr>) = vault_frame e e'"
  "vault_frame e (e'\<lparr>wasm := h\<rparr>) = vault_frame e e'"
  "vault_frame e (e'\<lparr>world := w\<rparr>) = vault_frame e e'"
  "vault_frame e (e'\<lparr>authorized := au\<rparr>) = vault_frame e e'"
  "vault_frame (e\<lparr>authorized := au\<rparr>) e' = vault_frame e e'"
  by (simp_all add: vault_frame_def is_asset_supported_def get_supported_assets_def)

lemma unguarded_frame:
  assumes run: "exec_call tk c e = Ok r e'" and c: "\<not> guarded c"
    and e: "is_initialized e" "unsupported_empty e"
  shows "vault_frame e e'"
proof (cases c)
  case (AddAsset a x)
  with run obtain e1 e2 where "get_admin e = Ok a e1" and add: "add_supported_asset x e1 = Ok () e2"
    and e': "e' = emit [EVT_ASSET_ADDED] (AssetAddedEvent x) e2"
    by (auto simp: unit_result_def add_asset_def vm_Ok_iffs store_simps vm_simps split: if_splits)
  then have e1: "e1 = log_ttl ttl_inst e" by (auto simp: get_admin_Ok_iff get_state_Ok_iff)
  with add_supported_asset_frame [OF add] e e' show ?thesis by simp
next
  case (Initialize a d r v t m)
  with run e show ?thesis
    by (auto simp: unit_result_def initialize_def vm_Ok_iffs store_simps split: if_splits)
next
  case (ProposeNewAdmin a)
  with run show ?thesis
    by (auto simp: unit_result_def propose_new_admin_def vm_Ok_iffs store_simps vm_simps get_admin_Ok_iff get_state_Ok_iff
        split: if_splits)
next
  case (AcceptAdmin a)
  with run show ?thesis
    by (auto simp: unit_result_def accept_admin_def vm_Ok_iffs store_simps vm_simps get_admin_Ok_iff get_state_Ok_iff
        split: if_splits)
next
  case PauseContract
  with run show ?thesis
    by (auto simp: unit_result_def pause_contract_def vm_Ok_iffs store_simps vm_simps get_admin_Ok_iff get_state_Ok_iff
        split: if_splits)
next
  case UnpauseContract
  with run show ?thesis
    by (auto simp: unit_result_def unpause_contract_def vm_Ok_iffs store_simps vm_simps get_admin_Ok_iff get_state_Ok_iff
        split: if_splits)
next
  case (Upgrade h)
  with run show ?thesis
    by (auto simp: unit_result_def upgrade_def update_current_contract_wasm_def vm_Ok_iffs store_simps vm_simps get_admin_Ok_iff get_state_Ok_iff
        split: if_splits)
qed (use c in simp_all)

section \<open>Tokens that may call back\<close>

text \<open>
  The environments another contract can leave when it is called: it may change its own
  and others' state, and call entry points of the vault under any authorisation it holds.
\<close>

inductive callback :: "'w token_if \<Rightarrow> 'w env \<Rightarrow> 'w env \<Rightarrow> bool" for tk where
  cb_refl: "callback tk e e"
| cb_world: "callback tk e e' \<Longrightarrow> callback tk e (e'\<lparr>world := w\<rparr>)"
| cb_call: "callback tk e e' \<Longrightarrow> well_typed c \<Longrightarrow> exec_call tk c (e'\<lparr>authorized := au\<rparr>) = Ok r e'' \<Longrightarrow>
    callback tk e (e''\<lparr>authorized := authorized e'\<rparr>)"

definition host_token :: "'w token_if \<Rightarrow> bool" where
  "host_token tk \<longleftrightarrow>
     (\<forall>t a b n e e'. tk_transfer tk t a b n e = Some e' \<longrightarrow> callback tk e e') \<and>
     (\<forall>t a e n e'. tk_balance tk t a e = Some (n, e') \<longrightarrow> callback tk e e')"

lemma authorized_upd_inv [simp]:
  "is_initialized (e\<lparr>authorized := au\<rparr>) = is_initialized e"
  "guard_of (e\<lparr>authorized := au\<rparr>) = guard_of e"
  "unsupported_empty (e\<lparr>authorized := au\<rparr>) = unsupported_empty e"
  by (simp_all add: is_initialized_def guard_of_def unsupported_empty_def asset_pool_def is_asset_supported_def
      get_supported_assets_def)

lemma callback_frame:
  "callback tk e e' \<Longrightarrow> guard_of e \<Longrightarrow> is_initialized e \<Longrightarrow> unsupported_empty e \<Longrightarrow> vault_frame e e'"
proof (induction rule: callback.induct)
  case (cb_call e e' c au r e'')
  then have fr: "vault_frame e e'" by blast
  then have e': "guard_of e'" "is_initialized e'" "unsupported_empty e'"
    using cb_call.prems vault_frame_pools(5,6) [OF fr] unsupported_empty_frame [OF fr] by simp_all
  then have "\<not> guarded c" using guarded_blocked cb_call.hyps by (metis authorized_upd_inv(2))
  then have "vault_frame (e'\<lparr>authorized := au\<rparr>) e''"
    using unguarded_frame [OF cb_call.hyps(3)] e' by simp
  with fr show ?case by (simp add: vault_frame_trans)
qed simp_all

lemma transfer_frame:
  assumes "host_token tk" "tk_transfer tk t a b n e = Some e'"
    and "guard_of e" "is_initialized e" "unsupported_empty e"
  shows "vault_frame e e'"
  using assms callback_frame unfolding host_token_def by blast

lemma balance_frame:
  assumes "host_token tk" "tk_balance tk t a e = Some (n, e')"
    and "guard_of e" "is_initialized e" "unsupported_empty e"
  shows "vault_frame e e'"
  using assms callback_frame unfolding host_token_def by blast

section \<open>What each ledger's operations leave alone\<close>

definition native_frame :: "'w env \<Rightarrow> 'w env \<Rightarrow> bool" where
  "native_frame e e' \<longleftrightarrow>
     (\<exists>t i. inst e' = (inst e)\<lparr>k_TotalDeposits := t, k_RewardIndex := i\<rparr>) \<and>
     k_UserBalance (pers e') = k_UserBalance (pers e) \<and>
     k_UserAssetBalance (pers e') = k_UserAssetBalance (pers e) \<and>
     k_UserAssetRewardIndex (pers e') = k_UserAssetRewardIndex (pers e) \<and>
     k_UserAssetAccruedRewards (pers e') = k_UserAssetAccruedRewards (pers e) \<and>
     k_UserAssetLastRewardTimestamp (pers e') = k_UserAssetLastRewardTimestamp (pers e) \<and>
     world e' = world e \<and> timestamp e' = timestamp e \<and> contract_address e' = contract_address e \<and>
     authorized e' = authorized e \<and> event_log e' = event_log e \<and> wasm e' = wasm e"

definition asset_frame :: "Address \<Rightarrow> 'w env \<Rightarrow> 'w env \<Rightarrow> bool" where
  "asset_frame x e e' \<longleftrightarrow>
     (\<exists>t i. inst e' = (inst e)\<lparr>
       k_AssetTotalDeposits := (k_AssetTotalDeposits (inst e))(x := t),
       k_AssetRewardIndex := (k_AssetRewardIndex (inst e))(x := i)\<rparr>) \<and>
     k_UserBalance (pers e') = k_UserBalance (pers e) \<and>
     k_UserLiquidBalance (pers e') = k_UserLiquidBalance (pers e) \<and>
     k_UserLocks (pers e') = k_UserLocks (pers e) \<and>
     k_UserRewardIndex (pers e') = k_UserRewardIndex (pers e) \<and>
     k_UserAccruedRewards (pers e') = k_UserAccruedRewards (pers e) \<and>
     k_UserLastRewardTimestamp (pers e') = k_UserLastRewardTimestamp (pers e) \<and>
     (\<forall>u y. y = x \<or> asset_position (pers e') u y = asset_position (pers e) u y) \<and>
     world e' = world e \<and> timestamp e' = timestamp e \<and> contract_address e' = contract_address e \<and>
     authorized e' = authorized e \<and> event_log e' = event_log e \<and> wasm e' = wasm e"

lemma native_frameD:
  assumes "native_frame e e'"
  shows "asset_pool x e' = asset_pool x e" "asset_ok x e' = asset_ok x e"
    "is_asset_supported e' x = is_asset_supported e x" "unsupported_empty e' = unsupported_empty e"
    "guard_of e' = guard_of e" "is_initialized e' = is_initialized e"
    "k_DepositToken (inst e') = k_DepositToken (inst e)" "k_RewardToken (inst e') = k_RewardToken (inst e)"
    "k_Admin (inst e') = k_Admin (inst e)" "world e' = world e" "contract_address e' = contract_address e"
    "timestamp e' = timestamp e" "authorized e' = authorized e"
proof -
  obtain t i where i: "inst e' = (inst e)\<lparr>k_TotalDeposits := t, k_RewardIndex := i\<rparr>"
    using assms unfolding native_frame_def by blast
  show p: "asset_pool x e' = asset_pool x e" for x
    using assms i by (simp add: asset_pool_def native_frame_def)
  show "asset_ok x e' = asset_ok x e" using p i by (simp add: asset_ok_def)
  show s: "is_asset_supported e' x = is_asset_supported e x" for x
    using i by (simp add: is_asset_supported_def get_supported_assets_def)
  show "unsupported_empty e' = unsupported_empty e" by (simp add: unsupported_empty_def p s)
qed (use assms in \<open>auto simp: native_frame_def guard_of_def is_initialized_def\<close>)

lemma asset_frameD:
  assumes "asset_frame x e e'"
  shows "native_pool e' = native_pool e" "native_ok e' = native_ok e"
    "y \<noteq> x \<Longrightarrow> asset_pool y e' = asset_pool y e" "y \<noteq> x \<Longrightarrow> asset_ok y e' = asset_ok y e"
    "is_asset_supported e' y = is_asset_supported e y"
    "guard_of e' = guard_of e" "is_initialized e' = is_initialized e"
    "k_DepositToken (inst e') = k_DepositToken (inst e)" "k_RewardToken (inst e') = k_RewardToken (inst e)"
    "k_Admin (inst e') = k_Admin (inst e)" "world e' = world e" "contract_address e' = contract_address e"
    "timestamp e' = timestamp e" "authorized e' = authorized e"
proof -
  obtain a b where i: "inst e' = (inst e)\<lparr>
       k_AssetTotalDeposits := (k_AssetTotalDeposits (inst e))(x := a),
       k_AssetRewardIndex := (k_AssetRewardIndex (inst e))(x := b)\<rparr>"
    using assms unfolding asset_frame_def by blast
  show "native_pool e' = native_pool e"
    using assms i by (simp add: native_pool_def asset_frame_def)
  then show "native_ok e' = native_ok e"
    using assms i by (simp add: native_ok_def asset_frame_def)
  show p: "asset_pool y e' = asset_pool y e" if "y \<noteq> x" for y
  proof -
    have "asset_position (pers e') u y = asset_position (pers e) u y" for u
      using assms that unfolding asset_frame_def by blast
    then show ?thesis using that i by (simp add: asset_pool_def asset_position_def)
  qed
  show "asset_ok y e' = asset_ok y e" if "y \<noteq> x"
    using p [OF that] i by (simp add: asset_ok_def)
qed (use assms in \<open>auto simp: asset_frame_def guard_of_def is_initialized_def is_asset_supported_def get_supported_assets_def\<close>)

end
