(* ===== verification/Vault_Reachability.thy ===== *)
theory Vault_Reachability
  imports Vault_Invariant
begin

text \<open>
  The invariant of the deployed contract and its preservation by every entry point, for
  tokens that may call back, lifted to all reachable states.
\<close>

section \<open>Frames of the storage operations\<close>

lemma native_inst_ex:
  fixes i :: inst_storage
  shows "\<exists>t r. i\<lparr>k_TotalDeposits := a\<rparr> = i\<lparr>k_TotalDeposits := t, k_RewardIndex := r\<rparr>"
    "\<exists>t r. i\<lparr>k_RewardIndex := b\<rparr> = i\<lparr>k_TotalDeposits := t, k_RewardIndex := r\<rparr>"
    "\<exists>t r. i = i\<lparr>k_TotalDeposits := t, k_RewardIndex := r\<rparr>"
proof -
  show "\<exists>t r. i\<lparr>k_TotalDeposits := a\<rparr> = i\<lparr>k_TotalDeposits := t, k_RewardIndex := r\<rparr>"
    by (rule exI [of _ a], rule exI [of _ "k_RewardIndex i"]) simp
  show "\<exists>t r. i\<lparr>k_RewardIndex := b\<rparr> = i\<lparr>k_TotalDeposits := t, k_RewardIndex := r\<rparr>"
    by (rule exI [of _ "k_TotalDeposits i"], rule exI [of _ b]) simp
  show "\<exists>t r. i = i\<lparr>k_TotalDeposits := t, k_RewardIndex := r\<rparr>"
    by (rule exI [of _ "k_TotalDeposits i"], rule exI [of _ "k_RewardIndex i"]) simp
qed

lemma with_stores_native_frame:
  assumes "e' = log_ttl ks (with_stores j p e)"
    and "\<exists>t i. j = (inst e)\<lparr>k_TotalDeposits := t, k_RewardIndex := i\<rparr>"
    and "k_UserBalance p = k_UserBalance (pers e)" "k_UserAssetBalance p = k_UserAssetBalance (pers e)"
    "k_UserAssetRewardIndex p = k_UserAssetRewardIndex (pers e)"
    "k_UserAssetAccruedRewards p = k_UserAssetAccruedRewards (pers e)"
    "k_UserAssetLastRewardTimestamp p = k_UserAssetLastRewardTimestamp (pers e)"
  shows "native_frame e e'"
  using assms by (simp add: native_frame_def)

lemma unlocked_store_pers:
  "unlocked_store e u p \<Longrightarrow>
     k_UserBalance p = k_UserBalance (pers e) \<and> k_UserAssetBalance p = k_UserAssetBalance (pers e) \<and>
     k_UserAssetRewardIndex p = k_UserAssetRewardIndex (pers e) \<and>
     k_UserAssetAccruedRewards p = k_UserAssetAccruedRewards (pers e) \<and>
     k_UserAssetLastRewardTimestamp p = k_UserAssetLastRewardTimestamp (pers e)"
  by (auto simp: unlocked_store_def put_defs)

lemma unlock_frame:
  assumes "native_ok e" "0 \<le> limit" "unlock_expired_locks u limit e = Ok n e'"
  shows "native_frame e e'"
proof -
  obtain ks p where e': "e' = log_ttl ks (with_stores (inst e) p e)" and "unlocked_store e u p"
    using unlock_expired_locks_Ok [OF assms] by metis
  then show ?thesis
    using unlocked_store_pers by (intro with_stores_native_frame [OF e'] native_inst_ex) (auto simp: put_defs)
qed

lemma store_deposit_frame:
  assumes "native_ok e" "store_deposit u a e = Ok r e'" shows "native_frame e e'"
proof -
  obtain s q where r: "r = (s, q)" by (cases r)
  obtain ks t p where e': "e' = log_ttl ks (with_stores ((inst e)\<lparr>k_TotalDeposits := t\<rparr>)
      (put_position u q (put_liquid u p (pers e))) e)"
    using store_deposit_Ok [OF assms(1) assms(2) [unfolded r]] by metis
  then show ?thesis
    by (intro with_stores_native_frame [OF e'] native_inst_ex) (auto simp: put_defs)
qed

lemma store_withdraw_frame:
  assumes "native_ok e" "store_withdraw u a e = Ok r e'" shows "native_frame e e'"
proof -
  obtain s q where r: "r = (s, q)" by (cases r)
  obtain ks t p l where e': "e' = log_ttl ks (with_stores ((inst e)\<lparr>k_TotalDeposits := t\<rparr>)
      (put_position u q (put_liquid u l p)) e)" and "unlocked_store e u p"
    using store_withdraw_Ok [OF assms(1) assms(2) [unfolded r]] by metis
  then show ?thesis
    using unlocked_store_pers by (intro with_stores_native_frame [OF e'] native_inst_ex) (auto simp: put_defs)
qed

lemma store_lock_frame:
  assumes "native_ok e" "store_lock u a d e = Ok r e'" shows "native_frame e e'"
proof -
  obtain ks q l ls where e': "e' = log_ttl ks (with_stores (inst e)
      (put_locks u ls (put_liquid u l (put_position u q (pers e)))) e)"
    using store_lock_Ok [OF assms] by metis
  then show ?thesis
    by (intro with_stores_native_frame [OF e'] native_inst_ex) (auto simp: put_defs)
qed

lemma store_distribution_frame:
  assumes "store_reward_distribution a e = Ok r e'" "0 \<le> a" "in_i128 a" shows "native_frame e e'"
proof -
  obtain ks i where e': "e' = log_ttl ks (with_stores ((inst e)\<lparr>k_RewardIndex := i\<rparr>) (pers e) e)"
    using store_reward_distribution_Ok [OF assms] by metis
  then show ?thesis
    by (intro with_stores_native_frame [OF e'] native_inst_ex) (auto simp: put_defs)
qed

lemma store_claimable_frame:
  assumes "native_ok e" "store_claimable_rewards u e = Ok v e'" shows "native_frame e e'"
proof -
  obtain ks q where e': "e' = log_ttl ks (with_stores (inst e) (put_position u q (pers e)) e)"
    using store_claimable_Ok [OF assms] by metis
  then show ?thesis
    by (intro with_stores_native_frame [OF e'] native_inst_ex) (auto simp: put_defs)
qed

lemma native_exec_frame: "native_exec e op e' \<Longrightarrow> native_ok e \<Longrightarrow> native_frame e e'"
  by (induction rule: native_exec.induct)
    (blast intro: store_deposit_frame store_withdraw_frame store_lock_frame store_distribution_frame
      store_claimable_frame)+

lemma asset_inst_ex:
  fixes i :: inst_storage
  shows "\<exists>t r. i\<lparr>k_AssetTotalDeposits := (k_AssetTotalDeposits i)(x := a)\<rparr> =
      i\<lparr>k_AssetTotalDeposits := (k_AssetTotalDeposits i)(x := t), k_AssetRewardIndex := (k_AssetRewardIndex i)(x := r)\<rparr>"
    "\<exists>t r. i\<lparr>k_AssetRewardIndex := (k_AssetRewardIndex i)(x := b)\<rparr> =
      i\<lparr>k_AssetTotalDeposits := (k_AssetTotalDeposits i)(x := t), k_AssetRewardIndex := (k_AssetRewardIndex i)(x := r)\<rparr>"
    "\<exists>t r. i =
      i\<lparr>k_AssetTotalDeposits := (k_AssetTotalDeposits i)(x := t), k_AssetRewardIndex := (k_AssetRewardIndex i)(x := r)\<rparr>"
  by (rule exI [of _ a], rule exI [of _ "k_AssetRewardIndex i x"], simp,
      rule exI [of _ "k_AssetTotalDeposits i x"], rule exI [of _ b], simp,
      rule exI [of _ "k_AssetTotalDeposits i x"], rule exI [of _ "k_AssetRewardIndex i x"], simp)

lemma put_asset_position_frame:
  assumes e': "e' = log_ttl ks (with_stores j p e)"
    and j: "\<exists>t i. j = (inst e)\<lparr>
       k_AssetTotalDeposits := (k_AssetTotalDeposits (inst e))(x := t),
       k_AssetRewardIndex := (k_AssetRewardIndex (inst e))(x := i)\<rparr>"
    and p: "p = pers e \<or> (\<exists>u q. p = put_asset_position u x q (pers e))"
  shows "asset_frame x e e'"
proof -
  have "inst e' = j" using e' by simp
  moreover have "\<forall>u y. y = x \<or> asset_position p u y = asset_position (pers e) u y"
    using p by (auto simp: put_asset_position_def asset_position_def)
  ultimately show ?thesis
    using e' j p by (auto simp: asset_frame_def put_asset_position_def)
qed

lemma asset_exec_frame:
  assumes "asset_exec x e op e'" "asset_ok x e"
  shows "asset_frame x e e' \<and> is_asset_supported e x"
  using assms
proof (induction rule: asset_exec.induct)
  case (asset_deposit a u e r e')
  obtain ks t where e': "e' = log_ttl ks (with_stores
      ((inst e)\<lparr>k_AssetTotalDeposits := (k_AssetTotalDeposits (inst e))(x := t)\<rparr>) (put_asset_position u x r (pers e)) e)"
    and "is_asset_supported e x"
    using store_asset_deposit_Ok [OF asset_deposit(3,2)] by metis
  then show ?case using put_asset_position_frame [OF e' asset_inst_ex(1)] by blast
next
  case (asset_withdraw a u e r e')
  obtain ks t where e': "e' = log_ttl ks (with_stores
      ((inst e)\<lparr>k_AssetTotalDeposits := (k_AssetTotalDeposits (inst e))(x := t)\<rparr>) (put_asset_position u x r (pers e)) e)"
    and "is_asset_supported e x"
    using store_asset_withdraw_Ok [OF asset_withdraw(3,2)] by metis
  then show ?case using put_asset_position_frame [OF e' asset_inst_ex(1)] by blast
next
  case (asset_distribute a e n e')
  obtain ks i where e': "e' = log_ttl ks (with_stores
      ((inst e)\<lparr>k_AssetRewardIndex := (k_AssetRewardIndex (inst e))(x := i)\<rparr>) (pers e) e)"
    and "is_asset_supported e x"
    using store_asset_distribution_Ok [OF asset_distribute(1)] by metis
  then show ?case using put_asset_position_frame [OF e' asset_inst_ex(2)] by blast
next
  case (asset_claim u e v e')
  obtain ks q where e': "e' = log_ttl ks (with_stores (inst e) (put_asset_position u x q (pers e)) e)"
    and "is_asset_supported e x"
    using store_asset_claimable_Ok [OF asset_claim(2,1)] by metis
  then show ?case using put_asset_position_frame [OF e' asset_inst_ex(3)] by blast
qed

section \<open>Entry points taken apart\<close>

lemmas entry_simps = vm_Ok_iffs store_simps vm_simps with_non_reentrant_Ok_iff get_state_Ok_iff
  get_reward_token_Ok_iff

lemma deposit_Ok:
  assumes "deposit tk u n e = Ok x e'"
  obtains ks e1 e2 r t where "\<not> unwrap_or False (k_IsPaused (inst e))" "is_initialized e" "0 < n"
    "authorized e u" "\<not> guard_of e" "k_DepositToken (inst e) = Some t"
    "tk_transfer tk t u (contract_address e) n (log_ttl ks (set_guard True e)) = Some e1"
    "store_deposit u n e1 = Ok r e2"
    "e' = log_ttl ttl_inst (set_guard False (emit [PROTOCOL, ACT_DEPOSIT] (DepositEvent u n) e2))"
  using assms by (auto simp: deposit_def entry_simps split: if_splits)

lemma withdraw_Ok:
  assumes "withdraw tk u n e = Ok x e'"
  obtains ks s q e1 e2 t where "\<not> unwrap_or False (k_IsPaused (inst e))" "is_initialized e" "0 < n"
    "authorized e u" "\<not> guard_of e" "k_DepositToken (inst e) = Some t"
    "store_withdraw u n (log_ttl ks (set_guard True e)) = Ok (s, q) e1"
    "tk_transfer tk t (contract_address e1) u n
       (emit [PROTOCOL, ACT_WITHDRAW] (WithdrawEvent u n (up_balance q)) e1) = Some e2"
    "e' = log_ttl ttl_inst (set_guard False e2)"
  using assms by (auto simp: withdraw_def entry_simps split: if_splits)

lemma distribute_rewards_Ok:
  assumes "distribute_rewards tk n e = Ok x e'"
  obtains ks a t e1 e2 s where "is_initialized e" "MIN_REWARD_DISTRIBUTION \<le> n" "0 < n"
    "k_Admin (inst e) = Some a" "authorized e a" "\<not> guard_of e" "k_RewardToken (inst e) = Some t"
    "tk_transfer tk t a (contract_address e) n (log_ttl ks (set_guard True e)) = Some e1"
    "store_reward_distribution n e1 = Ok s e2" "x = vs_reward_index s"
    "e' = log_ttl ttl_inst (set_guard False (emit [PROTOCOL, ACT_DISTRIBUTE] (DistributeEvent a n) e2))"
proof -
  have g: "set_guard True (log_ttl ks e) = log_ttl ks (set_guard True e)" for ks
    by (simp add: set_guard_def)
  show ?thesis
    using assms that by (auto simp: distribute_rewards_def entry_simps g not_less split: if_splits)
qed

lemma lock_Ok:
  assumes "lock u n d e = Ok x e'"
  obtains ks e1 where "\<not> unwrap_or False (k_IsPaused (inst e))" "is_initialized e" "0 < n" "d \<noteq> 0"
    "authorized e u" "\<not> guard_of e" "in_u64 (timestamp e + d)"
    "store_lock u n d (log_ttl ks (set_guard True e)) = Ok () e1"
    "e' = log_ttl ttl_inst (set_guard False (emit [PROTOCOL, ACT_LOCK] (LockEvent u n (timestamp e + d)) e1))"
  using assms by (auto simp: lock_def entry_simps int_simps split: if_splits)

lemma unlock_expired_Ok:
  assumes "unlock_expired u l e = Ok n e'"
  obtains ks e1 e2 where "\<not> unwrap_or False (k_IsPaused (inst e))" "is_initialized e" "l \<le> MAX_UNLOCK_LIMIT"
    "authorized e u" "\<not> guard_of e"
    "unlock_expired_locks u l (log_ttl ks (set_guard True e)) = Ok n e1"
    "e2 = (if 0 < n then emit [PROTOCOL, ACT_UNLOCK] (UnlockEvent u n) e1 else e1)"
    "e' = log_ttl ttl_inst (set_guard False e2)"
  using assms by (auto simp: unlock_expired_def entry_simps vwhen_def split: if_splits)

text \<open>The payment at the end of both claim entry points.\<close>

definition paid_reward ::
  "'w token_if \<Rightarrow> Address \<Rightarrow> string list \<Rightarrow> (int \<Rightarrow> event_data) \<Rightarrow> int \<Rightarrow> int \<Rightarrow> 'w env \<Rightarrow> 'w env \<Rightarrow> bool" where
  "paid_reward tk u ts d v x e1 e2 \<longleftrightarrow>
     v \<le> 0 \<and> x = 0 \<and> e2 = e1 \<or>
     (\<exists>t b ks' e3 e4. 0 < v \<and> x = v \<and> k_RewardToken (inst e1) = Some t \<and>
        tk_balance tk t (contract_address e1) (log_ttl ks' e1) = Some (b, e3) \<and> v \<le> b \<and>
        tk_transfer tk t (contract_address e1) u v e3 = Some e4 \<and> e2 = emit ts d e4)"

lemma payment_Ok:
  assumes "(if v \<le> 0 then ret 0 else
          vbind get_reward_token (\<lambda>reward_token_id.
          vbind (gets contract_address) (\<lambda>contract.
          vbind (token_balance tk reward_token_id contract) (\<lambda>bal.
          vthen (ensure_contract_balance bal v)
         (vthen (token_transfer tk reward_token_id contract u v)
         (vthen em (ret v))))))) e1 = Ok x e2"
    and em: "\<And>e. em e = Ok () (emit ts d e)"
  shows "paid_reward tk u ts d v x e1 e2"
  using assms by (fastforce simp: paid_reward_def entry_simps em not_less split: if_splits)

lemma claim_rewards_Ok:
  assumes "claim_rewards tk u e = Ok x e'"
  obtains ks v e1 e2 where "\<not> unwrap_or False (k_IsPaused (inst e))" "is_initialized e"
    "authorized e u" "\<not> guard_of e"
    "store_claimable_rewards u (log_ttl ks (set_guard True e)) = Ok v e1"
    "paid_reward tk u [PROTOCOL, ACT_CLAIM] (ClaimEvent u v) v x e1 e2"
    "e' = log_ttl ttl_inst (set_guard False e2)"
proof -
  from assms obtain ks v e1 e2 where pre: "\<not> unwrap_or False (k_IsPaused (inst e))" "is_initialized e"
      "authorized e u" "\<not> guard_of e"
      "store_claimable_rewards u (log_ttl ks (set_guard True e)) = Ok v e1"
      "e' = log_ttl ttl_inst (set_guard False e2)"
    and "(if v \<le> 0 then ret 0 else
          vbind get_reward_token (\<lambda>reward_token_id.
          vbind (gets contract_address) (\<lambda>contract.
          vbind (token_balance tk reward_token_id contract) (\<lambda>bal.
          vthen (ensure_contract_balance bal v)
         (vthen (token_transfer tk reward_token_id contract u v)
         (vthen (emit_claim_rewards u v) (ret v))))))) e1 = Ok x e2"
    by (auto simp: claim_rewards_def entry_simps split: if_splits)
  from payment_Ok [OF this(7) emit_run(7)] pre that show ?thesis by blast
qed

lemma deposit_asset_Ok:
  assumes "deposit_asset tk u y n e = Ok x e'"
  obtains ks e1 e2 r where "\<not> unwrap_or False (k_IsPaused (inst e))" "is_initialized e" "0 < n"
    "authorized e u" "\<not> guard_of e" "is_asset_supported e y"
    "tk_transfer tk y u (contract_address e) n (log_ttl ks (set_guard True e)) = Some e1"
    "store_asset_deposit u y n e1 = Ok r e2"
    "e' = log_ttl ttl_inst (set_guard False (emit [PROTOCOL, ACT_ASSET_DEPOSIT] (AssetDepositEvent u y n) e2))"
  using assms by (auto simp: deposit_asset_def entry_simps split: if_splits)

lemma withdraw_asset_Ok:
  assumes "withdraw_asset tk u y n e = Ok x e'"
  obtains ks q e1 e2 where "\<not> unwrap_or False (k_IsPaused (inst e))" "is_initialized e" "0 < n"
    "authorized e u" "\<not> guard_of e" "is_asset_supported e y"
    "store_asset_withdraw u y n (log_ttl ks (set_guard True e)) = Ok q e1"
    "tk_transfer tk y (contract_address e1) u n
       (emit [PROTOCOL, ACT_ASSET_WITHDRAW] (AssetWithdrawEvent u y n (up_balance q)) e1) = Some e2"
    "e' = log_ttl ttl_inst (set_guard False e2)"
  using assms by (auto simp: withdraw_asset_def entry_simps split: if_splits)

lemma distribute_for_asset_Ok:
  assumes "distribute_rewards_for_asset tk a y n e = Ok x e'"
  obtains ks t e1 e2 where "is_initialized e" "MIN_REWARD_DISTRIBUTION \<le> n" "0 < n"
    "k_Admin (inst e) = Some a" "authorized e a" "\<not> guard_of e" "k_RewardToken (inst e) = Some t"
    "is_asset_supported e y"
    "tk_transfer tk t a (contract_address e) n (log_ttl ks (set_guard True e)) = Some e1"
    "store_asset_reward_distribution y n e1 = Ok x e2"
    "e' = log_ttl ttl_inst (set_guard False (emit [PROTOCOL, ACT_ASSET_DISTRIBUTE] (AssetDistributeEvent a y n) e2))"
proof -
  have g: "set_guard True (log_ttl ks e) = log_ttl ks (set_guard True e)" for ks
    by (simp add: set_guard_def)
  show ?thesis
    using assms that by (auto simp: distribute_rewards_for_asset_def entry_simps g not_less split: if_splits)
qed

lemma claim_for_asset_Ok:
  assumes "claim_rewards_for_asset tk u y e = Ok x e'"
  obtains ks v e1 e2 where "\<not> unwrap_or False (k_IsPaused (inst e))" "is_initialized e"
    "authorized e u" "\<not> guard_of e" "is_asset_supported e y"
    "store_asset_claimable_rewards u y (log_ttl ks (set_guard True e)) = Ok v e1"
    "paid_reward tk u [PROTOCOL, ACT_ASSET_CLAIM] (AssetClaimEvent u y v) v x e1 e2"
    "e' = log_ttl ttl_inst (set_guard False e2)"
proof -
  from assms obtain ks v e1 e2 where pre: "\<not> unwrap_or False (k_IsPaused (inst e))" "is_initialized e"
      "authorized e u" "\<not> guard_of e" "is_asset_supported e y"
      "store_asset_claimable_rewards u y (log_ttl ks (set_guard True e)) = Ok v e1"
      "e' = log_ttl ttl_inst (set_guard False e2)"
    and "(if v \<le> 0 then ret 0 else
          vbind get_reward_token (\<lambda>reward_token_id.
          vbind (gets contract_address) (\<lambda>contract.
          vbind (token_balance tk reward_token_id contract) (\<lambda>bal.
          vthen (ensure_contract_balance bal v)
         (vthen (token_transfer tk reward_token_id contract u v)
         (vthen (emit_asset_claim_rewards u y v) (ret v))))))) e1 = Ok x e2"
    by (auto simp: claim_rewards_for_asset_def entry_simps split: if_splits)
  from payment_Ok [OF this(8) emit_run(15)] pre that show ?thesis by blast
qed

section \<open>The invariant\<close>

definition vault_inv :: "'w env \<Rightarrow> bool" where
  "vault_inv e \<longleftrightarrow>
     native_ok e \<and> (\<forall>x. asset_ok x e) \<and> unsupported_empty e \<and> \<not> guard_of e \<and>
     (is_initialized e \<or> native_pool e = empty_pool)"

text \<open>The same, inside the guard.\<close>

definition busy_inv :: "'w env \<Rightarrow> bool" where
  "busy_inv e \<longleftrightarrow>
     native_ok e \<and> (\<forall>x. asset_ok x e) \<and> unsupported_empty e \<and> guard_of e \<and> is_initialized e"

lemma busy_enter: "vault_inv e \<Longrightarrow> is_initialized e \<Longrightarrow> busy_inv (log_ttl ks (set_guard True e))"
  by (simp add: vault_inv_def busy_inv_def)

lemma busy_leave: "busy_inv e \<Longrightarrow> vault_inv (log_ttl ks (set_guard False e))"
  by (simp add: vault_inv_def busy_inv_def)

lemma busy_cong [simp]:
  "busy_inv (log_ttl ks e) = busy_inv e"
  "busy_inv (emit ts d e) = busy_inv e"
  by (simp_all add: busy_inv_def)

lemma busy_frame: "vault_frame e e' \<Longrightarrow> busy_inv e \<Longrightarrow> busy_inv e'"
  by (simp add: busy_inv_def vault_frame_pools unsupported_empty_frame)

lemma busy_transfer:
  "host_token tk \<Longrightarrow> busy_inv e \<Longrightarrow> tk_transfer tk t a b n e = Some e' \<Longrightarrow> vault_frame e e' \<and> busy_inv e'"
  using transfer_frame [of tk t a b n e e'] busy_frame [of e e'] by (auto simp: busy_inv_def)

lemma busy_balance:
  "host_token tk \<Longrightarrow> busy_inv e \<Longrightarrow> tk_balance tk t a e = Some (n, e') \<Longrightarrow> vault_frame e e' \<and> busy_inv e'"
  using balance_frame [of tk t a e n e'] busy_frame [of e e'] by (auto simp: busy_inv_def)

lemma busy_native: "native_frame e e' \<Longrightarrow> native_ok e' \<Longrightarrow> busy_inv e \<Longrightarrow> busy_inv e'"
  by (simp add: busy_inv_def native_frameD)

lemma busy_native_exec:
  "native_exec e op e' \<Longrightarrow> busy_inv e \<Longrightarrow> native_frame e e' \<and> busy_inv e'"
  using native_exec_frame [of e op e'] native_exec_step [of e op e'] busy_native [of e e']
  by (auto simp: busy_inv_def)

lemma busy_asset_exec:
  assumes "asset_exec x e op e'" "busy_inv e"
  shows "asset_frame x e e' \<and> busy_inv e'"
proof -
  from assms have ok: "asset_ok x e" by (simp add: busy_inv_def)
  from asset_exec_frame [OF assms(1) ok] have fr: "asset_frame x e e'" and sup: "is_asset_supported e x"
    by simp_all
  have "asset_ok y e'" for y
    using asset_exec_step [OF assms(1) ok] asset_frameD(4) [OF fr, of y] assms(2)
    by (cases "y = x") (auto simp: busy_inv_def)
  moreover have "unsupported_empty e'"
    using assms(2) asset_frameD(3,5) [OF fr] sup unfolding busy_inv_def unsupported_empty_def by metis
  ultimately show ?thesis
    using fr assms(2) asset_frameD(2,6,7) [OF fr] by (simp add: busy_inv_def)
qed

lemma busy_paid:
  assumes "paid_reward tk u ts d v x e1 e2" "host_token tk" "busy_inv e1"
  shows "busy_inv e2 \<and> vault_frame e1 e2"
  using assms(1) unfolding paid_reward_def
proof (elim disjE exE conjE)
  fix t b ks e3 e4
  assume b: "tk_balance tk t (contract_address e1) (log_ttl ks e1) = Some (b, e3)"
    and t: "tk_transfer tk t (contract_address e1) u v e3 = Some e4" and e2: "e2 = emit ts d e4"
  from busy_balance [OF assms(2) _ b] assms(3) have f: "vault_frame e1 e3" "busy_inv e3" by simp_all
  from busy_transfer [OF assms(2) f(2) t] f(1) e2 show ?thesis by (auto intro: vault_frame_trans)
qed (use assms(3) in simp)

section \<open>Inside the guard\<close>

text \<open>
  The region between entering and leaving the guard is a sequence of token calls, ledger
  operations and events.
\<close>

inductive inside :: "'w token_if \<Rightarrow> 'w env \<Rightarrow> 'w env \<Rightarrow> bool" for tk where
  in_refl: "inside tk e e"
| in_emit: "inside tk e e' \<Longrightarrow> inside tk e (emit ts d e')"
| in_ttl: "inside tk e e' \<Longrightarrow> inside tk e (log_ttl ks e')"
| in_transfer: "inside tk e e' \<Longrightarrow> tk_transfer tk t a b n e' = Some e'' \<Longrightarrow> inside tk e e''"
| in_balance: "inside tk e e' \<Longrightarrow> tk_balance tk t a e' = Some (n, e'') \<Longrightarrow> inside tk e e''"
| in_native: "inside tk e e' \<Longrightarrow> native_exec e' op e'' \<Longrightarrow> inside tk e e''"
| in_unlock: "inside tk e e' \<Longrightarrow> 0 \<le> l \<Longrightarrow> unlock_expired_locks u l e' = Ok n e'' \<Longrightarrow> inside tk e e''"
| in_asset: "inside tk e e' \<Longrightarrow> asset_exec x e' op e'' \<Longrightarrow> inside tk e e''"

lemma inside_paid: "inside tk e e1 \<Longrightarrow> paid_reward tk u ts d v x e1 e2 \<Longrightarrow> inside tk e e2"
  unfolding paid_reward_def
proof (elim disjE exE conjE)
  fix t b ks e3 e4
  assume "inside tk e e1"
    and b: "tk_balance tk t (contract_address e1) (log_ttl ks e1) = Some (b, e3)"
    and t: "tk_transfer tk t (contract_address e1) u v e3 = Some e4" and e2: "e2 = emit ts d e4"
  then show ?thesis unfolding e2 by (intro in_emit in_transfer [OF in_balance [OF in_ttl b] t])
qed simp

definition guarded_run :: "'w token_if \<Rightarrow> 'w env \<Rightarrow> 'w env \<Rightarrow> bool" where
  "guarded_run tk e e' \<longleftrightarrow>
     is_initialized e \<and> \<not> guard_of e \<and>
     (\<exists>ks e1. inside tk (log_ttl ks (set_guard True e)) e1 \<and> e' = log_ttl ttl_inst (set_guard False e1))"

lemma guarded_runI:
  "is_initialized e \<Longrightarrow> \<not> guard_of e \<Longrightarrow> inside tk (log_ttl ks (set_guard True e)) e1 \<Longrightarrow>
     e' = log_ttl ttl_inst (set_guard False e1) \<Longrightarrow> guarded_run tk e e'"
  unfolding guarded_run_def by blast

lemma distribution_native_exec:
  assumes "store_reward_distribution n e = Ok s e'" "0 < n" "in_i128 n"
  shows "\<exists>m. native_exec e (PDistribute (n * m div 10000)) e'"
proof -
  obtain m where "calculate_utilization_multiplier (p_total (native_pool e))
      (unwrap_or 0 (k_TargetDeposits (inst e))) (unwrap_or [] (k_UtilizationMultipliers (inst e))) = Inr m"
    using store_reward_distribution_Ok [OF assms(1) _ assms(3)] assms(2) by (metis less_imp_le)
  then show ?thesis using exec_distribute [OF _ assms(3,1)] assms(2) by auto
qed

lemma deposit_run:
  assumes "deposit tk u n e = Ok x e'" shows "guarded_run tk e e'"
  using assms
  by (rule deposit_Ok)
    (rule guarded_runI, assumption+, rule in_emit [OF in_native [OF in_transfer [OF in_refl]]],
      assumption, rule exec_deposit, assumption+)

lemma withdraw_run:
  assumes "withdraw tk u n e = Ok x e'" shows "guarded_run tk e e'"
  using assms
  by (rule withdraw_Ok)
    (rule guarded_runI, assumption+, rule in_transfer [OF in_emit [OF in_native [OF in_refl]]],
      rule exec_withdraw, assumption+)

lemma distribute_run:
  assumes "distribute_rewards tk n e = Ok x e'" and n: "in_i128 n" shows "guarded_run tk e e'"
  using assms(1)
proof (rule distribute_rewards_Ok)
  fix ks a t e1 e2 s
  assume *: "is_initialized e" "\<not> guard_of e"
    and t: "tk_transfer tk t a (contract_address e) n (log_ttl ks (set_guard True e)) = Some e1"
    and st: "store_reward_distribution n e1 = Ok s e2" "0 < n"
    and e': "e' = log_ttl ttl_inst (set_guard False (emit [PROTOCOL, ACT_DISTRIBUTE] (DistributeEvent a n) e2))"
  obtain m where "native_exec e1 (PDistribute (n * m div 10000)) e2"
    using distribution_native_exec [OF st n] by blast
  then show ?thesis
    by (rule guarded_runI [OF * in_emit [OF in_native [OF in_transfer [OF in_refl t]]] e'])
qed

lemma lock_run:
  assumes "lock u n d e = Ok x e'" shows "guarded_run tk e e'"
  using assms
  by (rule lock_Ok)
    (rule guarded_runI, assumption+, rule in_emit [OF in_native [OF in_refl]], rule exec_lock, assumption+)

lemma unlock_run:
  assumes "unlock_expired u l e = Ok n e'" and l: "0 \<le> l" shows "guarded_run tk e e'"
  using assms(1)
proof (rule unlock_expired_Ok)
  fix ks e1 e2
  assume *: "is_initialized e" "\<not> guard_of e"
    and st: "unlock_expired_locks u l (log_ttl ks (set_guard True e)) = Ok n e1"
    and e2: "e2 = (if 0 < n then emit [PROTOCOL, ACT_UNLOCK] (UnlockEvent u n) e1 else e1)"
    and e': "e' = log_ttl ttl_inst (set_guard False e2)"
  have "inside tk (log_ttl ks (set_guard True e)) e1" by (rule in_unlock [OF in_refl l st])
  then have "inside tk (log_ttl ks (set_guard True e)) e2" unfolding e2 by (simp add: in_emit)
  then show ?thesis by (rule guarded_runI [OF * _ e'])
qed

lemma claim_run:
  assumes "claim_rewards tk u e = Ok x e'" shows "guarded_run tk e e'"
  using assms
  by (rule claim_rewards_Ok)
    (rule guarded_runI, assumption+, rule inside_paid [OF in_native [OF in_refl]], rule exec_claim, assumption+)

lemma deposit_asset_run:
  assumes "deposit_asset tk u y n e = Ok x e'" shows "guarded_run tk e e'"
  using assms
  by (rule deposit_asset_Ok)
    (rule guarded_runI, assumption+, rule in_emit [OF in_asset [OF in_transfer [OF in_refl]]],
      assumption, rule asset_deposit, assumption+)

lemma withdraw_asset_run:
  assumes "withdraw_asset tk u y n e = Ok x e'" shows "guarded_run tk e e'"
  using assms
  by (rule withdraw_asset_Ok)
    (rule guarded_runI, assumption+, rule in_transfer [OF in_emit [OF in_asset [OF in_refl]]],
      rule asset_withdraw, assumption+)

lemma distribute_for_asset_run:
  assumes "distribute_rewards_for_asset tk a y n e = Ok x e'" shows "guarded_run tk e e'"
  using assms
  by (rule distribute_for_asset_Ok)
    (rule guarded_runI, assumption+, rule in_emit [OF in_asset [OF in_transfer [OF in_refl]]],
      assumption, rule asset_distribute, assumption+)

lemma claim_for_asset_run:
  assumes "claim_rewards_for_asset tk u y e = Ok x e'" shows "guarded_run tk e e'"
  using assms
  by (rule claim_for_asset_Ok)
    (rule guarded_runI, assumption+, rule inside_paid [OF in_asset [OF in_refl]], rule asset_claim, assumption+)

lemma unit_result_Ok: "unit_result m e = Ok r e' \<longleftrightarrow> r = 0 \<and> m e = Ok () e'"
  by (auto simp: unit_result_def vm_Ok_iffs)

lemma guarded_call_run:
  "exec_call tk c e = Ok r e' \<Longrightarrow> guarded c \<Longrightarrow> well_typed c \<Longrightarrow> guarded_run tk e e'"
  by (cases c)
    (auto simp: unit_result_Ok in_u32_def deposit_run withdraw_run distribute_run lock_run unlock_run claim_run
      deposit_asset_run withdraw_asset_run distribute_for_asset_run claim_for_asset_run)

section \<open>Preservation\<close>

lemma inside_busy:
  "inside tk e e' \<Longrightarrow> host_token tk \<Longrightarrow> busy_inv e \<Longrightarrow> busy_inv e'"
proof (induction rule: inside.induct)
  case (in_unlock e e' l u n e'')
  then have b: "busy_inv e'" by blast
  then have ok: "native_ok e'" by (simp add: busy_inv_def)
  note un = in_unlock.hyps(2,3)
  show ?case by (rule busy_native [OF unlock_frame [OF ok un] unlock_expired_locks_pool(2) [OF ok un] b])
qed (use busy_transfer busy_balance busy_native_exec busy_asset_exec in \<open>simp; blast\<close>)+

lemma guarded_run_inv:
  assumes "guarded_run tk e e'" "host_token tk" "vault_inv e" shows "vault_inv e'"
  using assms inside_busy busy_enter busy_leave unfolding guarded_run_def by blast

lemma initialize_Ok:
  assumes "initialize a d r v t m e = Ok x e'"
  shows "\<not> unwrap_or False (k_IsPaused (inst e))" "\<not> is_initialized e" "d \<noteq> r" "ascending_from 0 m" "authorized e a"
    "e' = emit [PROTOCOL, ACT_INIT] (InitializeEvent a d r) (log_ttl ttl_inst (e\<lparr>inst := (inst e)\<lparr>
       k_Initialized := Some True, k_Admin := Some a, k_PendingAdmin := None, k_DepositToken := Some d,
       k_RewardToken := Some r, k_VestingPeriod := Some v, k_TotalDeposits := Some 0, k_RewardIndex := Some 0,
       k_TargetDeposits := Some t,
       k_UtilizationMultipliers := Some m, k_ReentrancyGuard := Some False, k_IsPaused := Some False\<rparr>\<rparr>))"
  using assms
  by (auto simp: initialize_def initialize_state_def entry_simps split: if_splits)

lemma initialize_inv:
  assumes run: "initialize a d r v t m e = Ok x e'" and inv: "vault_inv e" and v: "0 \<le> v"
  shows "vault_inv e'"
proof -
  from inv initialize_Ok(2) [OF run] have emp: "native_pool e = empty_pool" by (simp add: vault_inv_def)
  obtain i where e': "e' = emit [PROTOCOL, ACT_INIT] (InitializeEvent a d r) (log_ttl ttl_inst (e\<lparr>inst := i\<rparr>))"
    and i: "i = (inst e)\<lparr>
       k_Initialized := Some True, k_Admin := Some a, k_PendingAdmin := None, k_DepositToken := Some d,
       k_RewardToken := Some r, k_VestingPeriod := Some v, k_TotalDeposits := Some 0, k_RewardIndex := Some 0,
       k_TargetDeposits := Some t,
       k_UtilizationMultipliers := Some m, k_ReentrancyGuard := Some False, k_IsPaused := Some False\<rparr>"
    using initialize_Ok(6) [OF run] by blast
  have np: "native_pool e' = native_pool e"
    using emp e' i by (simp add: native_pool_def empty_pool_def)
  have ap: "asset_pool y e' = asset_pool y e" for y using e' i by (simp add: asset_pool_def)
  have sp: "is_asset_supported e' y = is_asset_supported e y" for y
    using e' i by (simp add: is_asset_supported_def get_supported_assets_def)
  have f: "pers e' = pers e" "unwrap_or 0 (k_VestingPeriod (inst e')) = v" "\<not> guard_of e'" "is_initialized e'"
    using e' i by (simp_all add: guard_of_def is_initialized_def)
  show ?thesis
    using inv np ap sp f v by (simp add: vault_inv_def native_ok_def asset_ok_def unsupported_empty_def)
qed

lemma vault_frame_inv: "vault_frame e e' \<Longrightarrow> vault_inv e \<Longrightarrow> vault_inv e'"
  by (simp add: vault_inv_def vault_frame_pools unsupported_empty_frame)

lemma unguarded_initialized:
  "exec_call tk c e = Ok r e' \<Longrightarrow> \<not> guarded c \<Longrightarrow> is_initialized e \<or> (\<exists>a d q v t m. c = Initialize a d q v t m)"
  by (cases c)
    (auto simp: unit_result_def propose_new_admin_def accept_admin_def pause_contract_def unpause_contract_def
      upgrade_def add_asset_def vm_Ok_iffs store_simps split: if_splits)

lemma exec_call_inv:
  assumes run: "exec_call tk c e = Ok r e'" and "host_token tk" "vault_inv e" and ty: "well_typed c"
  shows "vault_inv e'"
proof (cases "guarded c")
  case True
  then show ?thesis using guarded_call_run [OF run] guarded_run_inv assms by blast
next
  case False
  with unguarded_initialized [OF run] consider "is_initialized e" | a d q v t m where "c = Initialize a d q v t m"
    by blast
  then show ?thesis
  proof cases
    case 1
    then have "vault_frame e e'" using unguarded_frame [OF run False] assms(3) by (simp add: vault_inv_def)
    then show ?thesis using vault_frame_inv assms(3) by blast
  next
    case 2
    with run ty assms(3) initialize_inv show ?thesis
      by (fastforce simp: unit_result_Ok in_u64_def)
  qed
qed

section \<open>Reachable states\<close>

text \<open>
  A deployment starts with empty storage. Calls happen in any order; between them the
  ledger moves on: time advances, and everything outside the vault may change. A call that
  fails leaves the storage as it was, since the host rolls it back.
\<close>

definition empty_inst :: inst_storage where
  "empty_inst =
     \<lparr> k_Initialized = None, k_Admin = None, k_PendingAdmin = None, k_DepositToken = None, k_RewardToken = None,
       k_TotalDeposits = None, k_RewardIndex = None, k_VestingPeriod = None, k_TargetDeposits = None,
       k_UtilizationMultipliers = None, k_ReentrancyGuard = None, k_IsPaused = None, k_SupportedAssets = None,
       k_AssetTotalDeposits = Map.empty, k_AssetRewardIndex = Map.empty \<rparr>"

definition empty_pers :: pers_storage where
  "empty_pers =
     \<lparr> k_UserBalance = Map.empty, k_UserLiquidBalance = Map.empty, k_UserLocks = Map.empty,
       k_UserRewardIndex = Map.empty, k_UserAccruedRewards = Map.empty, k_UserLastRewardTimestamp = Map.empty,
       k_UserAssetBalance = Map.empty, k_UserAssetRewardIndex = Map.empty, k_UserAssetAccruedRewards = Map.empty,
       k_UserAssetLastRewardTimestamp = Map.empty \<rparr>"

inductive reachable :: "'w token_if \<Rightarrow> 'w env \<Rightarrow> bool" for tk where
  deployed: "inst e = empty_inst \<Longrightarrow> pers e = empty_pers \<Longrightarrow> reachable tk e"
| called: "reachable tk e \<Longrightarrow> well_typed c \<Longrightarrow> exec_call tk c e = Ok r e' \<Longrightarrow> reachable tk e'"
| elapsed: "reachable tk e \<Longrightarrow> inst e' = inst e \<Longrightarrow> pers e' = pers e \<Longrightarrow>
    contract_address e' = contract_address e \<Longrightarrow> timestamp e \<le> timestamp e' \<Longrightarrow> reachable tk e'"

lemma vault_inv_stores: "inst e' = inst e \<Longrightarrow> pers e' = pers e \<Longrightarrow> vault_inv e' = vault_inv e"
  by (simp add: vault_inv_def native_ok_def asset_ok_def native_pool_def asset_pool_def unsupported_empty_def
      guard_of_def is_initialized_def is_asset_supported_def get_supported_assets_def)

lemma empty_pool_inv [simp]: "pool_inv empty_pool"
  by (simp add: pool_inv_def empty_pool_def)

lemma vault_inv_deployed:
  assumes "inst e = empty_inst" "pers e = empty_pers" shows "vault_inv e"
proof -
  have "native_pool e = empty_pool" "asset_pool x e = empty_pool" for x
    using assms by (simp_all add: native_pool_def asset_pool_def empty_pool_def empty_inst_def empty_pers_def)
  then show ?thesis
    using assms by (simp add: vault_inv_def native_ok_def asset_ok_def unsupported_empty_def guard_of_def
        empty_inst_def empty_pers_def) (simp add: empty_pool_def)
qed

lemma reachable_inv: "reachable tk e \<Longrightarrow> host_token tk \<Longrightarrow> vault_inv e"
proof (induction rule: reachable.induct)
  case (deployed e)
  then show ?case by (simp add: vault_inv_deployed)
next
  case (called e c r e')
  show ?case by (rule exec_call_inv [OF called.hyps(3) called.prems called.IH [OF called.prems] called.hyps(2)])
next
  case (elapsed e e')
  then show ?case using vault_inv_stores [OF elapsed.hyps(2,3)] by blast
qed

text \<open>
  An invocation as the host runs it: the effects of a call that fails are discarded.
\<close>

definition invoke :: "'w token_if \<Rightarrow> call \<Rightarrow> 'w env \<Rightarrow> 'w env" where
  "invoke tk c e = (case exec_call tk c e of Ok r e' \<Rightarrow> e' | Err er e' \<Rightarrow> e | Trap t \<Rightarrow> e)"

lemma reachable_invoke: "well_typed c \<Longrightarrow> reachable tk e \<Longrightarrow> reachable tk (invoke tk c e)"
  by (auto simp: invoke_def split: outcome.splits intro: called)

end
