(* ===== verification/Vault_Solvency.thy ===== *)
theory Vault_Solvency
  imports Vault_Reachability
begin

text \<open>
  Custody of deposits. With tokens that behave as the SEP-41 interface documents, the
  vault always holds at least what its ledgers record as deposited, for every token other
  than the reward token.
\<close>

section \<open>Standard tokens\<close>

definition sep41 :: "'w token_if \<Rightarrow> (Address \<Rightarrow> Address \<Rightarrow> 'w \<Rightarrow> int) \<Rightarrow> bool" where
  "sep41 tk bal \<longleftrightarrow>
     (\<forall>t a b n e e'. tk_transfer tk t a b n e = Some e' \<longrightarrow>
        (\<exists>w. e' = e\<lparr>world := w\<rparr> \<and> 0 \<le> n \<and> n \<le> bal t a (world e) \<and>
           (\<forall>s h. bal s h w = bal s h (world e) - (if s = t \<and> h = a then n else 0)
                                             + (if s = t \<and> h = b then n else 0)))) \<and>
     (\<forall>t a e n e'. tk_balance tk t a e = Some (n, e') \<longrightarrow> n = bal t a (world e) \<and> e' = e)"

lemma sep41_transfer:
  assumes "sep41 tk bal" "tk_transfer tk t a b n e = Some e'"
  obtains w where "e' = e\<lparr>world := w\<rparr>" "n \<le> bal t a (world e)"
    "\<And>s h. bal s h w = bal s h (world e) - (if s = t \<and> h = a then n else 0) + (if s = t \<and> h = b then n else 0)"
proof -
  from assms have "\<exists>w. e' = e\<lparr>world := w\<rparr> \<and> 0 \<le> n \<and> n \<le> bal t a (world e) \<and>
           (\<forall>s h. bal s h w = bal s h (world e) - (if s = t \<and> h = a then n else 0)
                                             + (if s = t \<and> h = b then n else 0))"
    unfolding sep41_def by blast
  with that show ?thesis by blast
qed

lemma sep41_balance:
  "sep41 tk bal \<Longrightarrow> tk_balance tk t a e = Some (n, e') \<Longrightarrow> n = bal t a (world e) \<and> e' = e"
  unfolding sep41_def by blast

lemma sep41_host: "sep41 tk bal \<Longrightarrow> host_token tk"
  unfolding host_token_def
  by (blast elim: sep41_transfer dest: sep41_balance intro: callback.intros)

section \<open>Custody\<close>

definition custody :: "'w env \<Rightarrow> Address \<Rightarrow> int" where
  "custody e t =
     (if k_DepositToken (inst e) = Some t then p_total (native_pool e) else 0) + p_total (asset_pool t e)"

definition solvent :: "(Address \<Rightarrow> Address \<Rightarrow> 'w \<Rightarrow> int) \<Rightarrow> 'w env \<Rightarrow> bool" where
  "solvent bal e \<longleftrightarrow>
     (\<forall>t. is_initialized e \<and> k_RewardToken (inst e) = Some t \<or> custody e t \<le> bal t (contract_address e) (world e))"

text \<open>
  What solvency depends on: two environments with the same ledgers, tokens, contract
  address, and at least the same holdings.
\<close>

lemma solvent_mono:
  assumes "solvent bal e" "k_RewardToken (inst e') = k_RewardToken (inst e)"
    "contract_address e' = contract_address e" "is_initialized e' = is_initialized e"
    and "\<And>t. \<not> (is_initialized e \<and> k_RewardToken (inst e) = Some t) \<Longrightarrow>
       custody e' t - custody e t \<le>
       bal t (contract_address e) (world e') - bal t (contract_address e) (world e)"
  shows "solvent bal e'"
  unfolding solvent_def
proof
  fix t
  show "is_initialized e' \<and> k_RewardToken (inst e') = Some t \<or>
      custody e' t \<le> bal t (contract_address e') (world e')"
  proof (cases "is_initialized e \<and> k_RewardToken (inst e) = Some t")
    case True
    then show ?thesis using assms(2,4) by simp
  next
    case False
    with assms(1) have "custody e t \<le> bal t (contract_address e) (world e)"
      unfolding solvent_def by blast
    with assms(5) [OF False] assms(3) show ?thesis by simp
  qed
qed

lemma custody_cong [simp]:
  "custody (log_ttl ks e) = custody e"
  "custody (emit ts d e) = custody e"
  "custody (set_guard b e) = custody e"
  "custody (e\<lparr>world := w\<rparr>) = custody e"
  by (simp_all add: custody_def fun_eq_iff) (simp add: native_pool_def asset_pool_def)

lemma is_initialized_world [simp]: "is_initialized (e\<lparr>world := w\<rparr>) = is_initialized e"
  by (simp add: is_initialized_def)

lemma native_ok_world [simp]: "native_ok (e\<lparr>world := w\<rparr>) = native_ok e"
  by (simp add: native_ok_def native_pool_def)

lemma asset_ok_world [simp]: "asset_ok x (e\<lparr>world := w\<rparr>) = asset_ok x e"
  by (simp add: asset_ok_def asset_pool_def)

lemma custody_native_exec:
  assumes "native_exec e op e'" "native_ok e"
  shows "custody e' t = custody e t + (if k_DepositToken (inst e) = Some t then staked op else 0)"
proof -
  note f = native_exec_frame [OF assms]
  have "p_total (native_pool e') = p_total (native_pool e) + staked op"
    using native_exec_step [OF assms] pool_step_total by blast
  then show ?thesis by (simp add: custody_def native_frameD [OF f])
qed

lemma custody_asset_exec:
  assumes "asset_exec x e op e'" "asset_ok x e"
  shows "custody e' t = custody e t + (if t = x then staked op else 0)"
proof -
  have f: "asset_frame x e e'" using asset_exec_frame [OF assms] by blast
  have "p_total (asset_pool x e') = p_total (asset_pool x e) + staked op"
    using asset_exec_step [OF assms] pool_step_total by blast
  then show ?thesis using asset_frameD(3) [OF f, of t] by (simp add: custody_def asset_frameD [OF f])
qed

section \<open>Every call keeps the vault solvent\<close>

lemma deposit_solvent:
  assumes run: "deposit tk u n e = Ok x e'" and tk: "sep41 tk bal" and inv: "vault_inv e"
    and self: "\<not> authorized e (contract_address e)" and s: "solvent bal e"
  shows "solvent bal e'"
proof -
  obtain ks e1 e2 r t where au: "authorized e u" and n: "0 < n" and dt: "k_DepositToken (inst e) = Some t"
    and tr: "tk_transfer tk t u (contract_address e) n (log_ttl ks (set_guard True e)) = Some e1"
    and st: "store_deposit u n e1 = Ok r e2"
    and e': "e' = log_ttl ttl_inst (set_guard False (emit [PROTOCOL, ACT_DEPOSIT] (DepositEvent u n) e2))"
    using deposit_Ok [OF run] by metis
  obtain w where e1: "e1 = (log_ttl ks (set_guard True e))\<lparr>world := w\<rparr>"
    and w: "\<And>s h. bal s h w = bal s h (world e) - (if s = t \<and> h = u then n else 0)
                + (if s = t \<and> h = contract_address e then n else 0)"
    using sep41_transfer [OF tk tr] by auto
  have ok: "native_ok e1" using inv e1 by (simp add: vault_inv_def)
  note ex = exec_deposit [OF n st]
  note f = native_frameD [OF native_exec_frame [OF ex ok]]
  show ?thesis
    by (rule solvent_mono [OF s])
      (use e' e1 f dt au self w custody_native_exec [OF ex ok] in \<open>auto\<close>)
qed

lemma withdraw_solvent:
  assumes run: "withdraw tk u n e = Ok x e'" and tk: "sep41 tk bal" and inv: "vault_inv e"
    and self: "\<not> authorized e (contract_address e)" and s: "solvent bal e"
  shows "solvent bal e'"
proof -
  obtain ks s0 q e1 e2 t where au: "authorized e u" and n: "0 < n" and dt: "k_DepositToken (inst e) = Some t"
    and st: "store_withdraw u n (log_ttl ks (set_guard True e)) = Ok (s0, q) e1"
    and tr: "tk_transfer tk t (contract_address e1) u n
       (emit [PROTOCOL, ACT_WITHDRAW] (WithdrawEvent u n (up_balance q)) e1) = Some e2"
    and e': "e' = log_ttl ttl_inst (set_guard False e2)"
    using withdraw_Ok [OF run] by metis
  have ok: "native_ok (log_ttl ks (set_guard True e))" using inv by (simp add: vault_inv_def)
  note ex = exec_withdraw [OF n st]
  note f = native_frameD [OF native_exec_frame [OF ex ok]]
  obtain w where e2: "e2 = (emit [PROTOCOL, ACT_WITHDRAW] (WithdrawEvent u n (up_balance q)) e1)\<lparr>world := w\<rparr>"
    and w: "\<And>s h. bal s h w = bal s h (world e) - (if s = t \<and> h = contract_address e then n else 0)
                + (if s = t \<and> h = u then n else 0)"
    using sep41_transfer [OF tk tr] f by auto
  show ?thesis
    by (rule solvent_mono [OF s])
      (use e' e2 f dt au self w custody_native_exec [OF ex ok] in \<open>auto\<close>)
qed

lemma distribute_solvent:
  assumes run: "distribute_rewards tk n e = Ok x e'" and tk: "sep41 tk bal" and inv: "vault_inv e"
    and self: "\<not> authorized e (contract_address e)" and s: "solvent bal e" and ty: "in_i128 n"
  shows "solvent bal e'"
proof -
  obtain ks a t e1 e2 s0 where au: "authorized e a" and n: "0 < n"
    and tr: "tk_transfer tk t a (contract_address e) n (log_ttl ks (set_guard True e)) = Some e1"
    and st: "store_reward_distribution n e1 = Ok s0 e2"
    and e': "e' = log_ttl ttl_inst (set_guard False (emit [PROTOCOL, ACT_DISTRIBUTE] (DistributeEvent a n) e2))"
    using distribute_rewards_Ok [OF run] by metis
  obtain w where e1: "e1 = (log_ttl ks (set_guard True e))\<lparr>world := w\<rparr>"
    and w: "\<And>s h. bal s h w = bal s h (world e) - (if s = t \<and> h = a then n else 0)
                + (if s = t \<and> h = contract_address e then n else 0)"
    using sep41_transfer [OF tk tr] by auto
  have ok: "native_ok e1" using inv e1 by (simp add: vault_inv_def)
  obtain m where ex: "native_exec e1 (PDistribute (n * m div 10000)) e2"
    using distribution_native_exec [OF st n ty] by blast
  note f = native_frameD [OF native_exec_frame [OF ex ok]]
  show ?thesis
    by (rule solvent_mono [OF s])
      (use e' e1 f au self w n custody_native_exec [OF ex ok] in \<open>auto\<close>)
qed

lemma lock_solvent:
  assumes run: "lock u n d e = Ok x e'" and inv: "vault_inv e" and s: "solvent bal e"
  shows "solvent bal e'"
proof -
  obtain ks e1 y where n: "0 < n"
    and st: "store_lock u n d (log_ttl ks (set_guard True e)) = Ok () e1"
    and e': "e' = log_ttl ttl_inst (set_guard False (emit [PROTOCOL, ACT_LOCK] y e1))"
    using lock_Ok [OF run] by metis
  have ok: "native_ok (log_ttl ks (set_guard True e))" using inv by (simp add: vault_inv_def)
  note ex = exec_lock [OF n st]
  note f = native_frameD [OF native_exec_frame [OF ex ok]]
  show ?thesis
    by (rule solvent_mono [OF s]) (use e' f custody_native_exec [OF ex ok] in \<open>auto\<close>)
qed

lemma unlock_solvent:
  assumes run: "unlock_expired u l e = Ok n e'" and inv: "vault_inv e" and s: "solvent bal e" and l: "0 \<le> l"
  shows "solvent bal e'"
proof -
  obtain ks e1 e2 where st: "unlock_expired_locks u l (log_ttl ks (set_guard True e)) = Ok n e1"
    and e2: "e2 = (if 0 < n then emit [PROTOCOL, ACT_UNLOCK] (UnlockEvent u n) e1 else e1)"
    and e': "e' = log_ttl ttl_inst (set_guard False e2)"
    using unlock_expired_Ok [OF run] by metis
  have ok: "native_ok (log_ttl ks (set_guard True e))" using inv by (simp add: vault_inv_def)
  note f = native_frameD [OF unlock_frame [OF ok l st]]
  have "custody e1 t = custody e t" for t
    using unlock_expired_locks_pool(1) [OF ok l st] f by (simp add: custody_def)
  then show ?thesis
    by (intro solvent_mono [OF s]) (use e' e2 f in \<open>auto split: if_splits\<close>)
qed

text \<open>Paying a reward only moves the reward token.\<close>

lemma paid_solvent:
  assumes pay: "paid_reward tk u ts d v x e1 e2" and tk: "sep41 tk bal" and s: "solvent bal e1"
    and i: "is_initialized e1"
  shows "solvent bal e2"
  using pay unfolding paid_reward_def
proof (elim disjE exE conjE)
  fix t b ks e3 e4
  assume rt: "k_RewardToken (inst e1) = Some t"
    and b: "tk_balance tk t (contract_address e1) (log_ttl ks e1) = Some (b, e3)"
    and tr: "tk_transfer tk t (contract_address e1) u v e3 = Some e4" and e2: "e2 = emit ts d e4"
  from sep41_balance [OF tk b] have e3: "e3 = log_ttl ks e1" by simp
  obtain w where "e4 = e3\<lparr>world := w\<rparr>"
    and "\<And>s h. bal s h w = bal s h (world e3) - (if s = t \<and> h = contract_address e1 then v else 0)
                + (if s = t \<and> h = u then v else 0)"
    using sep41_transfer [OF tk tr] by blast
  then show ?thesis
    by (intro solvent_mono [OF s]) (use e2 e3 rt i in auto)
qed (use s in simp)

lemma solvent_cong:
  assumes "\<And>t. custody e' t = custody e t" "k_RewardToken (inst e') = k_RewardToken (inst e)"
    "contract_address e' = contract_address e" "world e' = world e" "is_initialized e' = is_initialized e"
  shows "solvent bal e' = solvent bal e"
  using assms by (simp add: solvent_def)

lemma claim_solvent:
  assumes run: "claim_rewards tk u e = Ok x e'" and tk: "sep41 tk bal" and inv: "vault_inv e" and s: "solvent bal e"
  shows "solvent bal e'"
proof -
  obtain ks v e1 e2 where i: "is_initialized e"
    and st: "store_claimable_rewards u (log_ttl ks (set_guard True e)) = Ok v e1"
    and pay: "paid_reward tk u [PROTOCOL, ACT_CLAIM] (ClaimEvent u v) v x e1 e2"
    and e': "e' = log_ttl ttl_inst (set_guard False e2)"
    using claim_rewards_Ok [OF run] by metis
  have ok: "native_ok (log_ttl ks (set_guard True e))" using inv by (simp add: vault_inv_def)
  note ex = exec_claim [OF st]
  note f = native_frameD [OF native_exec_frame [OF ex ok]]
  have "solvent bal e1 = solvent bal e"
    by (rule solvent_cong) (use f custody_native_exec [OF ex ok] in auto)
  with paid_solvent [OF pay tk] s f i have "solvent bal e2" by simp
  moreover have "solvent bal e' = solvent bal e2" by (rule solvent_cong) (use e' in auto)
  ultimately show ?thesis by simp
qed

lemma deposit_asset_solvent:
  assumes run: "deposit_asset tk u y n e = Ok x e'" and tk: "sep41 tk bal" and inv: "vault_inv e"
    and self: "\<not> authorized e (contract_address e)" and s: "solvent bal e"
  shows "solvent bal e'"
proof -
  obtain ks e1 e2 r where au: "authorized e u" and n: "0 < n"
    and tr: "tk_transfer tk y u (contract_address e) n (log_ttl ks (set_guard True e)) = Some e1"
    and st: "store_asset_deposit u y n e1 = Ok r e2"
    and e': "e' = log_ttl ttl_inst (set_guard False (emit [PROTOCOL, ACT_ASSET_DEPOSIT] (AssetDepositEvent u y n) e2))"
    using deposit_asset_Ok [OF run] by metis
  obtain w where e1: "e1 = (log_ttl ks (set_guard True e))\<lparr>world := w\<rparr>"
    and w: "\<And>s h. bal s h w = bal s h (world e) - (if s = y \<and> h = u then n else 0)
                + (if s = y \<and> h = contract_address e then n else 0)"
    using sep41_transfer [OF tk tr] by auto
  have ok: "asset_ok y e1" using inv e1 by (simp add: vault_inv_def)
  note ex = asset_deposit [OF n st]
  from asset_exec_frame [OF ex ok] have fr: "asset_frame y e1 e2" by blast
  note f = asset_frameD [OF fr]
  show ?thesis
    by (rule solvent_mono [OF s]) (use e' e1 f au self w custody_asset_exec [OF ex ok] in \<open>auto\<close>)
qed

lemma withdraw_asset_solvent:
  assumes run: "withdraw_asset tk u y n e = Ok x e'" and tk: "sep41 tk bal" and inv: "vault_inv e"
    and self: "\<not> authorized e (contract_address e)" and s: "solvent bal e"
  shows "solvent bal e'"
proof -
  obtain ks q e1 e2 where au: "authorized e u" and n: "0 < n"
    and st: "store_asset_withdraw u y n (log_ttl ks (set_guard True e)) = Ok q e1"
    and tr: "tk_transfer tk y (contract_address e1) u n
       (emit [PROTOCOL, ACT_ASSET_WITHDRAW] (AssetWithdrawEvent u y n (up_balance q)) e1) = Some e2"
    and e': "e' = log_ttl ttl_inst (set_guard False e2)"
    using withdraw_asset_Ok [OF run] by metis
  have ok: "asset_ok y (log_ttl ks (set_guard True e))" using inv by (simp add: vault_inv_def)
  note ex = asset_withdraw [OF n st]
  from asset_exec_frame [OF ex ok] have fr: "asset_frame y (log_ttl ks (set_guard True e)) e1" by blast
  note f = asset_frameD [OF fr]
  obtain w where e2: "e2 = (emit [PROTOCOL, ACT_ASSET_WITHDRAW] (AssetWithdrawEvent u y n (up_balance q)) e1)\<lparr>world := w\<rparr>"
    and w: "\<And>s h. bal s h w = bal s h (world e) - (if s = y \<and> h = contract_address e then n else 0)
                + (if s = y \<and> h = u then n else 0)"
    using sep41_transfer [OF tk tr] f by auto
  show ?thesis
    by (rule solvent_mono [OF s]) (use e' e2 f au self w custody_asset_exec [OF ex ok] in \<open>auto\<close>)
qed

lemma distribute_for_asset_solvent:
  assumes run: "distribute_rewards_for_asset tk a y n e = Ok x e'" and tk: "sep41 tk bal" and inv: "vault_inv e"
    and self: "\<not> authorized e (contract_address e)" and s: "solvent bal e"
  shows "solvent bal e'"
proof -
  obtain ks t e1 e2 where au: "authorized e a" and n: "0 < n"
    and tr: "tk_transfer tk t a (contract_address e) n (log_ttl ks (set_guard True e)) = Some e1"
    and st: "store_asset_reward_distribution y n e1 = Ok x e2"
    and e': "e' = log_ttl ttl_inst (set_guard False (emit [PROTOCOL, ACT_ASSET_DISTRIBUTE] (AssetDistributeEvent a y n) e2))"
    using distribute_for_asset_Ok [OF run] by metis
  obtain w where e1: "e1 = (log_ttl ks (set_guard True e))\<lparr>world := w\<rparr>"
    and w: "\<And>s h. bal s h w = bal s h (world e) - (if s = t \<and> h = a then n else 0)
                + (if s = t \<and> h = contract_address e then n else 0)"
    using sep41_transfer [OF tk tr] by auto
  have ok: "asset_ok y e1" using inv e1 by (simp add: vault_inv_def)
  note ex = asset_distribute [OF st]
  from asset_exec_frame [OF ex ok] have fr: "asset_frame y e1 e2" by blast
  note f = asset_frameD [OF fr]
  show ?thesis
    by (rule solvent_mono [OF s]) (use e' e1 f au self w n custody_asset_exec [OF ex ok] in \<open>auto\<close>)
qed

lemma claim_for_asset_solvent:
  assumes run: "claim_rewards_for_asset tk u y e = Ok x e'" and tk: "sep41 tk bal" and inv: "vault_inv e"
    and s: "solvent bal e"
  shows "solvent bal e'"
proof -
  obtain ks v e1 e2 where i: "is_initialized e"
    and st: "store_asset_claimable_rewards u y (log_ttl ks (set_guard True e)) = Ok v e1"
    and pay: "paid_reward tk u [PROTOCOL, ACT_ASSET_CLAIM] (AssetClaimEvent u y v) v x e1 e2"
    and e': "e' = log_ttl ttl_inst (set_guard False e2)"
    using claim_for_asset_Ok [OF run] by metis
  have ok: "asset_ok y (log_ttl ks (set_guard True e))" using inv by (simp add: vault_inv_def)
  note ex = asset_claim [OF st]
  from asset_exec_frame [OF ex ok] have fr: "asset_frame y (log_ttl ks (set_guard True e)) e1" by blast
  note f = asset_frameD [OF fr]
  have "solvent bal e1 = solvent bal e"
    by (rule solvent_cong) (use f custody_asset_exec [OF ex ok] in auto)
  with paid_solvent [OF pay tk] s f i have "solvent bal e2" by simp
  moreover have "solvent bal e' = solvent bal e2" by (rule solvent_cong) (use e' in auto)
  ultimately show ?thesis by simp
qed

lemma initialize_solvent:
  assumes run: "initialize a d r v t m e = Ok x e'" and inv: "vault_inv e" and s: "solvent bal e"
  shows "solvent bal e'"
proof -
  from inv initialize_Ok(2) [OF run] have emp: "native_pool e = empty_pool" by (simp add: vault_inv_def)
  have f: "pers e' = pers e" "k_AssetTotalDeposits (inst e') = k_AssetTotalDeposits (inst e)"
    "unwrap_or 0 (k_TotalDeposits (inst e')) = 0" "world e' = world e" "contract_address e' = contract_address e"
    using initialize_Ok(6) [OF run] by simp_all
  then have "custody e' y = custody e y" for y
    using emp by (simp add: custody_def asset_pool_def native_pool_def empty_pool_def)
  with s initialize_Ok(2) [OF run] f show ?thesis by (simp add: solvent_def)
qed

lemma unguarded_world:
  assumes "exec_call tk c e = Ok r e'" "\<not> guarded c" shows "world e' = world e \<and> pers e' = pers e"
  using assms
  by (cases c)
    (auto simp: unit_result_def initialize_def initialize_state_def propose_new_admin_def accept_admin_def
      pause_contract_def unpause_contract_def upgrade_def update_current_contract_wasm_def add_asset_def
      get_admin_Ok_iff entry_simps split: if_splits)

lemma vault_frame_solvent:
  assumes "vault_frame e e'" "world e' = world e" "solvent bal e" shows "solvent bal e'"
proof -
  have "custody e' t = custody e t" for t
    using assms(1) vault_frame_pools [OF assms(1)] by (simp add: custody_def vault_frame_def)
  then have "solvent bal e' = solvent bal e"
    using assms(1,2) vault_frame_pools(6) [OF assms(1)] by (intro solvent_cong) (auto simp: vault_frame_def)
  with assms(3) show ?thesis by simp
qed

lemma exec_call_solvent:
  assumes run: "exec_call tk c e = Ok r e'" and "sep41 tk bal" "vault_inv e" "well_typed c"
    "\<not> authorized e (contract_address e)" "solvent bal e"
  shows "solvent bal e'"
proof (cases "guarded c")
  case True
  then show ?thesis
  proof (cases c)
    case (Deposit u n)
    with assms deposit_solvent show ?thesis by (fastforce simp: unit_result_Ok)
  next
    case (Withdraw u n)
    with assms withdraw_solvent show ?thesis by (fastforce simp: unit_result_Ok)
  next
    case (DistributeRewards n)
    with assms distribute_solvent show ?thesis by fastforce
  next
    case (LockCall u n d)
    with assms lock_solvent show ?thesis by (fastforce simp: unit_result_Ok)
  next
    case (UnlockExpired u l)
    with assms unlock_solvent show ?thesis by (fastforce simp: in_u32_def)
  next
    case (ClaimRewards u)
    with assms claim_solvent show ?thesis by fastforce
  next
    case (DepositAsset u x n)
    with assms deposit_asset_solvent show ?thesis by (fastforce simp: unit_result_Ok)
  next
    case (WithdrawAsset u x n)
    with assms withdraw_asset_solvent show ?thesis by (fastforce simp: unit_result_Ok)
  next
    case (DistributeRewardsForAsset a x n)
    with assms distribute_for_asset_solvent show ?thesis by fastforce
  next
    case (ClaimRewardsForAsset u x)
    with assms claim_for_asset_solvent show ?thesis by fastforce
  qed simp_all
next
  case False
  with unguarded_initialized [OF run] consider "is_initialized e" | a d q v t m where "c = Initialize a d q v t m"
    by blast
  then show ?thesis
  proof cases
    case 1
    then have "vault_frame e e'" using unguarded_frame [OF run False] assms(3) by (simp add: vault_inv_def)
    then show ?thesis using vault_frame_solvent conjunct1 [OF unguarded_world [OF run False]] assms(6) by blast
  next
    case 2
    with run assms initialize_solvent show ?thesis by (fastforce simp: unit_result_Ok)
  qed
qed

section \<open>Custodial histories\<close>

text \<open>
  Histories of a vault on standard tokens: the vault never authorises a call to itself
  (only a contract can authorise for its own address), and between calls its holdings are
  not taken away, since nobody else can authorise a transfer from it.
\<close>

inductive custodial :: "'w token_if \<Rightarrow> (Address \<Rightarrow> Address \<Rightarrow> 'w \<Rightarrow> int) \<Rightarrow> 'w env \<Rightarrow> bool" for tk bal where
  cust_deployed: "inst e = empty_inst \<Longrightarrow> pers e = empty_pers \<Longrightarrow>
    (\<And>t. 0 \<le> bal t (contract_address e) (world e)) \<Longrightarrow> custodial tk bal e"
| cust_called: "custodial tk bal e \<Longrightarrow> well_typed c \<Longrightarrow> \<not> authorized e (contract_address e) \<Longrightarrow>
    exec_call tk c e = Ok r e' \<Longrightarrow> custodial tk bal e'"
| cust_elapsed: "custodial tk bal e \<Longrightarrow> inst e' = inst e \<Longrightarrow> pers e' = pers e \<Longrightarrow>
    contract_address e' = contract_address e \<Longrightarrow> timestamp e \<le> timestamp e' \<Longrightarrow>
    (\<And>t. bal t (contract_address e) (world e) \<le> bal t (contract_address e) (world e')) \<Longrightarrow> custodial tk bal e'"

lemma custodial_reachable: "custodial tk bal e \<Longrightarrow> reachable tk e"
  by (induction rule: custodial.induct) (blast intro: reachable.intros)+

lemma custodial_solvent: "custodial tk bal e \<Longrightarrow> sep41 tk bal \<Longrightarrow> solvent bal e"
proof (induction rule: custodial.induct)
  case (cust_deployed e)
  have "custody e t = 0" for t
    using cust_deployed.hyps(1,2) by (simp add: custody_def empty_inst_def asset_pool_def)
  with cust_deployed.hyps(3) show ?case by (simp add: solvent_def)
next
  case (cust_called e c r e')
  have "vault_inv e"
    using reachable_inv [OF custodial_reachable [OF cust_called.hyps(1)]] sep41_host [OF cust_called.prems] by blast
  with cust_called show ?case using exec_call_solvent by blast
next
  case (cust_elapsed e e')
  have "custody e' t = custody e t" for t
    using cust_elapsed.hyps(2,3) by (simp add: custody_def native_pool_def asset_pool_def)
  with cust_elapsed.IH [OF cust_elapsed.prems] cust_elapsed.hyps show ?case
    by (intro solvent_mono [of bal e e']) (auto simp: is_initialized_def)
qed

end
