(* ===== verification/Vault_Config.thy ===== *)
theory Vault_Config
  imports Vault_Solvency
begin

text \<open>
  What never changes: the configuration written by \<open>initialize\<close>, under every call
  and for tokens that may call back; and the administrative state, which guarded calls on
  standard tokens do not touch.
\<close>

section \<open>Configuration\<close>

definition config :: "'w env \<Rightarrow> bool option \<times> Address option \<times> Address option \<times> int option \<times> int option \<times> MultiplierPoint list option \<times> (Address \<rightharpoonup> int)" where
  "config e =
     (k_Initialized (inst e), k_DepositToken (inst e), k_RewardToken (inst e), k_VestingPeriod (inst e),
      k_TargetDeposits (inst e), k_UtilizationMultipliers (inst e), k_UserBalance (pers e))"

lemma config_cong [simp]:
  "config (log_ttl ks e) = config e"
  "config (emit ts d e) = config e"
  "config (set_guard b e) = config e"
  "config (e\<lparr>world := w\<rparr>) = config e"
  by (simp_all add: config_def)

lemma config_vault_frame: "vault_frame e e' \<Longrightarrow> config e' = config e"
  by (simp add: config_def vault_frame_def)

lemma config_native_frame: "native_frame e e' \<Longrightarrow> config e' = config e"
  by (auto simp: config_def native_frame_def)

lemma config_asset_frame: "asset_frame x e e' \<Longrightarrow> config e' = config e"
  by (auto simp: config_def asset_frame_def)

lemma inside_config:
  "inside tk e e' \<Longrightarrow> host_token tk \<Longrightarrow> busy_inv e \<Longrightarrow> config e' = config e"
proof (induction rule: inside.induct)
  case (in_transfer e e' t a b n e'')
  with inside_busy have "busy_inv e'" by blast
  with in_transfer show ?case using busy_transfer config_vault_frame by metis
next
  case (in_balance e e' t a n e'')
  with inside_busy have "busy_inv e'" by blast
  with in_balance show ?case using busy_balance config_vault_frame by metis
next
  case (in_native e e' op e'')
  with inside_busy have "busy_inv e'" by blast
  with in_native show ?case using busy_native_exec config_native_frame by metis
next
  case (in_unlock e e' l u n e'')
  with inside_busy have "native_ok e'" unfolding busy_inv_def by blast
  with in_unlock show ?case using unlock_frame config_native_frame by metis
next
  case (in_asset e e' x op e'')
  with inside_busy have "busy_inv e'" by blast
  with in_asset show ?case using busy_asset_exec config_asset_frame by metis
qed simp_all

lemma guarded_run_config:
  assumes "guarded_run tk e e'" "host_token tk" "vault_inv e" shows "config e' = config e"
proof -
  from assms(1) obtain ks e1 where i: "is_initialized e" and ins: "inside tk (log_ttl ks (set_guard True e)) e1"
    and e': "e' = log_ttl ttl_inst (set_guard False e1)"
    unfolding guarded_run_def by blast
  from inside_config [OF ins assms(2) busy_enter [OF assms(3) i]] e' show ?thesis by simp
qed

lemma exec_call_config:
  assumes run: "exec_call tk c e = Ok r e'" and "host_token tk" "vault_inv e" "well_typed c" "is_initialized e"
  shows "config e' = config e"
proof (cases "guarded c")
  case True
  then show ?thesis using guarded_call_run [OF run] guarded_run_config assms by blast
next
  case False
  then have "vault_frame e e'"
    using unguarded_frame [OF run False] assms(3,5) by (simp add: vault_inv_def)
  then show ?thesis by (rule config_vault_frame)
qed

section \<open>Administrative state\<close>

definition admin_state :: "'w env \<Rightarrow> Address option \<times> Address option \<times> bool option \<times> (Address \<rightharpoonup> bool) option \<times> BytesN32" where
  "admin_state e =
     (k_Admin (inst e), k_PendingAdmin (inst e), k_IsPaused (inst e), k_SupportedAssets (inst e), wasm e)"

lemma admin_state_cong [simp]:
  "admin_state (log_ttl ks e) = admin_state e"
  "admin_state (emit ts d e) = admin_state e"
  "admin_state (set_guard b e) = admin_state e"
  "admin_state (e\<lparr>world := w\<rparr>) = admin_state e"
  by (simp_all add: admin_state_def)

lemma admin_native_frame: "native_frame e e' \<Longrightarrow> admin_state e' = admin_state e"
  by (auto simp: admin_state_def native_frame_def)

lemma admin_asset_frame: "asset_frame x e e' \<Longrightarrow> admin_state e' = admin_state e"
  by (auto simp: admin_state_def asset_frame_def)

lemma inside_admin:
  "inside tk e e' \<Longrightarrow> sep41 tk bal \<Longrightarrow> busy_inv e \<Longrightarrow> admin_state e' = admin_state e"
proof (induction rule: inside.induct)
  case (in_transfer e e' t a b n e'')
  then obtain w where "e'' = e'\<lparr>world := w\<rparr>" by (metis sep41_transfer)
  with in_transfer show ?case by simp
next
  case (in_balance e e' t a n e'')
  then show ?case using sep41_balance by metis
next
  case (in_native e e' op e'')
  with inside_busy sep41_host have "busy_inv e'" by blast
  with in_native show ?case using busy_native_exec admin_native_frame by metis
next
  case (in_unlock e e' l u n e'')
  with inside_busy sep41_host have "native_ok e'" unfolding busy_inv_def by blast
  with in_unlock show ?case using unlock_frame admin_native_frame by metis
next
  case (in_asset e e' x op e'')
  with inside_busy sep41_host have "busy_inv e'" by blast
  with in_asset show ?case using busy_asset_exec admin_asset_frame by metis
qed simp_all

lemma guarded_run_admin:
  assumes "guarded_run tk e e'" "sep41 tk bal" "vault_inv e" shows "admin_state e' = admin_state e"
proof -
  from assms(1) obtain ks e1 where i: "is_initialized e" and ins: "inside tk (log_ttl ks (set_guard True e)) e1"
    and e': "e' = log_ttl ttl_inst (set_guard False e1)"
    unfolding guarded_run_def by blast
  from inside_admin [OF ins assms(2) busy_enter [OF assms(3) i]] e' show ?thesis by simp
qed

section \<open>Reward indices\<close>

definition indices_grow :: "'w env \<Rightarrow> 'w env \<Rightarrow> bool" where
  "indices_grow e e' \<longleftrightarrow>
     p_idx (native_pool e) \<le> p_idx (native_pool e') \<and>
     (\<forall>x. p_idx (asset_pool x e) \<le> p_idx (asset_pool x e'))"

lemma indices_grow_simps [simp]:
  "indices_grow e e"
  "indices_grow e (log_ttl ks e') = indices_grow e e'"
  "indices_grow (log_ttl ks e) e' = indices_grow e e'"
  "indices_grow e (emit ts d e') = indices_grow e e'"
  "indices_grow e (set_guard b e') = indices_grow e e'"
  "indices_grow (set_guard b e) e' = indices_grow e e'"
  by (simp_all add: indices_grow_def)

lemma indices_grow_trans: "indices_grow e e' \<Longrightarrow> indices_grow e' e'' \<Longrightarrow> indices_grow e e''"
  unfolding indices_grow_def by (blast intro: order_trans)

lemma indices_vault_frame: "vault_frame e e' \<Longrightarrow> indices_grow e e'"
  by (simp add: indices_grow_def vault_frame_pools)

lemma indices_native_exec: "native_exec e op e' \<Longrightarrow> native_ok e \<Longrightarrow> indices_grow e e'"
  using native_exec_frame [of e op e'] native_exec_step [of e op e'] pool_step_index_mono
  by (fastforce simp: indices_grow_def native_frameD)

lemma indices_asset_exec:
  assumes "asset_exec x e op e'" "asset_ok x e" shows "indices_grow e e'"
proof -
  from asset_exec_frame [OF assms] have f: "asset_frame x e e'" by blast
  have "p_idx (asset_pool y e) \<le> p_idx (asset_pool y e')" for y
    using asset_exec_step [OF assms] pool_step_index_mono asset_frameD(3) [OF f, of y]
    by (cases "y = x") auto
  then show ?thesis by (simp add: indices_grow_def asset_frameD [OF f])
qed

lemma inside_indices:
  "inside tk e e' \<Longrightarrow> host_token tk \<Longrightarrow> busy_inv e \<Longrightarrow> indices_grow e e'"
proof (induction rule: inside.induct)
  case (in_transfer e e' t a b n e'')
  with inside_busy have "busy_inv e'" by blast
  with in_transfer show ?case using busy_transfer indices_vault_frame indices_grow_trans by metis
next
  case (in_balance e e' t a n e'')
  with inside_busy have "busy_inv e'" by blast
  with in_balance show ?case using busy_balance indices_vault_frame indices_grow_trans by metis
next
  case (in_native e e' op e'')
  with inside_busy have "native_ok e'" unfolding busy_inv_def by blast
  with in_native show ?case using indices_native_exec indices_grow_trans by metis
next
  case (in_unlock e e' l u n e'')
  with inside_busy have ok: "native_ok e'" unfolding busy_inv_def by blast
  from unlock_expired_locks_pool(1) [OF ok in_unlock.hyps(2,3)] native_frameD(1) [OF unlock_frame [OF ok in_unlock.hyps(2,3)]]
  have "indices_grow e' e''" by (simp add: indices_grow_def)
  with in_unlock show ?case using indices_grow_trans by blast
next
  case (in_asset e e' x op e'')
  with inside_busy have "asset_ok x e'" unfolding busy_inv_def by blast
  with in_asset show ?case using indices_asset_exec indices_grow_trans by metis
qed simp_all

lemma exec_call_indices:
  assumes run: "exec_call tk c e = Ok r e'" and "host_token tk" "vault_inv e" "well_typed c" "is_initialized e"
  shows "indices_grow e e'"
proof (cases "guarded c")
  case True
  from guarded_call_run [OF run True assms(4)] obtain ks e1 where
    ins: "inside tk (log_ttl ks (set_guard True e)) e1" and e': "e' = log_ttl ttl_inst (set_guard False e1)"
    unfolding guarded_run_def by blast
  from inside_indices [OF ins assms(2) busy_enter [OF assms(3,5)]] e' show ?thesis by simp
next
  case False
  then show ?thesis
    using unguarded_frame [OF run False] assms(3,5) indices_vault_frame by (auto simp: vault_inv_def)
qed

end
