(* ===== verification/Vault_Accounts.thy ===== *)
theory Vault_Accounts
  imports Vault_Config
begin

text \<open>
  The rewards that flow through the deployed contract, native and per asset: what its
  distributions have added and what its claims have paid out over a whole history of calls, with
  time passing between them and tokens that call back during a transfer.
\<close>

section \<open>Histories with accounts\<close>

text \<open>The pool of an account: the native one, or that of an asset.\<close>

fun pool_of :: "Address option \<Rightarrow> 'w env \<Rightarrow> Address pool" where
  "pool_of None e = native_pool e"
| "pool_of (Some x) e = asset_pool x e"

text \<open>The amount a native distribution adds to the claims: the amount times the current multiplier.\<close>

definition effective_amount :: "'w env \<Rightarrow> int \<Rightarrow> int" where
  "effective_amount e n =
     (case calculate_utilization_multiplier (unwrap_or 0 (k_TotalDeposits (inst e)))
         (unwrap_or 0 (k_TargetDeposits (inst e))) (unwrap_or [] (k_UtilizationMultipliers (inst e))) of
        Inr m \<Rightarrow> n * m div 10000 | Inl _ \<Rightarrow> 0)"

fun rewards_in :: "'w env \<Rightarrow> call \<Rightarrow> Address option \<Rightarrow> int" where
  "rewards_in e (DistributeRewards n) k = (if k = None then effective_amount e n else 0)"
| "rewards_in e (DistributeRewardsForAsset a x n) k = (if k = Some x then n else 0)"
| "rewards_in e _ k = 0"

fun rewards_out :: "call \<Rightarrow> int \<Rightarrow> Address option \<Rightarrow> int" where
  "rewards_out (ClaimRewards u) r k = (if k = None then r else 0)"
| "rewards_out (ClaimRewardsForAsset u x) r k = (if k = Some x then r else 0)"
| "rewards_out _ r k = 0"

text \<open>
  A history of the contract from its deployment: any sequence of calls that succeed, with the
  ledger moving on in between. It records per account what was distributed and what the claims
  returned so far.
\<close>

inductive accounted :: "'w token_if \<Rightarrow> 'w env \<Rightarrow> (Address option \<Rightarrow> int) \<Rightarrow> (Address option \<Rightarrow> int) \<Rightarrow> bool" for tk where
  acc_deployed: "inst e = empty_inst \<Longrightarrow> pers e = empty_pers \<Longrightarrow> accounted tk e (\<lambda>_. 0) (\<lambda>_. 0)"
| acc_called: "accounted tk e D P \<Longrightarrow> well_typed c \<Longrightarrow> exec_call tk c e = Ok r e' \<Longrightarrow>
    accounted tk e' (\<lambda>k. D k + rewards_in e c k) (\<lambda>k. P k + rewards_out c r k)"
| acc_elapsed: "accounted tk e D P \<Longrightarrow> inst e' = inst e \<Longrightarrow> pers e' = pers e \<Longrightarrow>
    contract_address e' = contract_address e \<Longrightarrow> timestamp e \<le> timestamp e' \<Longrightarrow> accounted tk e' D P"

lemma accounted_reachable: "accounted tk e D P \<Longrightarrow> reachable tk e"
  by (induction rule: accounted.induct) (blast intro: reachable.intros)+

section \<open>Inside a call\<close>

text \<open>The region inside the guard, with the net rewards its ledger operations bring into each pool.\<close>

inductive flow :: "'w token_if \<Rightarrow> 'w env \<Rightarrow> (Address option \<Rightarrow> int) \<Rightarrow> 'w env \<Rightarrow> bool" for tk where
  fl_refl: "flow tk e (\<lambda>_. 0) e"
| fl_emit: "flow tk e N e' \<Longrightarrow> flow tk e N (emit ts d e')"
| fl_ttl: "flow tk e N e' \<Longrightarrow> flow tk e N (log_ttl ks e')"
| fl_transfer: "flow tk e N e' \<Longrightarrow> tk_transfer tk t a b n e' = Some e'' \<Longrightarrow> flow tk e N e''"
| fl_balance: "flow tk e N e' \<Longrightarrow> tk_balance tk t a e' = Some (n, e'') \<Longrightarrow> flow tk e N e''"
| fl_native: "flow tk e N e' \<Longrightarrow> native_exec e' op e'' \<Longrightarrow>
    flow tk e (\<lambda>k. N k + (if k = None then paid_in op - paid_out op else 0)) e''"
| fl_unlock: "flow tk e N e' \<Longrightarrow> 0 \<le> l \<Longrightarrow> unlock_expired_locks u l e' = Ok n e'' \<Longrightarrow> flow tk e N e''"
| fl_asset: "flow tk e N e' \<Longrightarrow> asset_exec x e' op e'' \<Longrightarrow>
    flow tk e (\<lambda>k. N k + (if k = Some x then paid_in op - paid_out op else 0)) e''"

lemma flow_inside: "flow tk e N e' \<Longrightarrow> inside tk e e'"
  by (induction rule: flow.induct) (blast intro: inside.intros)+

lemma flow_paid: "flow tk e N e1 \<Longrightarrow> paid_reward tk u ts d v x e1 e2 \<Longrightarrow> flow tk e N e2"
  unfolding paid_reward_def
proof (elim disjE exE conjE)
  fix t b ks e3 e4
  assume "flow tk e N e1"
    and b: "tk_balance tk t (contract_address e1) (log_ttl ks e1) = Some (b, e3)"
    and t: "tk_transfer tk t (contract_address e1) u v e3 = Some e4" and e2: "e2 = emit ts d e4"
  then show ?thesis unfolding e2 by (intro fl_emit fl_transfer [OF fl_balance [OF fl_ttl b] t])
qed simp

lemma pool_of_vault_frame: "vault_frame e e' \<Longrightarrow> pool_of k e' = pool_of k e"
  by (cases k) (simp_all add: vault_frame_pools)

lemma pool_of_native_frame: "native_frame e e' \<Longrightarrow> k \<noteq> None \<Longrightarrow> pool_of k e' = pool_of k e"
  by (cases k) (simp_all add: native_frameD)

lemma pool_of_asset_frame: "asset_frame x e e' \<Longrightarrow> k \<noteq> Some x \<Longrightarrow> pool_of k e' = pool_of k e"
  by (cases k) (simp_all add: asset_frameD)

lemma pool_of_cong [simp]:
  "pool_of k (log_ttl ks e) = pool_of k e" "pool_of k (emit ts d e) = pool_of k e"
  "pool_of k (set_guard b e) = pool_of k e"
  by (cases k; simp)+

text \<open>What is owed to the depositors of a pool grows by no more than the net rewards brought in.\<close>

lemma native_exec_liability:
  assumes "native_exec e op e'" "busy_inv e"
  shows "liability (pool_of k e') \<le> liability (pool_of k e) +
    (if k = None then paid_in op - paid_out op else 0) * REWARD_INDEX_SCALE"
proof (cases k)
  case None
  have ok: "native_ok e" using assms(2) by (simp add: busy_inv_def)
  from pool_step_liability [OF native.exec_refines [OF ok assms(1)] native.ok_pool [OF ok]] None
  show ?thesis by (simp add: left_diff_distrib)
next
  case (Some x)
  with busy_native_exec [OF assms] pool_of_native_frame [of e e' k] show ?thesis by simp
qed

lemma asset_exec_liability:
  assumes "asset_exec x e op e'" "busy_inv e"
  shows "liability (pool_of k e') \<le> liability (pool_of k e) +
    (if k = Some x then paid_in op - paid_out op else 0) * REWARD_INDEX_SCALE"
proof (cases "k = Some x")
  case True
  have ok: "asset_ok x e" using assms(2) by (simp add: busy_inv_def)
  from pool_step_liability [OF asset.exec_refines [OF ok assms(1)] asset.ok_pool [OF ok]] True
  show ?thesis by (simp add: left_diff_distrib)
next
  case False
  with busy_asset_exec [OF assms] pool_of_asset_frame [of x e e' k] show ?thesis by simp
qed

lemma flow_liability:
  "flow tk e N e' \<Longrightarrow> host_token tk \<Longrightarrow> busy_inv e \<Longrightarrow>
     liability (pool_of k e') \<le> liability (pool_of k e) + N k * REWARD_INDEX_SCALE"
proof (induction rule: flow.induct)
  case (fl_transfer e N e' t a b n e'')
  then have "busy_inv e'" using inside_busy flow_inside by blast
  with fl_transfer busy_transfer pool_of_vault_frame show ?case by metis
next
  case (fl_balance e N e' t a n e'')
  then have "busy_inv e'" using inside_busy flow_inside by blast
  with fl_balance busy_balance pool_of_vault_frame show ?case by metis
next
  case (fl_native e N e' op e'')
  then have "busy_inv e'" using inside_busy flow_inside by blast
  from native_exec_liability [OF fl_native.hyps(2) this, of k] fl_native show ?case
    by (simp add: distrib_right)
next
  case (fl_unlock e N e' l u n e'')
  then have ok: "native_ok e'" using inside_busy flow_inside unfolding busy_inv_def by blast
  have "pool_of k e'' = pool_of k e'"
  proof (cases k)
    case None
    then show ?thesis using unlock_expired_locks_pool(1) [OF ok fl_unlock.hyps(2,3)] by simp
  next
    case (Some x)
    then show ?thesis using pool_of_native_frame unlock_frame [OF ok fl_unlock.hyps(2,3)] by blast
  qed
  with fl_unlock show ?case by simp
next
  case (fl_asset e N e' x op e'')
  then have "busy_inv e'" using inside_busy flow_inside by blast
  from asset_exec_liability [OF fl_asset.hyps(2) this, of k] fl_asset show ?case
    by (simp add: distrib_right)
qed simp_all

section \<open>The flow of each call\<close>

definition guarded_flow :: "'w token_if \<Rightarrow> 'w env \<Rightarrow> (Address option \<Rightarrow> int) \<Rightarrow> 'w env \<Rightarrow> bool" where
  "guarded_flow tk e N e' \<longleftrightarrow> is_initialized e \<and>
     (\<exists>ks N' e1. flow tk (log_ttl ks (set_guard True e)) N' e1 \<and> (\<forall>k. N' k = N k) \<and> e' = log_ttl ttl_inst (set_guard False e1))"

lemma guarded_flowI:
  "is_initialized e \<Longrightarrow> flow tk (log_ttl ks (set_guard True e)) N' e1 \<Longrightarrow>
     e' = log_ttl ttl_inst (set_guard False e1) \<Longrightarrow> (\<And>k. N' k = N k) \<Longrightarrow> guarded_flow tk e N e'"
  unfolding guarded_flow_def by blast

lemma guarded_flow_liability:
  assumes "guarded_flow tk e N e'" "host_token tk" "vault_inv e"
  shows "liability (pool_of k e') \<le> liability (pool_of k e) + N k * REWARD_INDEX_SCALE"
proof -
  obtain ks N' e1 where i: "is_initialized e" and f: "flow tk (log_ttl ks (set_guard True e)) N' e1" "N' k = N k"
    and e': "e' = log_ttl ttl_inst (set_guard False e1)"
    using assms(1) unfolding guarded_flow_def by blast
  from flow_liability [OF f(1) assms(2) busy_enter [OF assms(3) i], of k] f(2) e' show ?thesis by simp
qed

lemma deposit_flow:
  assumes "deposit tk u n e = Ok x e'" shows "guarded_flow tk e (\<lambda>_. 0) e'"
  using assms
  by (rule deposit_Ok)
    (rule guarded_flowI, assumption, rule fl_emit [OF fl_native [OF fl_transfer [OF fl_refl]]],
      assumption, rule exec_deposit, assumption+, simp)

lemma withdraw_flow:
  assumes "withdraw tk u n e = Ok x e'" shows "guarded_flow tk e (\<lambda>_. 0) e'"
  using assms
  by (rule withdraw_Ok)
    (rule guarded_flowI, assumption, rule fl_transfer [OF fl_emit [OF fl_native [OF fl_refl]]],
      rule exec_withdraw, assumption+, simp)

lemma lock_flow:
  assumes "lock u n d e = Ok x e'" shows "guarded_flow tk e (\<lambda>_. 0) e'"
  using assms
  by (rule lock_Ok)
    (rule guarded_flowI, assumption, rule fl_emit [OF fl_native [OF fl_refl]], rule exec_lock, assumption+, simp)

lemma unlock_flow:
  assumes "unlock_expired u l e = Ok n e'" and l: "0 \<le> l" shows "guarded_flow tk e (\<lambda>_. 0) e'"
  using assms(1)
proof (rule unlock_expired_Ok)
  fix ks e1 e2
  assume i: "is_initialized e"
    and st: "unlock_expired_locks u l (log_ttl ks (set_guard True e)) = Ok n e1"
    and e2: "e2 = (if 0 < n then emit [PROTOCOL, ACT_UNLOCK] (UnlockEvent u n) e1 else e1)"
    and e': "e' = log_ttl ttl_inst (set_guard False e2)"
  have "flow tk (log_ttl ks (set_guard True e)) (\<lambda>_. 0) e1" by (rule fl_unlock [OF fl_refl l st])
  then have "flow tk (log_ttl ks (set_guard True e)) (\<lambda>_. 0) e2" unfolding e2 by (simp add: fl_emit)
  then show ?thesis by (rule guarded_flowI [OF i _ e']) simp
qed

lemma deposit_asset_flow:
  assumes "deposit_asset tk u y n e = Ok x e'" shows "guarded_flow tk e (\<lambda>_. 0) e'"
  using assms
  by (rule deposit_asset_Ok)
    (rule guarded_flowI, assumption, rule fl_emit [OF fl_asset [OF fl_transfer [OF fl_refl]]],
      assumption, rule asset_deposit, assumption+, simp)

lemma withdraw_asset_flow:
  assumes "withdraw_asset tk u y n e = Ok x e'" shows "guarded_flow tk e (\<lambda>_. 0) e'"
  using assms
  by (rule withdraw_asset_Ok)
    (rule guarded_flowI, assumption, rule fl_transfer [OF fl_emit [OF fl_asset [OF fl_refl]]],
      rule asset_withdraw, assumption+, simp)

lemma distribute_for_asset_flow:
  assumes "distribute_rewards_for_asset tk a y n e = Ok x e'"
  shows "guarded_flow tk e (\<lambda>k. if k = Some y then n else 0) e'"
  using assms
  by (rule distribute_for_asset_Ok)
    (rule guarded_flowI, assumption, rule fl_emit [OF fl_asset [OF fl_transfer [OF fl_refl]]],
      assumption, rule asset_distribute, assumption+, simp)

lemma effective_amount_frame: "vault_frame e e' \<Longrightarrow> effective_amount e' n = effective_amount e n"
  by (simp add: effective_amount_def vault_frame_def)

lemma effective_amount_cong [simp]:
  "effective_amount (log_ttl ks e) n = effective_amount e n" "effective_amount (set_guard b e) n = effective_amount e n"
  by (simp_all add: effective_amount_def)

lemma distribute_flow:
  assumes "distribute_rewards tk n e = Ok x e'" and n: "in_i128 n" and tk: "host_token tk" and inv: "vault_inv e"
  shows "guarded_flow tk e (\<lambda>k. if k = None then effective_amount e n else 0) e'"
  using assms(1)
proof (rule distribute_rewards_Ok)
  fix ks a t e1 e2 s
  assume i: "is_initialized e"
    and t: "tk_transfer tk t a (contract_address e) n (log_ttl ks (set_guard True e)) = Some e1"
    and st: "store_reward_distribution n e1 = Ok s e2" and pos: "0 < n"
    and e': "e' = log_ttl ttl_inst (set_guard False (emit [PROTOCOL, ACT_DISTRIBUTE] (DistributeEvent a n) e2))"
  obtain m where m: "calculate_utilization_multiplier (p_total (native_pool e1))
      (unwrap_or 0 (k_TargetDeposits (inst e1))) (unwrap_or [] (k_UtilizationMultipliers (inst e1))) = Inr m"
    using store_reward_distribution_Ok [OF st _ n] pos by (metis less_imp_le)
  have ex: "native_exec e1 (PDistribute (n * m div 10000)) e2" by (rule exec_distribute [OF _ n st m]) (use pos in simp)
  have "vault_frame (log_ttl ks (set_guard True e)) e1" using busy_transfer [OF tk busy_enter [OF inv i] t] by simp
  from effective_amount_frame [OF this, of n] m have eff: "effective_amount e n = n * m div 10000"
    by (simp add: effective_amount_def native_pool_def)
  show ?thesis
    by (rule guarded_flowI [OF i fl_emit [OF fl_native [OF fl_transfer [OF fl_refl t] ex]] e']) (simp add: eff)
qed

lemma paid_reward_value: "paid_reward tk u ts d v x e1 e2 \<Longrightarrow> 0 \<le> v \<Longrightarrow> x = v"
  by (auto simp: paid_reward_def)

lemma claim_flow:
  assumes "claim_rewards tk u e = Ok x e'" and inv: "vault_inv e"
  shows "guarded_flow tk e (\<lambda>k. - (if k = None then x else 0)) e'"
  using assms(1)
proof (rule claim_rewards_Ok)
  fix ks v e1 e2
  assume i: "is_initialized e" and st: "store_claimable_rewards u (log_ttl ks (set_guard True e)) = Ok v e1"
    and pay: "paid_reward tk u [PROTOCOL, ACT_CLAIM] (ClaimEvent u v) v x e1 e2"
    and e': "e' = log_ttl ttl_inst (set_guard False e2)"
  have ok: "native_ok (log_ttl ks (set_guard True e))" using inv by (simp add: vault_inv_def)
  have "0 \<le> v" using native.exec_refines [OF ok exec_claim [OF st]] by (auto elim: pool_step.cases)
  from paid_reward_value [OF pay this] show ?thesis
    by (intro guarded_flowI [OF i flow_paid [OF fl_native [OF fl_refl exec_claim [OF st]] pay] e']) simp
qed

lemma claim_for_asset_flow:
  assumes "claim_rewards_for_asset tk u y e = Ok x e'" and inv: "vault_inv e"
  shows "guarded_flow tk e (\<lambda>k. - (if k = Some y then x else 0)) e'"
  using assms(1)
proof (rule claim_for_asset_Ok)
  fix ks v e1 e2
  assume i: "is_initialized e" and st: "store_asset_claimable_rewards u y (log_ttl ks (set_guard True e)) = Ok v e1"
    and pay: "paid_reward tk u [PROTOCOL, ACT_ASSET_CLAIM] (AssetClaimEvent u y v) v x e1 e2"
    and e': "e' = log_ttl ttl_inst (set_guard False e2)"
  have ok: "asset_ok y (log_ttl ks (set_guard True e))" using inv by (simp add: vault_inv_def)
  have "0 \<le> v" using asset.exec_refines [OF ok asset_claim [OF st]] by (auto elim: pool_step.cases)
  from paid_reward_value [OF pay this] show ?thesis
    by (intro guarded_flowI [OF i flow_paid [OF fl_asset [OF fl_refl asset_claim [OF st]] pay] e']) simp
qed

lemma guarded_call_flow:
  assumes "exec_call tk c e = Ok r e'" "guarded c" "well_typed c" "host_token tk" "vault_inv e"
  shows "guarded_flow tk e (\<lambda>k. rewards_in e c k - rewards_out c r k) e'"
  using assms deposit_flow withdraw_flow lock_flow unlock_flow deposit_asset_flow withdraw_asset_flow
    distribute_for_asset_flow distribute_flow claim_flow claim_for_asset_flow
  by (cases c) (auto simp: unit_result_Ok in_u32_def)

section \<open>Claims are covered\<close>

lemma pool_of_stores: "inst e' = inst e \<Longrightarrow> pers e' = pers e \<Longrightarrow> pool_of k e' = pool_of k e"
  by (cases k) (simp_all add: native_pool_def asset_pool_def)

lemma unguarded_accounts: "\<not> guarded c \<Longrightarrow> rewards_in e c k = 0 \<and> rewards_out c r k = 0"
  by (cases c) simp_all

lemma unguarded_pools:
  assumes run: "exec_call tk c e = Ok r e'" and c: "\<not> guarded c" and inv: "vault_inv e"
  shows "pool_of k e' = pool_of k e"
proof (cases "is_initialized e")
  case True
  have "vault_frame e e'" using unguarded_frame [OF run c True] inv by (simp add: vault_inv_def)
  then show ?thesis by (rule pool_of_vault_frame)
next
  case False
  with unguarded_initialized [OF run c] obtain a d q v t m where i: "c = Initialize a d q v t m" by blast
  from inv False have emp: "native_pool e = empty_pool" by (simp add: vault_inv_def)
  from run i have "initialize a d q v t m e = Ok () e'" by (simp add: unit_result_Ok)
  from initialize_Ok(6) [OF this] emp show ?thesis
    by (cases k) (simp_all add: native_pool_def asset_pool_def empty_pool_def)
qed

lemma call_liability:
  assumes "exec_call tk c e = Ok r e'" "well_typed c" "host_token tk" "vault_inv e"
  shows "liability (pool_of k e') \<le>
    liability (pool_of k e) + (rewards_in e c k - rewards_out c r k) * REWARD_INDEX_SCALE"
proof (cases "guarded c")
  case True
  from guarded_flow_liability [OF guarded_call_flow [OF assms(1) True assms(2-4)] assms(3,4)] show ?thesis .
next
  case False
  with unguarded_pools [OF assms(1) False assms(4)] unguarded_accounts [of c e k r] show ?thesis by simp
qed

lemma liability_empty_pool [simp]: "liability empty_pool = 0"
  by (simp add: liability_def owed_def empty_pool_def total_of_def support_def)

lemma accounted_liability:
  "accounted tk e D P \<Longrightarrow> host_token tk \<Longrightarrow> liability (pool_of k e) \<le> (D k - P k) * REWARD_INDEX_SCALE"
proof (induction rule: accounted.induct)
  case (acc_deployed e)
  then have "pool_of k e = empty_pool"
    by (cases k) (simp_all add: native_pool_def asset_pool_def empty_pool_def empty_inst_def empty_pers_def)
  then show ?case by simp
next
  case (acc_called e D P c r e')
  have "vault_inv e" using reachable_inv accounted_reachable acc_called by blast
  from call_liability [OF acc_called.hyps(3,2) acc_called.prems this, of k] acc_called.IH [OF acc_called.prems]
  show ?case by (simp add: algebra_simps)
next
  case (acc_elapsed e D P e')
  then show ?case using pool_of_stores [of e' e k] by simp
qed

lemma accounted_covered:
  assumes "accounted tk e D P" "host_token tk"
  shows "P k \<le> D k"
proof -
  have inv: "vault_inv e" by (rule reachable_inv [OF accounted_reachable [OF assms(1)] assms(2)])
  then have "pool_inv (pool_of k e)"
    by (cases k) (auto simp: vault_inv_def intro: native_okD(1) asset_okD(1))
  from liability_nonneg [OF this] accounted_liability [OF assms, of k]
  have "0 \<le> (D k - P k) * REWARD_INDEX_SCALE" by linarith
  then show ?thesis by (simp add: zero_le_mult_iff REWARD_INDEX_SCALE_def PRECISION_FACTOR_def)
qed

end
