(* ===== verification/Vault_Demo.thy ===== *)
theory Vault_Demo
  imports Vault_Accounts
begin

text \<open>
  A concrete ledger to evaluate the contract on: a standard token kept as a table of
  balances, and a vault deployed, initialised and used on it.
\<close>

type_synonym ledger = "((Address \<times> Address) \<times> int) list"

text \<open>The vault starts with nothing, every other holder with a million of each token.\<close>

definition held :: "Address \<Rightarrow> Address \<Rightarrow> ledger \<Rightarrow> int" where
  "held t a w = unwrap_or (if a = ''vault'' then 0 else 1000000) (map_of w (t, a))"

definition ledger_token :: "ledger token_if" where
  "ledger_token =
     \<lparr> tk_transfer = (\<lambda>t a b n e.
         if 0 \<le> n \<and> n \<le> held t a (world e)
         then Some (let w = ((t, a), held t a (world e) - n) # world e
                    in e\<lparr>world := ((t, b), held t b w + n) # w\<rparr>)
         else None),
       tk_balance = (\<lambda>t a e. Some (held t a (world e), e)) \<rparr>"

lemma held_Cons: "held t a (((s, h), n) # w) = (if s = t \<and> h = a then n else held t a w)"
  by (auto simp: held_def)

lemma ledger_token_sep41: "sep41 ledger_token held"
  unfolding sep41_def
proof (intro conjI allI impI)
  fix t a b n and e e' :: "ledger env"
  assume *: "tk_transfer ledger_token t a b n e = Some e'"
  show "\<exists>w. e' = e\<lparr>world := w\<rparr> \<and> 0 \<le> n \<and> n \<le> held t a (world e) \<and>
     (\<forall>s h. held s h w = held s h (world e) - (if s = t \<and> h = a then n else 0) + (if s = t \<and> h = b then n else 0))"
    by (rule exI [of _ "world e'"])
      (use * in \<open>auto simp: ledger_token_def Let_def held_Cons split: if_splits\<close>)
qed (auto simp: ledger_token_def)

lemma ledger_token_host: "host_token ledger_token"
  by (rule sep41_host [OF ledger_token_sep41])

definition demo_env :: "ledger env" where
  "demo_env =
     \<lparr> inst = empty_inst, pers = empty_pers, timestamp = 1000, authorized = (\<lambda>a. a \<noteq> ''vault''),
       contract_address = ''vault'', event_log = [], ttl_log = [], wasm = ''v1'',
       world = [] \<rparr>"

abbreviation call_demo :: "call \<Rightarrow> ledger env \<Rightarrow> ledger env" where
  "call_demo \<equiv> invoke ledger_token"

definition demo_init :: "ledger env" where
  "demo_init = call_demo (Initialize ''admin'' ''usd'' ''rwd'' 100 0 []) demo_env"

definition demo_live :: "ledger env" where
  "demo_live = call_demo (Deposit ''alice'' 500) demo_init"

definition demo_rewarded :: "ledger env" where
  "demo_rewarded = call_demo (DistributeRewards 100000) demo_live"

definition demo_locked :: "ledger env" where
  "demo_locked = (call_demo (LockCall ''alice'' 200 60) demo_live)\<lparr>timestamp := 1100\<rparr>"

definition demo_vesting :: "ledger env" where
  "demo_vesting = (call_demo (ClaimRewards ''alice'') demo_rewarded)\<lparr>timestamp := 1050\<rparr>"

lemma demo_total: "unwrap_or 0 (k_TotalDeposits (inst demo_live)) = 500"
  by code_simp

lemma demo_index: "unwrap_or 0 (k_RewardIndex (inst demo_rewarded)) = 200000000000"
  by code_simp

lemma demo_env_reachable: "reachable ledger_token demo_env"
  by (rule deployed) (simp_all add: demo_env_def held_def)

lemma demo_init_reachable: "reachable ledger_token demo_init"
  unfolding demo_init_def
  by (rule reachable_invoke [OF _ demo_env_reachable]) (simp add: in_u64_def)

lemma demo_live_reachable: "reachable ledger_token demo_live"
  unfolding demo_live_def
  by (rule reachable_invoke [OF _ demo_init_reachable]) (simp add: in_i128_def)

lemma demo_rewarded_reachable: "reachable ledger_token demo_rewarded"
  unfolding demo_rewarded_def
  by (rule reachable_invoke [OF _ demo_live_reachable]) (simp add: in_i128_def)

lemmas demo_inv =
  reachable_inv [OF demo_init_reachable ledger_token_host]
  reachable_inv [OF demo_live_reachable ledger_token_host]
  reachable_inv [OF demo_rewarded_reachable ledger_token_host]

lemma demo_locked_inv: "vault_inv demo_locked"
proof -
  have "reachable ledger_token (call_demo (LockCall ''alice'' 200 60) demo_live)"
    by (rule reachable_invoke [OF _ demo_live_reachable]) (simp add: in_i128_def in_u64_def)
  moreover have "timestamp (call_demo (LockCall ''alice'' 200 60) demo_live) \<le> timestamp demo_locked" by code_simp
  ultimately have "reachable ledger_token demo_locked"
    unfolding demo_locked_def by (rule_tac elapsed) simp_all
  then show ?thesis by (rule reachable_inv [OF _ ledger_token_host])
qed

lemma custodial_invoke:
  "well_typed c \<Longrightarrow> \<not> authorized e (contract_address e) \<Longrightarrow> custodial tk bal e \<Longrightarrow> custodial tk bal (invoke tk c e)"
  by (auto simp: invoke_def split: outcome.splits intro: cust_called)

lemma demo_live_custodial: "custodial ledger_token held demo_live"
proof -
  have "custodial ledger_token held demo_env"
    by (rule cust_deployed) (simp_all add: demo_env_def held_def)
  then have "custodial ledger_token held demo_init"
    unfolding demo_init_def by (rule custodial_invoke [rotated 2]) (simp_all add: in_u64_def demo_env_def)
  moreover have "\<not> authorized demo_init (contract_address demo_init)" by code_simp
  ultimately show ?thesis
    unfolding demo_live_def by (intro custodial_invoke) (simp_all add: in_i128_def)
qed

section \<open>Storage operations on the demo ledger\<close>

fun ok_value :: "('a, 'w) outcome \<Rightarrow> 'a option" where
  "ok_value (Ok x e) = Some x"
| "ok_value (Err er e) = None"
| "ok_value (Trap t) = None"

fun err_value :: "('a, 'w) outcome \<Rightarrow> VaultError option" where
  "err_value (Err er e) = Some er"
| "err_value (Ok x e) = None"
| "err_value (Trap t) = None"

definition after :: "('a, 'w) vm \<Rightarrow> 'w env \<Rightarrow> 'w env" where
  "after m e = (case m e of Ok x e' \<Rightarrow> e' | Err er e' \<Rightarrow> e | Trap t \<Rightarrow> e)"

lemma ok_value_after: "ok_value (m e) = Some v \<Longrightarrow> m e = Ok v (after m e)"
  by (cases "m e") (simp_all add: after_def)

lemma ok_after: "ok_value (m e) \<noteq> None \<Longrightarrow> \<exists>v. m e = Ok v (after m e)"
  using ok_value_after by fastforce

text \<open>A vault without vesting: a deposit, a distribution and a claim, natively and for an asset.\<close>

definition flat0 :: "ledger env" where
  "flat0 = call_demo (AddAsset ''admin'' ''eur'')
     (call_demo (Initialize ''admin'' ''usd'' ''rwd'' 0 0 []) demo_env)"

definition flat1 :: "ledger env" where
  "flat1 = after (store_deposit ''alice'' 500) flat0"

definition flat2 :: "ledger env" where
  "flat2 = after (store_reward_distribution 100000) flat1"

definition flat3 :: "ledger env" where
  "flat3 = after (store_claimable_rewards ''alice'') flat2"

lemma flat_ok:
  "ok_value (store_deposit ''alice'' 500 flat0) \<noteq> None"
  "ok_value (store_reward_distribution 100000 flat1) \<noteq> None"
  "ok_value (store_claimable_rewards ''alice'' flat2) = Some 100000"
  by code_simp+

lemma flat0_inv: "vault_inv flat0"
proof -
  have "reachable ledger_token (call_demo (Initialize ''admin'' ''usd'' ''rwd'' 0 0 []) demo_env)"
    by (rule reachable_invoke [OF _ demo_env_reachable]) (simp add: in_u64_def)
  then have "reachable ledger_token flat0"
    unfolding flat0_def by (rule reachable_invoke [rotated]) simp
  then show ?thesis by (rule reachable_inv [OF _ ledger_token_host])
qed

lemma invoke_unguarded_pers: "\<not> guarded c \<Longrightarrow> pers (invoke tk c e) = pers e"
  by (auto simp: invoke_def split: outcome.split dest: unguarded_world)

lemma flat_execs:
  "native_exec flat0 (PDeposit ''alice'' 500) flat1"
  "native_exec flat1 (PDistribute 100000) flat2"
  "native_exec flat2 (PClaim ''alice'' 100000) flat3"
proof -
  obtain r s where d: "store_deposit ''alice'' 500 flat0 = Ok r flat1"
    and t: "store_reward_distribution 100000 flat1 = Ok s flat2"
    using ok_after flat_ok(1,2) unfolding flat1_def flat2_def by metis
  have c: "store_claimable_rewards ''alice'' flat2 = Ok 100000 flat3"
    using ok_value_after [of "store_claimable_rewards ''alice''" flat2] flat_ok(3) unfolding flat3_def by blast
  have m: "calculate_utilization_multiplier (p_total (native_pool flat1))
      (unwrap_or 0 (k_TargetDeposits (inst flat1))) (unwrap_or [] (k_UtilizationMultipliers (inst flat1))) = Inr 10000"
    by code_simp
  show "native_exec flat1 (PDistribute 100000) flat2"
    using exec_distribute [OF _ _ t m] by (simp add: in_i128_def)
  show "native_exec flat0 (PDeposit ''alice'' 500) flat1" using exec_deposit [OF _ d] by simp
  show "native_exec flat2 (PClaim ''alice'' 100000) flat3" by (rule exec_claim [OF c])
qed

lemma flat_native_ok: "native_ok flat0" "native_ok flat1" "native_ok flat2"
proof -
  show ok0: "native_ok flat0" using flat0_inv by (simp add: vault_inv_def)
  show ok1: "native_ok flat1" using native_exec_step [OF flat_execs(1) ok0] by blast
  show "native_ok flat2" using native_exec_step [OF flat_execs(2) ok1] by blast
qed

section \<open>A history with vesting\<close>

text \<open>
  Native rewards are distributed, claimed at once, when nothing has vested, and claimed again
  after the vesting period.
\<close>

lemma accounted_invoke:
  assumes "accounted tk e D P" "well_typed c" "ok_value (exec_call tk c e) = Some r"
  shows "accounted tk (invoke tk c e) (\<lambda>k. D k + rewards_in e c k) (\<lambda>k. P k + rewards_out c r k)"
proof -
  from assms(3) obtain e' where "exec_call tk c e = Ok r e'" by (cases "exec_call tk c e") auto
  with acc_called [OF assms(1,2) this] show ?thesis by (simp add: invoke_def)
qed

lemma accounted_idle:
  assumes "accounted tk e D P" "well_typed c" "\<And>r. rewards_in e c = (\<lambda>_. 0) \<and> rewards_out c r = (\<lambda>_. 0)"
  shows "accounted tk (invoke tk c e) D P"
proof (cases "exec_call tk c e")
  case (Ok r e')
  with acc_called [OF assms(1,2) this] assms(3) [of r] show ?thesis by (simp add: invoke_def)
qed (use assms(1) in \<open>simp_all add: invoke_def\<close>)

definition demo_unvested :: "ledger env" where
  "demo_unvested = call_demo (ClaimRewards ''alice'') demo_rewarded"

definition demo_claimed :: "ledger env" where
  "demo_claimed = call_demo (ClaimRewards ''alice'') (demo_unvested\<lparr>timestamp := 1200\<rparr>)"

lemma demo_calls:
  "ok_value (exec_call ledger_token (DistributeRewards 100000) demo_live) = Some 200000000000"
  "ok_value (exec_call ledger_token (ClaimRewards ''alice'') demo_rewarded) = Some 0"
  "ok_value (exec_call ledger_token (ClaimRewards ''alice'') (demo_unvested\<lparr>timestamp := 1200\<rparr>)) = Some 100000"
  "effective_amount demo_live 100000 = 100000" "timestamp demo_unvested = 1000"
  by code_simp+

lemma demo_env_accounted: "accounted ledger_token demo_env (\<lambda>_. 0) (\<lambda>_. 0)"
  by (rule acc_deployed) (simp_all add: demo_env_def held_def)

lemma demo_claimed_accounted:
  "accounted ledger_token demo_claimed (\<lambda>k. if k = None then 100000 else 0) (\<lambda>k. if k = None then 100000 else 0)"
proof -
  have "accounted ledger_token demo_live (\<lambda>_. 0) (\<lambda>_. 0)"
    unfolding demo_live_def demo_init_def
    by (intro accounted_idle demo_env_accounted) (simp_all add: fun_eq_iff in_u64_def in_i128_def)
  from accounted_invoke [OF this _ demo_calls(1), folded demo_rewarded_def]
  have "accounted ledger_token demo_rewarded (\<lambda>k. if k = None then 100000 else 0) (\<lambda>_. 0)"
    by (simp add: in_i128_def demo_calls(4) cong: if_cong)
  from accounted_invoke [OF this _ demo_calls(2), folded demo_unvested_def]
  have "accounted ledger_token demo_unvested (\<lambda>k. if k = None then 100000 else 0) (\<lambda>_. 0)" by simp
  then have "accounted ledger_token (demo_unvested\<lparr>timestamp := 1200\<rparr>) (\<lambda>k. if k = None then 100000 else 0) (\<lambda>_. 0)"
    by (rule acc_elapsed) (simp_all add: demo_calls(5))
  from accounted_invoke [OF this _ demo_calls(3), folded demo_claimed_def] show ?thesis by simp
qed

text \<open>The same for an asset, without vesting.\<close>

definition eur_live :: "ledger env" where
  "eur_live = call_demo (DepositAsset ''bob'' ''eur'' 400) flat0"

definition eur_rewarded :: "ledger env" where
  "eur_rewarded = call_demo (DistributeRewardsForAsset ''admin'' ''eur'' 100000) eur_live"

definition eur_claimed :: "ledger env" where
  "eur_claimed = call_demo (ClaimRewardsForAsset ''bob'' ''eur'') eur_rewarded"

lemma eur_calls:
  "ok_value (exec_call ledger_token (DistributeRewardsForAsset ''admin'' ''eur'' 100000) eur_live) = Some 250000000000"
  "ok_value (exec_call ledger_token (ClaimRewardsForAsset ''bob'' ''eur'') eur_rewarded) = Some 100000"
  by code_simp+

lemma eur_claimed_accounted:
  "accounted ledger_token eur_claimed (\<lambda>k. if k = Some ''eur'' then 100000 else 0)
     (\<lambda>k. if k = Some ''eur'' then 100000 else 0)"
proof -
  have "accounted ledger_token eur_live (\<lambda>_. 0) (\<lambda>_. 0)"
    unfolding eur_live_def flat0_def
    by (intro accounted_idle demo_env_accounted) (simp_all add: fun_eq_iff in_u64_def in_i128_def)
  from accounted_invoke [OF this _ eur_calls(1), folded eur_rewarded_def]
  have "accounted ledger_token eur_rewarded (\<lambda>k. if k = Some ''eur'' then 100000 else 0) (\<lambda>_. 0)"
    by (simp add: in_i128_def cong: if_cong)
  from accounted_invoke [OF this _ eur_calls(2), folded eur_claimed_def] show ?thesis by (simp cong: if_cong)
qed

end
