(* ===== verification/Vault_Liveness.thy ===== *)
theory Vault_Liveness
  imports Vault_Demo
begin

text \<open>
  When the storage operations succeed: on a good state the only causes of failure are the
  ones the code names, and each is excluded by an explicit range condition.
\<close>

section \<open>Accrual and loading\<close>

text \<open>The range in which settling a user's rewards cannot overflow.\<close>

definition accrual_fits :: "Address pool \<Rightarrow> Address \<Rightarrow> bool" where
  "accrual_fits p u \<longleftrightarrow>
     in_i128 (p_bal p u * (p_idx p - p_uidx p u)) \<and> in_i128 (p_acc (settle u p) u)"

lemma accrue_runs:
  assumes "0 \<le> up_balance q" "up_reward_index q \<le> idx"
    and prod: "in_i128 (up_balance q * (idx - up_reward_index q))"
    and acc: "in_i128 (up_accrued_rewards q + earned (up_balance q) (up_reward_index q) idx)"
  shows "\<exists>q'. accrue_asset_position_rewards now idx q = Inr q'"
proof (cases "idx = up_reward_index q \<or> up_balance q = 0")
  case True
  then show ?thesis by (simp add: accrue_asset_position_rewards_def)
next
  case False
  then have b: "1 \<le> up_balance q" and d: "0 \<le> idx - up_reward_index q" using assms(1,2) by simp_all
  have "1 * (idx - up_reward_index q) \<le> up_balance q * (idx - up_reward_index q)"
    by (rule mult_right_mono [OF b d])
  then have delta: "in_i128 (idx - up_reward_index q)"
    using in_i128_between [OF prod d] by simp
  have nn: "0 \<le> up_balance q * (idx - up_reward_index q)" using assms(1) d by simp
  then have "in_i128 (up_balance q * (idx - up_reward_index q) div REWARD_INDEX_SCALE)"
    by (intro in_i128_between [OF prod]) (auto simp: pos_imp_zdiv_nonneg_iff div_le_self_nonneg)
  moreover have "REWARD_INDEX_SCALE \<noteq> 0" using scale_pos by linarith
  ultimately show ?thesis
    using False delta prod acc nn b
    by (auto simp: accrue_asset_position_rewards_def checked_accrued_rewards_def int_simps earned_def rok_or_def
        checked_def rbind_def)
qed

lemma load_settled_runs:
  assumes ok: "native_ok e" and st: "is_initialized e" "k_Admin (inst e) = Some a" "k_DepositToken (inst e) = Some d"
    "k_RewardToken (inst e) = Some r" and fits: "accrual_fits (native_pool e) u"
  obtains ks q where "load_settled u e = Ok (state_of (inst e) a d r, q) (log_ttl ks e)"
    "settled_by e u q" "up_balance q = p_bal (native_pool e) u" "in_i128 (up_accrued_rewards q)"
proof -
  let ?e = "log_ttl ttl_inst e" let ?q = "position_of (pers e) u (p_bal (native_pool e) u)"
  have gs: "get_state e = Ok (state_of (inst e) a d r) ?e" by (rule get_state_run [OF st])
  obtain ks where gp: "get_user_position_unchecked u ?e = Ok ?q (log_ttl ks e)"
    using get_position_native [of ?e u] ok by auto
  note inv = native_okD(1) [OF ok]
  have "\<exists>q'. accrue_asset_position_rewards (timestamp e) (p_idx (native_pool e)) ?q = Inr q'"
    by (rule accrue_runs)
      (use pool_invD(3,5) [OF inv, of u] fits in \<open>simp_all add: position_of_def accrual_fits_def settle_def native_pool_def\<close>)
  then obtain q where acc: "accrue_position_rewards (timestamp e) (state_of (inst e) a d r) ?q = Inr q"
    by (auto simp: accrue_asset_eq native_pool_def)
  have "load_settled u e = Ok (state_of (inst e) a d r, q) (log_ttl ks e)"
    using gs gp acc by (simp add: load_settled_def vbind_def gets_def result_def ret_def)
  with settled_by_accrue [OF ok acc] that show ?thesis by blast
qed

section \<open>Deposits and withdrawals\<close>

lemma store_deposit_runs:
  assumes ok: "native_ok e" and st: "is_initialized e" "k_Admin (inst e) = Some a" "k_DepositToken (inst e) = Some d"
    "k_RewardToken (inst e) = Some r" and fits: "accrual_fits (native_pool e) u"
    and n: "0 \<le> n" "in_i128 (p_total (native_pool e) + n)"
  shows "\<exists>x e'. store_deposit u n e = Ok x e'"
proof -
  obtain ks q where ld: "load_settled u e = Ok (state_of (inst e) a d r, q) (log_ttl ks e)"
    and b: "up_balance q = p_bal (native_pool e) u"
    using load_settled_runs [OF ok st fits] by metis
  note inv = native_okD(1) [OF ok]
  have le: "p_bal (native_pool e) u \<le> p_total (native_pool e)" "liquid_of (pers e) u \<le> p_bal (native_pool e) u"
    "0 \<le> liquid_of (pers e) u"
    using pool_invD(1,3,6) [OF inv] member_le_total [of "p_bal (native_pool e)" u]
      locked_sum_nonneg [OF native_okD(4) [OF ok, of u]] native_okD(3) [OF ok, of u]
    by (simp_all add: native_pool_def)
  have "in_i128 (up_balance q + n)" "in_i128 (liquid_of (pers e) u + n)"
    using le b n by (auto intro: in_i128_between [OF n(2)])
  then show ?thesis
    using ld n(2) by (simp add: store_deposit_load vm_simps store_simps checked_add_i128_def checked_def native_pool_def)
qed

text \<open>What a withdrawal can draw on: the liquid balance and the first five expired locks.\<close>

definition withdrawable :: "'w env \<Rightarrow> Address \<Rightarrow> int" where
  "withdrawable e u =
     liquid_of (pers e) u +
     locked_sum (take (nat WITHDRAW_UNLOCK_LIMIT) (filter (\<lambda>l. unlock_timestamp l \<le> timestamp e) (locks_of (pers e) u)))"

lemma locks_positive_sub: "locks_positive ls \<Longrightarrow> set ks \<subseteq> set ls \<Longrightarrow> locks_positive ks"
  unfolding locks_positive_def list_all_iff by blast

lemma unlock_expired_locks_runs:
  assumes ok: "native_ok e" and l: "0 \<le> limit"
  shows "\<exists>n e'. unlock_expired_locks u limit e = Ok n e'"
proof (cases "limit = 0")
  case True
  then show ?thesis by (simp add: unlock_expired_locks_def)
next
  case False
  let ?ls = "locks_of (pers e) u"
  have p: "locks_positive ?ls" by (rule native_okD(4) [OF ok])
  have "\<exists>n nl. unlock_loop (timestamp e) limit ?ls 0 [] 0 = Inr (n, nl)"
    by (rule unlock_loop_runs [OF p]) (use native_locked_bound [OF ok, of u] in simp_all)
  then obtain n nl where lp: "unlock_loop (timestamp e) limit ?ls 0 [] 0 = Inr (n, nl)" by blast
  have "n \<le> locked_sum ?ls" "0 \<le> n"
    using unlock_loop_conserves [OF lp] unlock_loop_positive [OF lp p] locked_sum_nonneg [of nl] by auto
  then have "in_i128 (liquid_of (pers e) u + n)"
    by (intro in_i128_between [OF native_bal_bound [OF ok, of u]]) (use native_okD(3) [OF ok, of u] in auto)
  with lp False show ?thesis
    by (simp add: unlock_expired_locks_def vm_simps store_simps checked_add_i128_def checked_def)
qed

lemma store_withdraw_cases:
  assumes ok: "native_ok e" and st: "is_initialized e" "k_Admin (inst e) = Some a" "k_DepositToken (inst e) = Some d"
    "k_RewardToken (inst e) = Some r" and fits: "accrual_fits (native_pool e) u" and n: "0 < n" "in_i128 n"
  shows "if n \<le> withdrawable e u then \<exists>x e'. store_withdraw u n e = Ok x e'
         else \<exists>e'. store_withdraw u n e = Err InsufficientBalance e'"
proof -
  obtain ks q where ld: "load_settled u e = Ok (state_of (inst e) a d r, q) (log_ttl ks e)"
    and b: "up_balance q = p_bal (native_pool e) u"
    using load_settled_runs [OF ok st fits] by metis
  let ?e = "log_ttl ks e"
  have okl: "native_ok ?e" "0 \<le> WITHDRAW_UNLOCK_LIMIT" using ok by (simp_all add: WITHDRAW_UNLOCK_LIMIT_def)
  obtain m e1 where ul: "unlock_expired_locks u WITHDRAW_UNLOCK_LIMIT ?e = Ok m e1"
    using unlock_expired_locks_runs [OF okl] by blast
  obtain ks1 p where e1: "e1 = log_ttl ks1 (with_stores (inst e) p ?e)" and us: "unlocked_store ?e u p"
    and l: "liquid_of p u = withdrawable e u"
    by (rule unlock_expired_locks_Ok [OF okl ul]) (simp add: withdrawable_def)
  note inv = native_okD(1) [OF ok]
  show ?thesis
  proof (cases "n \<le> withdrawable e u")
    case False
    then have "store_withdraw u n e = Err InsufficientBalance
        (log_ttl (ttl_if (liquid_of p u \<noteq> 0) (UserLiquidBalance u)) e1)"
      using ld ul e1 l by (simp add: store_withdraw_load vm_simps store_simps)
    with False show ?thesis by simp
  next
    case True
    have "0 \<le> locked_sum (locks_of p u)"
      using us native_okD(4) [OF ok, of u] by (auto simp: unlocked_store_def put_defs locked_sum_nonneg)
    then have "withdrawable e u \<le> p_bal (native_pool e) u"
      using unlocked_store_bal [OF us] l by simp
    then have "n \<le> p_bal (native_pool e) u" using True by simp
    moreover have "p_bal (native_pool e) u \<le> p_total (native_pool e)"
      using pool_invD(1,3,6) [OF inv] member_le_total [of "p_bal (native_pool e)" u] by simp
    moreover have "in_i128 (p_total (native_pool e))" using ok by (simp add: native_ok_def)
    ultimately have "in_i128 (p_bal (native_pool e) u - n)" "in_i128 (p_total (native_pool e) - n)"
      "in_i128 (withdrawable e u - n)"
      using True n(1) \<open>withdrawable e u \<le> p_bal (native_pool e) u\<close>
      by (auto intro: in_i128_between [of "p_total (native_pool e)"])
    then show ?thesis
      using True ld ul e1 l b
      by (simp add: store_withdraw_load vm_simps store_simps checked_sub_i128_def checked_def native_pool_def)
  qed
qed

end
