(* ===== verification/Vault_Properties.thy ===== *)
theory Vault_Properties
  imports Vault_Liveness
begin

text \<open>
  The correctness properties of the vault contract, each over the definitions of the
  component theories, with an instance on the demo ledger.
\<close>

section \<open>Accounting\<close>

text \<open>
  C1. In every state the deployed contract can reach, by any sequence of calls and for
  tokens that may call back into the vault, the recorded total of deposits is exactly the
  sum over all users of their liquid balance and their locks; balances are never negative,
  locks are positive, and the total fits an \<open>i128\<close>.
\<close>

theorem total_deposits_is_sum:
  assumes "host_token tk" "reachable tk e"
  shows "unwrap_or 0 (k_TotalDeposits (inst e)) =
           total_of (\<lambda>u. liquid_of (pers e) u + locked_sum (locks_of (pers e) u)) \<and>
         finite (support (\<lambda>u. liquid_of (pers e) u + locked_sum (locks_of (pers e) u))) \<and>
         0 \<le> liquid_of (pers e) u \<and> locks_positive (locks_of (pers e) u) \<and>
         in_i128 (unwrap_or 0 (k_TotalDeposits (inst e)))"
proof -
  have ok: "native_ok e" using reachable_inv [OF assms(2,1)] by (simp add: vault_inv_def)
  from pool_invD(1,6) [OF native_okD(1) [OF ok]] native_okD(2,3,4) [OF ok] show ?thesis
    by (simp add: native_pool_def)
qed

theorem total_deposits_is_sum_witness:
  "unwrap_or 0 (k_TotalDeposits (inst demo_live)) =
     total_of (\<lambda>u. liquid_of (pers demo_live) u + locked_sum (locks_of (pers demo_live) u)) \<and>
   unwrap_or 0 (k_TotalDeposits (inst demo_live)) = 500"
  using total_deposits_is_sum [OF ledger_token_host demo_live_reachable] demo_total by blast

text \<open>
  C2. On standard tokens the vault always holds at least what it owes to depositors: for
  every token other than the reward token, its balance covers the native deposits (if it is
  the deposit token) plus the deposits of that token as a supported asset.
\<close>

theorem deposits_in_custody:
  assumes "sep41 tk bal" "custodial tk bal e" "k_RewardToken (inst e) \<noteq> Some t"
  shows "(if k_DepositToken (inst e) = Some t then unwrap_or 0 (k_TotalDeposits (inst e)) else 0) +
         unwrap_or 0 (k_AssetTotalDeposits (inst e) t) \<le> bal t (contract_address e) (world e)"
  using custodial_solvent [OF assms(2,1)] assms(3)
  by (auto simp: solvent_def custody_def native_pool_def asset_pool_def)

theorem deposits_in_custody_witness:
  "(if k_DepositToken (inst demo_live) = Some ''usd'' then unwrap_or 0 (k_TotalDeposits (inst demo_live)) else 0) +
     unwrap_or 0 (k_AssetTotalDeposits (inst demo_live) ''usd'')
   \<le> held ''usd'' (contract_address demo_live) (world demo_live) \<and>
   k_DepositToken (inst demo_live) = Some ''usd''"
proof -
  have r: "k_RewardToken (inst demo_live) \<noteq> Some ''usd''" by code_simp
  have d: "k_DepositToken (inst demo_live) = Some ''usd''" by code_simp
  from deposits_in_custody [OF ledger_token_sep41 demo_live_custodial r] d show ?thesis by blast
qed

section \<open>Rewards\<close>

text \<open>
  C3. Over any history of the deployed contract, with every entry point called in any order, the
  ledger clock moving on in between, rewards vesting, and tokens that call back into the vault,
  the native claims paid never exceed the effective rewards distributed (the amounts times the
  utilization multiplier in force), whatever the rounding; and what the depositors can still
  claim is covered by what is left of them.
\<close>

theorem native_claims_covered:
  assumes "host_token tk" "accounted tk e D P"
  shows "P None \<le> D None \<and> liability (native_pool e) \<le> (D None - P None) * REWARD_INDEX_SCALE"
  using accounted_covered [OF assms(2,1), of None] accounted_liability [OF assms(2,1), of None] by simp

theorem native_claims_covered_witness:
  "accounted ledger_token demo_claimed (\<lambda>k. if k = None then 100000 else 0) (\<lambda>k. if k = None then 100000 else 0) \<and>
   liability (native_pool demo_claimed) \<le> 0"
  using native_claims_covered [OF ledger_token_host demo_claimed_accounted] demo_claimed_accounted by simp

text \<open>
  C4. The same for every supported asset, where the effective amount is the amount
  transferred: over any history of the contract the depositors of an asset never claim more than
  was paid in for that asset, and what they can still claim is covered by the rest.
\<close>

theorem asset_claims_covered:
  assumes "host_token tk" "accounted tk e D P"
  shows "P (Some x) \<le> D (Some x) \<and>
         liability (asset_pool x e) \<le> (D (Some x) - P (Some x)) * REWARD_INDEX_SCALE"
  using accounted_covered [OF assms(2,1), of "Some x"] accounted_liability [OF assms(2,1), of "Some x"] by simp

theorem asset_claims_covered_witness:
  "accounted ledger_token eur_claimed (\<lambda>k. if k = Some ''eur'' then 100000 else 0)
     (\<lambda>k. if k = Some ''eur'' then 100000 else 0) \<and>
   liability (asset_pool ''eur'' eur_claimed) \<le> 0"
  using asset_claims_covered [OF ledger_token_host eur_claimed_accounted, of "''eur''"] eur_claimed_accounted by simp

section \<open>Reentrancy\<close>

text \<open>
  C5. While the reentrancy guard is set, none of the ten guarded entry points can succeed,
  for any token implementation whatsoever.
\<close>

theorem reentrancy_blocked:
  assumes "guarded c" "unwrap_or False (k_ReentrancyGuard (inst e))"
  shows "exec_call tk c e \<noteq> Ok r e'"
  using guarded_blocked [OF assms(1)] assms(2) by (simp add: guard_of_def)

theorem reentrancy_blocked_witness:
  "(\<forall>r e'. exec_call ledger_token (Deposit ''alice'' 5) (set_guard True demo_live) \<noteq> Ok r e') \<and>
   err_value (exec_call ledger_token (Deposit ''alice'' 5) (set_guard True demo_live)) = Some ReentrancyDetected"
proof -
  have g: "unwrap_or False (k_ReentrancyGuard (inst (set_guard True demo_live)))" by simp
  have "err_value (exec_call ledger_token (Deposit ''alice'' 5) (set_guard True demo_live)) = Some ReentrancyDetected"
    by code_simp
  with reentrancy_blocked [OF _ g, of "Deposit ''alice'' 5" ledger_token] show ?thesis by simp
qed

text \<open>
  C6. A guarded section never leaves the guard set: when the wrapped code returns, with a
  value or with an error, the guard is released; only a call made while the guard was already
  set fails with \<open>ReentrancyDetected\<close>, and then it changes nothing.
\<close>

theorem guard_released:
  "(case with_non_reentrant f e of
      Ok x e' \<Rightarrow> \<not> guard_of e \<and> \<not> guard_of e'
    | Err er e' \<Rightarrow> if guard_of e then er = ReentrancyDetected \<and> e' = e else \<not> guard_of e'
    | Trap t \<Rightarrow> \<not> guard_of e)"
  by (auto simp: with_non_reentrant_def store_simps vm_simps vthen_def vbind_def guard_of_def
      split: outcome.split)

section \<open>Deposits and withdrawals\<close>

text \<open>
  C7. A successful deposit of \<open>n\<close> by \<open>u\<close> on a standard token moves \<open>n\<close> tokens from
  \<open>u\<close> to the vault, adds \<open>n\<close> to the liquid balance of \<open>u\<close> and to the total, settles
  the rewards of \<open>u\<close> on the old balance, leaves every other user, every lock and every asset
  alone, and publishes one deposit event.
\<close>

theorem deposit_effect:
  assumes tk: "sep41 tk bal" and inv: "vault_inv e" and run: "deposit tk u n e = Ok x e'"
  shows "0 < n \<and> authorized e u \<and>
         liquid_of (pers e') w = liquid_of (pers e) w + (if w = u then n else 0) \<and>
         k_UserLocks (pers e') = k_UserLocks (pers e) \<and>
         native_pool e' = change_stake u n (settle u (native_pool e)) \<and>
         asset_pool y e' = asset_pool y e \<and>
         (\<exists>t. k_DepositToken (inst e) = Some t \<and> n \<le> bal t u (world e) \<and>
            (\<forall>s h. bal s h (world e') = bal s h (world e) - (if s = t \<and> h = u then n else 0)
                     + (if s = t \<and> h = contract_address e then n else 0))) \<and>
         event_log e' = event_log e @
           [\<lparr>ev_topics = [PROTOCOL, ACT_DEPOSIT], ev_data = DepositEvent u n (timestamp e)\<rparr>]"
proof -
  obtain ks e1 e2 r t where au: "authorized e u" and n: "0 < n" and dt: "k_DepositToken (inst e) = Some t"
    and tr: "tk_transfer tk t u (contract_address e) n (log_ttl ks (set_guard True e)) = Some e1"
    and st: "store_deposit u n e1 = Ok r e2"
    and e': "e' = log_ttl ttl_inst (set_guard False (emit [PROTOCOL, ACT_DEPOSIT] (DepositEvent u n) e2))"
    using deposit_Ok [OF run] by metis
  obtain wd where e1: "e1 = (log_ttl ks (set_guard True e))\<lparr>world := wd\<rparr>" and fund: "n \<le> bal t u (world e)"
    and bal: "\<And>s h. bal s h wd = bal s h (world e) - (if s = t \<and> h = u then n else 0)
                + (if s = t \<and> h = contract_address e then n else 0)"
    using sep41_transfer [OF tk tr] by auto
  have ok: "native_ok e1" using inv e1 by (simp add: vault_inv_def)
  have p1: "native_pool e1 = native_pool e" "asset_pool y e1 = asset_pool y e" "pers e1 = pers e" for y
    using e1 by (simp_all add: native_pool_def asset_pool_def)
  obtain s q where r: "r = (s, q)" by (cases r)
  obtain ks2 j where e2: "e2 = log_ttl ks2 (with_stores j (put_position u q (put_liquid u (liquid_of (pers e1) u + n) (pers e1))) e1)"
    using store_deposit_Ok [OF ok st [unfolded r]] by metis
  have pool: "native_pool e2 = change_stake u n (settle u (native_pool e1))"
    using store_deposit_step(1) [OF ok n st [unfolded r]] by (auto elim: pool_step.cases)
  have "native_pool e' = native_pool e2" "asset_pool y e' = asset_pool y e2" "pers e' = pers e2"
    "world e' = wd" "event_log e' = event_log e @
       [\<lparr>ev_topics = [PROTOCOL, ACT_DEPOSIT], ev_data = DepositEvent u n (timestamp e)\<rparr>]"
    using e' e2 e1 by simp_all
  moreover have "liquid_of (pers e2) w = liquid_of (pers e) w + (if w = u then n else 0)"
    "k_UserLocks (pers e2) = k_UserLocks (pers e)"
    using e2 p1(3) by (simp_all add: put_defs)
  ultimately show ?thesis
    using pool p1 au n dt bal fund native_frameD(1) [OF store_deposit_frame [OF ok st], of y] by simp
qed

theorem deposit_effect_witness:
  "\<exists>e'. deposit ledger_token ''alice'' 20 demo_live = Ok () e' \<and>
     liquid_of (pers e') ''alice'' = liquid_of (pers demo_live) ''alice'' + 20 \<and>
     liquid_of (pers e') ''bob'' = liquid_of (pers demo_live) ''bob''"
proof -
  have "ok_value (deposit ledger_token ''alice'' 20 demo_live) = Some ()" by code_simp
  then have d: "deposit ledger_token ''alice'' 20 demo_live = Ok () (after (deposit ledger_token ''alice'' 20) demo_live)"
    by (rule ok_value_after)
  from deposit_effect [OF ledger_token_sep41 demo_inv(2) d, of "''alice''"]
    deposit_effect [OF ledger_token_sep41 demo_inv(2) d, of "''bob''"] d
  show ?thesis by auto
qed

text \<open>
  C8. A successful withdrawal of \<open>n\<close> by \<open>u\<close> first releases at most the first five
  expired locks, never takes more than the liquid balance then available, and moves exactly
  \<open>n\<close> deposit tokens from the vault to \<open>u\<close> and no other balance; exactly the released locks
  leave the list of \<open>u\<close>, in order, the balance and the total deposits fall by \<open>n\<close>, the
  rewards of \<open>u\<close> are settled on the old balance, the balances and locks of other users and every
  asset are untouched, and one withdrawal event is published with the balance that remains.
\<close>

theorem withdraw_effect:
  assumes tk: "sep41 tk bal" and inv: "vault_inv e" and run: "withdraw tk u n e = Ok x e'"
  shows "0 < n \<and> authorized e u \<and> n \<le> withdrawable e u \<and>
         liquid_of (pers e') v = (if v = u then withdrawable e u - n else liquid_of (pers e) v) \<and>
         locks_of (pers e') v =
           (if v = u then kept_locks 5 (timestamp e) (locks_of (pers e) u) else locks_of (pers e) v) \<and>
         native_pool e' = change_stake u (- n) (settle u (native_pool e)) \<and>
         asset_pool y e' = asset_pool y e \<and>
         (\<exists>t. k_DepositToken (inst e) = Some t \<and> n \<le> bal t (contract_address e) (world e) \<and>
            (\<forall>s h. bal s h (world e') = bal s h (world e) - (if s = t \<and> h = contract_address e then n else 0)
                     + (if s = t \<and> h = u then n else 0))) \<and>
         event_log e' = event_log e @
           [\<lparr>ev_topics = [PROTOCOL, ACT_WITHDRAW],
             ev_data = WithdrawEvent u n (p_bal (native_pool e) u - n) (timestamp e)\<rparr>]"
proof -
  obtain ks s q e1 e2 t where au: "authorized e u" and n: "0 < n" and dt: "k_DepositToken (inst e) = Some t"
    and st: "store_withdraw u n (log_ttl ks (set_guard True e)) = Ok (s, q) e1"
    and tr: "tk_transfer tk t (contract_address e1) u n
       (emit [PROTOCOL, ACT_WITHDRAW] (WithdrawEvent u n (up_balance q)) e1) = Some e2"
    and e': "e' = log_ttl ttl_inst (set_guard False e2)"
    using withdraw_Ok [OF run] by metis
  have ok: "native_ok (log_ttl ks (set_guard True e))" using inv by (simp add: vault_inv_def)
  note f = native_frameD [OF store_withdraw_frame [OF ok st]]
  obtain w where e2: "e2 = (emit [PROTOCOL, ACT_WITHDRAW] (WithdrawEvent u n (up_balance q)) e1)\<lparr>world := w\<rparr>"
    and fund: "n \<le> bal t (contract_address e) (world e)"
    and bal: "\<And>s h. bal s h w = bal s h (world e) - (if s = t \<and> h = contract_address e then n else 0)
                + (if s = t \<and> h = u then n else 0)"
    using sep41_transfer [OF tk tr] f by auto
  obtain ks2 j p where
    e1: "e1 = log_ttl ks2 (with_stores j (put_position u q (put_liquid u (liquid_of p u - n) p)) (log_ttl ks (set_guard True e)))"
    and l: "liquid_of p u = withdrawable e u" and le: "n \<le> liquid_of p u"
    and q: "up_balance q = p_bal (native_pool e) u - n"
    by (rule store_withdraw_Ok [OF ok st]) (simp add: withdrawable_def WITHDRAW_UNLOCK_LIMIT_def)
  have pool: "native_pool e1 = change_stake u (- n) (settle u (native_pool e))"
    using store_withdraw_step(1) [OF ok n st] by (auto elim: pool_step.cases)
  have "native_pool e' = native_pool e1" "asset_pool y e' = asset_pool y e1" "pers e' = pers e1" "world e' = w"
    "event_log e' = event_log e @ [\<lparr>ev_topics = [PROTOCOL, ACT_WITHDRAW],
       ev_data = WithdrawEvent u n (p_bal (native_pool e) u - n) (timestamp e)\<rparr>]"
    using e' e2 e1 q by (simp_all add: native_pool_def asset_pool_def)
  moreover have "liquid_of (pers e1) u = withdrawable e u - n" using e1 l by (simp add: put_defs)
  ultimately show ?thesis
    using pool f(1) [of y] l le au n dt bal fund store_withdraw_kept [OF ok st, of v] by simp
qed

theorem withdraw_effect_witness:
  "\<exists>e'. withdraw ledger_token ''alice'' 200 demo_live = Ok () e' \<and> liquid_of (pers e') ''alice'' = 300 \<and>
     liquid_of (pers e') ''bob'' = liquid_of (pers demo_live) ''bob''"
proof -
  have "ok_value (withdraw ledger_token ''alice'' 200 demo_live) = Some ()" by code_simp
  then have d: "withdraw ledger_token ''alice'' 200 demo_live = Ok () (after (withdraw ledger_token ''alice'' 200) demo_live)"
    by (rule ok_value_after)
  have "withdrawable demo_live ''alice'' = 500" by code_simp
  with withdraw_effect [OF ledger_token_sep41 demo_inv(2) d, of "''alice''"]
    withdraw_effect [OF ledger_token_sep41 demo_inv(2) d, of "''bob''"] d
  show ?thesis by auto
qed

text \<open>
  C9. Withdrawals are complete: on a good state, an authorised withdrawal of a positive
  amount succeeds exactly when the amount is at most the liquid balance plus the first five
  expired locks, and otherwise fails with \<open>InsufficientBalance\<close>. The hypotheses are the
  absence of overflow in the user's accrual and that the token pays out.
\<close>

theorem withdraw_complete:
  assumes inv: "vault_inv e" and st: "is_initialized e" "k_Admin (inst e) = Some a"
    "k_DepositToken (inst e) = Some d" "k_RewardToken (inst e) = Some r"
    and run: "\<not> unwrap_or False (k_IsPaused (inst e))" "authorized e u" "0 < n" "in_i128 n"
    and fits: "accrual_fits (native_pool e) u"
    and pays: "\<And>e1. world e1 = world e \<Longrightarrow> tk_transfer tk d (contract_address e) u n e1 \<noteq> None"
  shows "if n \<le> withdrawable e u then \<exists>e'. withdraw tk u n e = Ok () e'
         else \<exists>e'. withdraw tk u n e = Err InsufficientBalance e'"
proof -
  let ?en = "log_ttl ttl_inst (set_guard True e)" let ?e = "log_ttl ttl_inst ?en"
  have g: "\<not> guard_of e" and ok: "native_ok ?e" using inv by (simp_all add: vault_inv_def)
  have gs: "get_state ?en = Ok (state_of (inst ?en) a d r) ?e"
    by (rule get_state_run) (use st in simp_all)
  have w: "withdrawable ?e u = withdrawable e u" by (simp add: withdrawable_def)
  have pre: "withdraw tk u n e =
      (\<lambda>e. case (vbind (store_withdraw u n) (\<lambda>(_, position).
        vthen (emit_withdraw u n (up_balance position))
       (vbind (gets contract_address) (\<lambda>contract. token_transfer tk d contract u n)))) e of
         Ok x e' \<Rightarrow> vthen exit_non_reentrant (ret x) e'
       | Err er e' \<Rightarrow> vthen exit_non_reentrant (throw er) e' | Trap t \<Rightarrow> Trap t) ?e"
    using g gs st(1) run
    by (simp add: withdraw_def store_simps vm_simps with_non_reentrant_def guard_of_def set_guard_def require_auth_def)
  have cs: "if n \<le> withdrawable e u then \<exists>x e'. store_withdraw u n ?e = Ok x e'
         else \<exists>e'. store_withdraw u n ?e = Err InsufficientBalance e'"
    using store_withdraw_cases [OF ok, of a d r u n] st run(3,4) fits w by simp
  show ?thesis
  proof (cases "n \<le> withdrawable e u")
    case False
    with cs obtain e' where "store_withdraw u n ?e = Err InsufficientBalance e'" by auto
    with False pre show ?thesis by (simp add: vm_simps store_simps)
  next
    case True
    with cs obtain s q e1 where sw: "store_withdraw u n ?e = Ok (s, q) e1" by auto
    have f: "world e1 = world e" "contract_address e1 = contract_address e"
      using native_frameD(10,11) [OF store_withdraw_frame [OF ok sw]] by simp_all
    let ?e2 = "emit [PROTOCOL, ACT_WITHDRAW] (WithdrawEvent u n (up_balance q)) e1"
    obtain e3 where "tk_transfer tk d (contract_address e1) u n ?e2 = Some e3"
      using pays [of ?e2] f by auto
    with True pre sw show ?thesis
      by (simp add: vm_simps store_simps token_transfer_def)
  qed
qed

theorem withdraw_complete_witness:
  "(\<exists>e'. withdraw ledger_token ''alice'' 500 demo_live = Ok () e') \<and>
   (\<exists>e'. withdraw ledger_token ''alice'' 501 demo_live = Err InsufficientBalance e')"
proof -
  have st: "is_initialized demo_live" "k_Admin (inst demo_live) = Some ''admin''"
    "k_DepositToken (inst demo_live) = Some ''usd''" "k_RewardToken (inst demo_live) = Some ''rwd''"
    "\<not> unwrap_or False (k_IsPaused (inst demo_live))" "authorized demo_live ''alice''"
    "held ''usd'' (contract_address demo_live) (world demo_live) = 500" "withdrawable demo_live ''alice'' = 500"
    by code_simp+
  have fits: "accrual_fits (native_pool demo_live) ''alice''" by code_simp
  have i: "(0::int) < 500" "in_i128 500" by (simp_all add: in_i128_def)
  have pays: "\<And>e1. world e1 = world demo_live \<Longrightarrow>
      tk_transfer ledger_token ''usd'' (contract_address demo_live) ''alice'' 500 e1 \<noteq> None"
    using st(7) by (simp add: ledger_token_def)
  have "err_value (withdraw ledger_token ''alice'' 501 demo_live) = Some InsufficientBalance" by code_simp
  then have "\<exists>e'. withdraw ledger_token ''alice'' 501 demo_live = Err InsufficientBalance e'"
    by (cases "withdraw ledger_token ''alice'' 501 demo_live") simp_all
  with withdraw_complete [OF demo_inv(2) st(1-6) i fits pays] st(8) show ?thesis by simp
qed

text \<open>
  C10. Deposits are live: an authorised deposit of a positive amount by a user who can pay
  always succeeds on a standard token, as long as the vault's total and the user's accrual
  stay within \<open>i128\<close>.
\<close>

theorem deposit_succeeds:
  assumes tk: "sep41 tk bal" and inv: "vault_inv e" and st: "is_initialized e" "k_Admin (inst e) = Some a"
    "k_DepositToken (inst e) = Some d" "k_RewardToken (inst e) = Some r"
    and run: "\<not> unwrap_or False (k_IsPaused (inst e))" "authorized e u" "0 < n"
    and fits: "accrual_fits (native_pool e) u" "in_i128 (p_total (native_pool e) + n)"
    and pays: "\<And>e1. world e1 = world e \<Longrightarrow> tk_transfer tk d u (contract_address e) n e1 \<noteq> None"
  shows "\<exists>e'. deposit tk u n e = Ok () e'"
proof -
  let ?en = "log_ttl ttl_inst (set_guard True e)" let ?e = "log_ttl ttl_inst ?en"
  have g: "\<not> guard_of e" using inv by (simp add: vault_inv_def)
  have gs: "get_state ?en = Ok (state_of (inst ?en) a d r) ?e"
    by (rule get_state_run) (use st in simp_all)
  obtain e1 where tr: "tk_transfer tk d u (contract_address e) n ?e = Some e1" using pays [of ?e] by auto
  then obtain w where e1: "e1 = ?e\<lparr>world := w\<rparr>" by (metis sep41_transfer [OF tk])
  have p1: "native_pool e1 = native_pool e" "native_ok e1" "is_initialized e1"
    using e1 inv st(1) by (simp_all add: native_pool_def vault_inv_def native_ok_def is_initialized_def)
  obtain x e2 where "store_deposit u n e1 = Ok x e2"
    using store_deposit_runs [OF p1(2), of a d r u n] p1 e1 st run(3) fits by auto
  with g gs st(1) run tr show ?thesis
    by (simp add: deposit_def store_simps vm_simps with_non_reentrant_def guard_of_def set_guard_def require_auth_def
        token_transfer_def)
qed

theorem deposit_succeeds_witness: "\<exists>e'. deposit ledger_token ''bob'' 700 demo_live = Ok () e'"
proof -
  have st: "is_initialized demo_live" "k_Admin (inst demo_live) = Some ''admin''"
    "k_DepositToken (inst demo_live) = Some ''usd''" "k_RewardToken (inst demo_live) = Some ''rwd''"
    "\<not> unwrap_or False (k_IsPaused (inst demo_live))" "authorized demo_live ''bob''"
    "held ''usd'' ''bob'' (world demo_live) = 1000000"
    by code_simp+
  have fits: "accrual_fits (native_pool demo_live) ''bob''" "in_i128 (p_total (native_pool demo_live) + 700)"
    by code_simp+
  have pays: "\<And>e1. world e1 = world demo_live \<Longrightarrow>
      tk_transfer ledger_token ''usd'' ''bob'' (contract_address demo_live) 700 e1 \<noteq> None"
    using st(7) by (simp add: ledger_token_def)
  show ?thesis
    by (rule deposit_succeeds [OF ledger_token_sep41 demo_inv(2) st(1-6) _ fits pays]) simp_all
qed

section \<open>Locks\<close>

text \<open>
  C11. \<open>unlock_expired\<close> with limit \<open>l\<close> (at most 50) moves exactly the first \<open>l\<close>
  expired locks, in the order they were made, to the liquid balance and returns their sum; the
  other locks stay in their order, the balances and locks of other users are untouched, and
  nobody's total balance, accrued reward or index changes, and neither does the total.
\<close>

theorem unlock_expired_effect:
  assumes inv: "vault_inv e" and l: "0 \<le> l" and run: "unlock_expired u l e = Ok n e'"
  shows "n = locked_sum (take (nat l) (filter (\<lambda>x. unlock_timestamp x \<le> timestamp e) (locks_of (pers e) u))) \<and>
         liquid_of (pers e') v = liquid_of (pers e) v + (if v = u then n else 0) \<and>
         locks_of (pers e') v =
           (if v = u then kept_locks (nat l) (timestamp e) (locks_of (pers e) u) else locks_of (pers e) v) \<and>
         native_pool e' = native_pool e \<and> l \<le> 50 \<and> authorized e u"
proof -
  obtain ks e1 e2 where le: "l \<le> MAX_UNLOCK_LIMIT" and au: "authorized e u"
    and st: "unlock_expired_locks u l (log_ttl ks (set_guard True e)) = Ok n e1"
    and e2: "e2 = (if 0 < n then emit [PROTOCOL, ACT_UNLOCK] (UnlockEvent u n) e1 else e1)"
    and e': "e' = log_ttl ttl_inst (set_guard False e2)"
    using unlock_expired_Ok [OF run] by metis
  have ok: "native_ok (log_ttl ks (set_guard True e))" using inv by (simp add: vault_inv_def)
  have "n = locked_sum (take (nat l) (filter (\<lambda>x. unlock_timestamp x \<le> timestamp e) (locks_of (pers e) u)))"
    by (rule unlock_expired_locks_Ok [OF ok l st]) simp
  moreover have "native_pool e' = native_pool e"
    using unlock_expired_locks_pool(1) [OF ok l st] e' e2 by simp
  moreover have "pers e' = pers e1" using e' e2 by simp
  ultimately show ?thesis
    using le au unlock_expired_locks_kept [OF ok l st, of v] by (simp add: MAX_UNLOCK_LIMIT_def)
qed

theorem unlock_expired_effect_witness:
  "\<exists>e'. unlock_expired ''alice'' 10 demo_locked = Ok 200 e' \<and>
     liquid_of (pers e') ''alice'' = liquid_of (pers demo_locked) ''alice'' + 200"
proof -
  have "ok_value (unlock_expired ''alice'' 10 demo_locked) = Some 200" by code_simp
  then have r: "unlock_expired ''alice'' 10 demo_locked = Ok 200 (after (unlock_expired ''alice'' 10) demo_locked)"
    by (rule ok_value_after)
  from unlock_expired_effect [OF demo_locked_inv _ r, of "''alice''"] r show ?thesis by auto
qed

end
