(* ===== verification/Vault_Reward_Properties.thy ===== *)
theory Vault_Reward_Properties
  imports Vault_Liveness
begin

text \<open>
  Properties of rewards: the views agree with the claims, what vesting releases, how the
  utilization multiplier is chosen, and how distributions are shared.
\<close>

section \<open>Views and claims\<close>

lemma preview_load:
  "preview_user_rewards u =
     vthen require_initialized
    (vbind (load_settled u) (\<lambda>(state, position).
     vbind (gets timestamp) (\<lambda>now.
     vbind (result (calculate_vested_rewards now position (vs_vesting_period state))) (\<lambda>vested.
     ret \<lparr> rs_reward_index = up_reward_index position, rs_rewards = up_accrued_rewards position,
           rs_vested_rewards = vested \<rparr>))))"
  by (simp add: preview_user_rewards_def load_settled_def vbind_assoc vbind_ret)

lemma load_settled_initialized: "load_settled u e = Ok x e' \<Longrightarrow> is_initialized e"
  by (auto simp: load_settled_def vm_Ok_iffs get_state_Ok_iff)

text \<open>
  C12. The view \<open>vested_rewards\<close> tells the truth: on a good state it returns \<open>v\<close>
  exactly when claiming now would pay \<open>v\<close>.
\<close>

theorem claim_matches_view:
  assumes ok: "native_ok e"
  shows "(\<exists>e1. vested_user_rewards_view u e = Ok v e1) \<longleftrightarrow> (\<exists>e2. store_claimable_rewards u e = Ok v e2)"
proof
  assume "\<exists>e1. vested_user_rewards_view u e = Ok v e1"
  then obtain s q e1 where ld: "load_settled u e = Ok (s, q) e1"
    and v: "calculate_vested_rewards (timestamp e1) q (vs_vesting_period s) = Inr v"
    by (auto simp: vested_user_rewards_view_def preview_load vm_Ok_iffs require_initialized_run split: if_splits)
  note L = load_settled_Ok [OF ok ld]
  from L(1) obtain a d r where s: "s = state_of (inst e) a d r" by auto
  have nn: "0 \<le> up_accrued_rewards q"
    using L(3) pool_invD(4) [OF settle_inv [OF native_okD(1) [OF ok]]] by (simp add: settled_by_def)
  then have "0 \<le> v \<and> v \<le> up_accrued_rewards q"
    by (rule calculate_vested_bounds [OF v _ L(5)]) (use s native_okD(6) [OF ok] in simp)
  then have "in_i128 (up_accrued_rewards q - v)"
    by (intro in_i128_between [OF L(5)]) auto
  with ld v show "\<exists>e2. store_claimable_rewards u e = Ok v e2"
    by (simp add: store_claimable_load vm_simps store_simps checked_sub_i128_def checked_def)
next
  assume "\<exists>e2. store_claimable_rewards u e = Ok v e2"
  then obtain s q e1 where ld: "load_settled u e = Ok (s, q) e1"
    and "calculate_vested_rewards (timestamp e1) q (vs_vesting_period s) = Inr v"
    by (auto simp: store_claimable_load vm_Ok_iffs)
  with load_settled_initialized [OF ld] show "\<exists>e1. vested_user_rewards_view u e = Ok v e1"
    by (simp add: vested_user_rewards_view_def preview_load vm_simps store_simps)
qed

theorem claim_matches_view_witness:
  "\<exists>e1 e2. vested_user_rewards_view ''alice'' flat2 = Ok 100000 e1 \<and>
     store_claimable_rewards ''alice'' flat2 = Ok 100000 e2"
proof -
  have "\<exists>e2. store_claimable_rewards ''alice'' flat2 = Ok 100000 e2"
    using ok_value_after [of "store_claimable_rewards ''alice''" flat2] flat_ok(3) by blast
  then show ?thesis using claim_matches_view [OF flat_native_ok(3), of "''alice''" 100000] by blast
qed

section \<open>Vesting\<close>



lemma vested_partial:
  assumes "calculate_vested_rewards now q per = Inr v" "0 \<le> up_accrued_rewards q" "in_i128 (up_accrued_rewards q)"
    and el: "up_last_reward_timestamp q \<noteq> 0" "in_u64 (now - up_last_reward_timestamp q)"
      "now - up_last_reward_timestamp q < per"
  shows "v = up_accrued_rewards q * (now - up_last_reward_timestamp q) div per"
proof -
  let ?el = "now - up_last_reward_timestamp q"
  have nn: "0 \<le> ?el" using el(2) by (simp add: in_u64_def)
  have "v = as_i128 (up_accrued_rewards q * ?el div per)"
    using assms nn
    by (auto simp: calculate_vested_rewards_def Let_def rbind_Inr_iff int_simps checked_def unwrap_or_def
        split: if_splits)
  moreover have "in_i128 (up_accrued_rewards q * ?el div per)"
    using partial_vesting_bounds [OF assms(2) nn el(3)] assms(3) by (blast intro: in_i128_between)
  ultimately show ?thesis by simp
qed

lemma vested_partial_runs:
  assumes v: "calculate_vested_rewards now q per = Inr v" and acc: "0 \<le> a" "a \<le> up_accrued_rewards q"
      "in_i128 (up_accrued_rewards q)"
    and el: "up_last_reward_timestamp q \<noteq> 0" "in_u64 (now - up_last_reward_timestamp q)"
      "now - up_last_reward_timestamp q < per"
  shows "\<exists>v'. calculate_vested_rewards now (q\<lparr>up_accrued_rewards := a\<rparr>) per = Inr v'"
proof -
  let ?el = "now - up_last_reward_timestamp q"
  have nn: "0 \<le> ?el" using el(2) by (simp add: in_u64_def)
  have u: "in_i128 a" by (rule in_i128_between [OF acc(3,1,2)])
  have "in_u128 (up_accrued_rewards q * ?el)"
    using v acc nn el
    by (auto simp: calculate_vested_rewards_def Let_def rbind_Inr_iff int_simps checked_def unwrap_or_def
        split: if_splits)
  then have "in_u128 (a * ?el)"
    using mult_right_mono [OF acc(2) nn] acc(1) nn by (auto simp: in_u128_def)
  then show ?thesis
    using u acc(1) nn el
    by (auto simp: calculate_vested_rewards_def Let_def int_simps checked_def unwrap_or_def checked_sub_u64_def
        checked_mul_u128_def checked_div_u128_def)
qed

lemma vested_up_balance: "calculate_vested_rewards t (q\<lparr>up_balance := b\<rparr>) per = calculate_vested_rewards t q per"
  by (simp add: calculate_vested_rewards_def Let_def)

lemma load_settled_current:
  assumes ok: "native_ok e" and cur: "p_uidx (native_pool e) u = p_idx (native_pool e)"
    and ld: "load_settled u e = Ok (s, q) e1"
  shows "q = position_of (pers e) u (p_bal (native_pool e) u)" "\<exists>ks. e1 = log_ttl ks e"
    "\<exists>a d r. s = state_of (inst e) a d r"
proof -
  from ld obtain e2 q0 where st: "get_state e = Ok s e2" and ps: "get_user_position_unchecked u e2 = Ok q0 e1"
    and acc: "accrue_position_rewards (timestamp e1) s q0 = Inr q"
    by (auto simp: load_settled_def vm_Ok_iffs)
  from st obtain a d r where s: "s = state_of (inst e) a d r" and e2: "e2 = log_ttl ttl_inst e"
    by (auto simp: get_state_Ok_iff)
  then show "\<exists>a d r. s = state_of (inst e) a d r" by blast
  have q0: "q0 = position_of (pers e) u (p_bal (native_pool e) u)" and e1: "\<exists>ks. e1 = log_ttl ks e"
    using get_position_native_Ok [of e2 u q0 e1] ps ok e2 by auto
  then show "\<exists>ks. e1 = log_ttl ks e" by blast
  have i: "unwrap_or 0 (k_UserRewardIndex (pers e) u) = unwrap_or 0 (k_RewardIndex (inst e))"
    using cur by (simp add: native_pool_def)
  have "up_reward_index q0 = vs_reward_index s" using q0 s i by (simp add: position_of_def)
  with acc have "q = q0\<lparr>up_reward_index := vs_reward_index s\<rparr>"
    by (simp add: accrue_position_rewards_def)
  with q0 s i show "q = position_of (pers e) u (p_bal (native_pool e) u)"
    by (simp add: position_of_def)
qed

text \<open>With nothing to accrue, a claim pays what the stored position has vested.\<close>

lemma claim_current_runs:
  assumes ok: "native_ok e" and cur: "p_uidx (native_pool e) u = p_idx (native_pool e)"
    and st: "is_initialized e" "k_Admin (inst e) = Some a" "k_DepositToken (inst e) = Some d" "k_RewardToken (inst e) = Some r"
    and v: "calculate_vested_rewards (timestamp e) (position_of (pers e) u (p_bal (native_pool e) u))
              (unwrap_or 0 (k_VestingPeriod (inst e))) = Inr v"
  shows "\<exists>e1. store_claimable_rewards u e = Ok v e1"
proof -
  let ?q = "position_of (pers e) u (p_bal (native_pool e) u)"
  have fits: "accrual_fits (native_pool e) u"
    using cur native_okD(5) [OF ok, of u] by (simp add: accrual_fits_def settle_def native_pool_def)
  obtain ks q where ld: "load_settled u e = Ok (state_of (inst e) a d r, q) (log_ttl ks e)"
    using load_settled_runs [OF ok st fits] by metis
  have q: "q = ?q" by (rule load_settled_current(1) [OF ok cur ld])
  have acc: "0 \<le> up_accrued_rewards ?q" "in_i128 (up_accrued_rewards ?q)"
    using pool_invD(4) [OF native_okD(1) [OF ok], of u] native_okD(5) [OF ok, of u]
    by (simp_all add: position_of_def native_pool_def)
  then have "in_i128 (up_accrued_rewards ?q - v)"
    using calculate_vested_bounds [OF v acc native_okD(6) [OF ok]] by (intro in_i128_between [OF acc(2)]) auto
  then show ?thesis
    using ld q v by (simp add: store_claimable_load vm_simps store_simps checked_sub_i128_def checked_def)
qed

lemma claim_current_Ok:
  assumes ok: "native_ok e" and cur: "p_uidx (native_pool e) u = p_idx (native_pool e)"
    and run: "store_claimable_rewards u e = Ok v e1"
  obtains a d r where "is_initialized e" "k_Admin (inst e) = Some a" "k_DepositToken (inst e) = Some d"
    "k_RewardToken (inst e) = Some r"
    "calculate_vested_rewards (timestamp e) (position_of (pers e) u (p_bal (native_pool e) u))
       (unwrap_or 0 (k_VestingPeriod (inst e))) = Inr v"
    "inst e1 = inst e" "timestamp e1 = timestamp e"
    "pers e1 = put_position u ((position_of (pers e) u (p_bal (native_pool e) u))
       \<lparr>up_accrued_rewards := unwrap_or 0 (k_UserAccruedRewards (pers e) u) - v\<rparr>) (pers e)"
proof -
  from run obtain s q e0 ks where ld: "load_settled u e = Ok (s, q) e0"
    and v: "calculate_vested_rewards (timestamp e0) q (vs_vesting_period s) = Inr v"
    and e1: "e1 = log_ttl ks (with_stores (inst e0)
       (put_position u (q\<lparr>up_accrued_rewards := up_accrued_rewards q - v\<rparr>) (pers e0)) e0)"
    by (auto simp: store_claimable_load vm_Ok_iffs store_simps int_simps with_stores_def)
  note L = load_settled_current [OF ok cur ld]
  obtain a d r ks0 where s: "s = state_of (inst e) a d r" "k_Admin (inst e) = Some a"
    "k_DepositToken (inst e) = Some d" "k_RewardToken (inst e) = Some r" and e0: "e0 = log_ttl ks0 e"
    using load_settled_Ok(1) [OF ok ld] by blast
  show ?thesis
    by (rule that [OF load_settled_Ok(2) [OF ok ld] s(2-4)])
      (use v L(1) s(1) e0 e1 in \<open>simp_all add: position_of_def\<close>)
qed

text \<open>
  C14. Vesting can be bypassed by repeating the claim: within the vesting period, with
  nothing new to accrue, a first claim releases the elapsed fraction of the accrued rewards,
  and a second claim in the same second releases the same fraction of what is left.
\<close>

theorem second_claim_pays_again:
  assumes ok: "native_ok e" and cur: "p_uidx (native_pool e) u = p_idx (native_pool e)"
    and vals: "timestamp e = now" "unwrap_or 0 (k_UserLastRewardTimestamp (pers e) u) = since"
      "unwrap_or 0 (k_UserAccruedRewards (pers e) u) = acc" "unwrap_or 0 (k_VestingPeriod (inst e)) = per"
    and el: "since \<noteq> 0" "in_u64 (now - since)" "now - since < per"
    and run: "store_claimable_rewards u e = Ok v e1"
  shows "v = acc * (now - since) div per \<and>
         (\<exists>e2. store_claimable_rewards u e1 = Ok ((acc - v) * (now - since) div per) e2)"
proof -
  let ?q = "position_of (pers e) u (p_bal (native_pool e) u)"
  let ?q' = "?q\<lparr>up_accrued_rewards := acc - v\<rparr>"
  have nn: "0 \<le> acc" "in_i128 acc" and per: "0 \<le> per"
    using pool_invD(4) [OF native_okD(1) [OF ok], of u] native_okD(5) [OF ok, of u] native_okD(6) [OF ok] vals
    by (simp_all add: native_pool_def)
  have q: "up_accrued_rewards ?q = acc" "up_last_reward_timestamp ?q = since"
    using vals by (simp_all add: position_of_def)
  obtain a d r where st: "is_initialized e" "k_Admin (inst e) = Some a" "k_DepositToken (inst e) = Some d"
      "k_RewardToken (inst e) = Some r" and v: "calculate_vested_rewards now ?q per = Inr v"
    and e1: "inst e1 = inst e" "timestamp e1 = now" "pers e1 = put_position u ?q' (pers e)"
    by (rule claim_current_Ok [OF ok cur run]) (use vals in simp)
  have ok1: "native_ok e1" by (rule store_claimable_step(2) [OF ok run])
  have cur1: "p_uidx (native_pool e1) u = p_idx (native_pool e1)"
    using e1 cur by (auto simp: position_of_def put_defs native_pool_def)
  have le: "0 \<le> acc - v" "acc - v \<le> acc" using calculate_vested_bounds [OF v] nn per q by auto
  obtain v2 where v2: "calculate_vested_rewards now ?q' per = Inr v2"
    using vested_partial_runs [OF v, of "acc - v"] le nn el q by auto
  have "position_of (pers e1) u b = ?q'\<lparr>up_balance := b\<rparr>" for b
    using e1(3) by (simp add: position_of_def put_defs)
  then have "calculate_vested_rewards (timestamp e1) (position_of (pers e1) u (p_bal (native_pool e1) u))
      (unwrap_or 0 (k_VestingPeriod (inst e1))) = Inr v2"
    using v2 e1 vals(4) by (simp add: vested_up_balance)
  then have "\<exists>e2. store_claimable_rewards u e1 = Ok v2 e2"
    by (intro claim_current_runs [OF ok1 cur1]) (use st e1 in \<open>simp_all add: is_initialized_def\<close>)
  moreover have "v2 = (acc - v) * (now - since) div per"
    using vested_partial [OF v2] le el q in_i128_between [OF nn(2) le] by simp
  moreover have "v = acc * (now - since) div per" using vested_partial [OF v] nn el q by simp
  ultimately show ?thesis by simp
qed

lemma demo_vesting_ok: "native_ok demo_vesting"
proof -
  have "reachable ledger_token (call_demo (ClaimRewards ''alice'') demo_rewarded)"
    by (rule reachable_invoke [OF _ demo_rewarded_reachable]) simp
  moreover have "timestamp (call_demo (ClaimRewards ''alice'') demo_rewarded) \<le> timestamp demo_vesting" by code_simp
  ultimately have "reachable ledger_token demo_vesting"
    unfolding demo_vesting_def by (rule_tac elapsed) simp_all
  from reachable_inv [OF this ledger_token_host] show ?thesis by (simp add: vault_inv_def)
qed

theorem second_claim_pays_again_witness:
  "\<exists>e1 e2. store_claimable_rewards ''alice'' demo_vesting = Ok 50000 e1 \<and>
     store_claimable_rewards ''alice'' e1 = Ok 25000 e2"
proof -
  have "ok_value (store_claimable_rewards ''alice'' demo_vesting) = Some 50000" by code_simp
  then have r: "store_claimable_rewards ''alice'' demo_vesting =
      Ok 50000 (after (store_claimable_rewards ''alice'') demo_vesting)"
    by (rule ok_value_after)
  have f: "p_uidx (native_pool demo_vesting) ''alice'' = p_idx (native_pool demo_vesting)"
    "timestamp demo_vesting = 1050" "unwrap_or 0 (k_UserLastRewardTimestamp (pers demo_vesting) ''alice'') = 1000"
    "unwrap_or 0 (k_UserAccruedRewards (pers demo_vesting) ''alice'') = 100000"
    "unwrap_or 0 (k_VestingPeriod (inst demo_vesting)) = 100"
    by code_simp+
  from second_claim_pays_again [OF demo_vesting_ok f _ _ _ r] r show ?thesis
    by (auto simp: in_u64_def)
qed

section \<open>Distribution\<close>

text \<open>
  C15. A distribution is shared pro rata: every user's claim grows by the user's balance
  times the same index increment, the floor of the scaled effective amount over the total;
  the rounding loss over all users together is less than the total balance in scaled units.
\<close>

theorem distribution_pro_rata:
  assumes ok: "native_ok e" and run: "store_reward_distribution amount e = Ok s e'"
    and amount: "0 \<le> amount" "in_i128 amount"
  shows "\<exists>m inc. calculate_utilization_multiplier (unwrap_or 0 (k_TotalDeposits (inst e)))
             (unwrap_or 0 (k_TargetDeposits (inst e))) (unwrap_or [] (k_UtilizationMultipliers (inst e))) = Inr m \<and>
           inc = (amount * m div 10000) * REWARD_INDEX_SCALE div p_total (native_pool e) \<and> 0 < inc \<and>
           vs_reward_index s = p_idx (native_pool e) + inc \<and>
           (\<forall>u. owed (native_pool e') u = owed (native_pool e) u + p_bal (native_pool e) u * inc) \<and>
           (amount * m div 10000) * REWARD_INDEX_SCALE - inc * p_total (native_pool e) < p_total (native_pool e)"
proof -
  obtain ks m inc where m: "calculate_utilization_multiplier (p_total (native_pool e))
      (unwrap_or 0 (k_TargetDeposits (inst e))) (unwrap_or [] (k_UtilizationMultipliers (inst e))) = Inr m"
    and inc: "checked_reward_index_increment (amount * m div 10000) (p_total (native_pool e)) = Inr inc"
    and e': "e' = log_ttl ks (with_stores ((inst e)\<lparr>k_RewardIndex := Some (p_idx (native_pool e) + inc)\<rparr>) (pers e) e)"
    and s: "vs_reward_index s = p_idx (native_pool e) + inc"
    using store_reward_distribution_Ok [OF run amount] by metis
  have pool: "native_pool e' = raise_index inc (native_pool e)"
    using e' by (simp add: native_pool_def raise_index_def)
  note f = checked_reward_index_increment_Inr [OF inc]
  let ?x = "(amount * m div 10000) * REWARD_INDEX_SCALE"
  have eq: "inc = ?x div p_total (native_pool e)"
    using increment_value(1) [OF inc] increment_amount_nonneg [OF inc] by simp
  have "?x - inc * p_total (native_pool e) = ?x mod p_total (native_pool e)"
    unfolding eq by (simp add: minus_div_mult_eq_mod)
  then have "?x - inc * p_total (native_pool e) < p_total (native_pool e)"
    using pos_mod_bound [OF f(1)] by simp
  moreover have "\<forall>u. owed (native_pool e') u = owed (native_pool e) u + p_bal (native_pool e) u * inc"
    unfolding pool by (simp add: owed_def raise_index_def algebra_simps)
  moreover have "p_total (native_pool e) = unwrap_or 0 (k_TotalDeposits (inst e))" by (simp add: native_pool_def)
  ultimately show ?thesis using m eq f(2) s by metis
qed

theorem distribution_pro_rata_witness:
  "\<exists>s m inc. store_reward_distribution 100000 flat1 = Ok s flat2 \<and> 0 < inc \<and>
     inc = (100000 * m div 10000) * REWARD_INDEX_SCALE div p_total (native_pool flat1)"
proof -
  obtain s where r: "store_reward_distribution 100000 flat1 = Ok s flat2"
    using ok_after flat_ok(2) unfolding flat2_def by metis
  from distribution_pro_rata [OF flat_native_ok(2) r] r show ?thesis by (auto simp: in_i128_def)
qed

section \<open>Utilization multiplier\<close>

lemma select_multiplier_find:
  "select_multiplier util sel ms =
     (case find (\<lambda>p. util \<le> utilization_bps p) ms of None \<Rightarrow> sel | Some p \<Rightarrow> multiplier_bps p)"
  by (induction ms) simp_all

text \<open>
  C16. On a curve that initialisation accepts, with a target and a total within range, the
  multiplier applied is that of the point that splits the curve at the current utilization
  \<open>total * 10000 / target\<close>: it and all later points are at or above it, all earlier
  ones below; when every point is below, the last multiplier applies.
\<close>

theorem multiplier_of_curve:
  assumes "0 < target" "ms \<noteq> []" "0 \<le> t" "in_i128 (t * 10000)" "t * 10000 div target < 2 ^ 32"
    and asc: "ascending_from 0 ms"
  shows "\<exists>i < length ms. calculate_utilization_multiplier t target ms = Inr (multiplier_bps (ms ! i)) \<and>
           ((\<forall>j < length ms. t * 10000 div target \<le> utilization_bps (ms ! j) \<longleftrightarrow> i \<le> j) \<or>
            i = length ms - 1 \<and> (\<forall>j < length ms. utilization_bps (ms ! j) < t * 10000 div target))"
proof -
  let ?u = "t * 10000 div target"
  have nn: "0 \<le> ?u" using assms by (simp add: pos_imp_zdiv_nonneg_iff)
  then have u: "as_u32 ?u = ?u" "in_i128 ?u" using assms(5) by (simp_all add: as_u32_def in_i128_def)
  have c: "calculate_utilization_multiplier t target ms = Inr (select_multiplier ?u (multiplier_bps (last ms)) ms)"
    using assms nn u by (simp add: calculate_utilization_multiplier_def int_simps checked_def rok_or_def)
  show ?thesis
  proof (cases "find (\<lambda>p. ?u \<le> utilization_bps p) ms")
    case None
    then have "\<forall>j < length ms. utilization_bps (ms ! j) < ?u" by (simp add: find_None_iff in_set_conv_nth not_le) blast
    with None c assms(2) show ?thesis
      by (intro exI [of _ "length ms - 1"]) (auto simp: select_multiplier_find last_conv_nth)
  next
    case (Some p)
    then obtain i where i: "i < length ms" "?u \<le> utilization_bps (ms ! i)" "p = ms ! i"
      and below: "\<And>j. j < i \<Longrightarrow> \<not> ?u \<le> utilization_bps (ms ! j)"
      by (auto simp: find_Some_iff)
    have mono: "utilization_bps (ms ! i) \<le> utilization_bps (ms ! j)" if "i \<le> j" "j < length ms" for j
      using asc that sorted_nth_mono [of "map utilization_bps ms" i j] by (simp add: ascending_from_iff)
    have "\<forall>j < length ms. ?u \<le> utilization_bps (ms ! j) \<longleftrightarrow> i \<le> j"
      using below mono i(2) by (meson leI order_trans)
    moreover have "calculate_utilization_multiplier t target ms = Inr (multiplier_bps (ms ! i))"
      using Some c i(3) by (simp add: select_multiplier_find)
    ultimately show ?thesis using i(1) by blast
  qed
qed

theorem multiplier_of_curve_witness:
  "\<exists>i < 2. calculate_utilization_multiplier 600 1000
       [\<lparr>utilization_bps = 5000, multiplier_bps = 15000\<rparr>, \<lparr>utilization_bps = 10000, multiplier_bps = 10000\<rparr>] =
     Inr (multiplier_bps ([\<lparr>utilization_bps = 5000, multiplier_bps = 15000\<rparr>,
       \<lparr>utilization_bps = 10000, multiplier_bps = 10000\<rparr>] ! i))"
  using multiplier_of_curve [of 1000 "[\<lparr>utilization_bps = 5000, multiplier_bps = 15000\<rparr>,
       \<lparr>utilization_bps = 10000, multiplier_bps = 10000\<rparr>]" 600]
  by (auto simp: in_i128_def numeral_2_eq_2)

section \<open>Refinement\<close>

text \<open>
  C31. The native ledger refines the abstract reward pool: every storage operation that
  succeeds on a good state, over its i128 arithmetic, lazily settled positions, lock lists and
  rounding, is one step of the pool of the same kind and amount, and leaves a good state. A
  distribution is the step for the amount after the utilization multiplier.
\<close>

theorem ledger_refines_pool:
  assumes "native_exec e op e'" "native_ok e"
  shows "pool_step (native_pool e) op (native_pool e') \<and> native_ok e' \<and>
         p_total (native_pool e') = p_total (native_pool e) + staked op \<and>
         p_idx (native_pool e) \<le> p_idx (native_pool e')"
proof -
  have st: "pool_step (native_pool e) op (native_pool e')" and ok: "native_ok e'"
    using native_exec_step [OF assms] by simp_all
  then show ?thesis using pool_step_total [OF st] pool_step_index_mono [OF st] by simp
qed

theorem ledger_refines_pool_witness:
  "pool_step (native_pool flat0) (PDeposit ''alice'' 500) (native_pool flat1)"
proof -
  have "native_ok flat0" using flat0_inv by (simp add: vault_inv_def)
  from ledger_refines_pool [OF flat_execs(1) this] show ?thesis by simp
qed

end
