(* ===== verification/Vault_V2.thy ===== *)
theory Vault_V2
  imports Vault_Config
begin

text \<open>
  Model of \<open>contracts/vault-contract-v2/src/lib.rs\<close>, the contract an upgrade of the vault
  installs over the same storage, and what it finds there.
\<close>

section \<open>Contract\<close>

definition v2_version :: int where
  "v2_version = 2"

definition v2_admin :: "(Address, 'w) vm" where
  "v2_admin e = (case k_Admin (inst e) of Some a \<Rightarrow> Ok a e | None \<Rightarrow> Trap PanicTrap)"

definition v2_balance :: "Address \<Rightarrow> (int, 'w) vm" where
  "v2_balance user = gets (\<lambda>e. unwrap_or 0 (k_UserBalance (pers e) user))"

definition v2_total_deposits :: "(int, 'w) vm" where
  "v2_total_deposits = gets (\<lambda>e. unwrap_or 0 (k_TotalDeposits (inst e)))"

definition v2_greeting :: string where
  "v2_greeting = ''hello''"

definition v2_upgrade :: "Address \<Rightarrow> BytesN32 \<Rightarrow> (unit, 'w) vm" where
  "v2_upgrade admin new_wasm_hash =
     vthen (require_auth admin) (update_current_contract_wasm new_wasm_hash)"

section \<open>Legacy balances\<close>

text \<open>No entry point of the first version writes the key the second one reads balances from.\<close>

lemma reachable_legacy:
  assumes "reachable tk e" "host_token tk"
  shows "k_UserBalance (pers e) = Map.empty"
  using assms
proof (induction rule: reachable.induct)
  case (deployed e)
  then show ?case by (simp add: empty_pers_def)
next
  case (called e c r e')
  have inv: "vault_inv e" by (rule reachable_inv [OF called.hyps(1) called.prems])
  show ?case
  proof (cases "is_initialized e")
    case True
    with exec_call_config [OF called.hyps(3) called.prems inv called.hyps(2)] called show ?thesis
      by (simp add: config_def)
  next
    case False
    then have "\<not> guarded c"
      using guarded_call_run [OF called.hyps(3) _ called.hyps(2)] unfolding guarded_run_def by blast
    with unguarded_initialized [OF called.hyps(3)] False obtain a d q v t m where "c = Initialize a d q v t m" by blast
    with called.hyps(3) have "pers e' = pers e" by (auto simp: unit_result_Ok dest!: initialize_Ok(6))
    with called show ?thesis by simp
  qed
qed simp

end
