(* ===== verification/Vault_Typing.thy ===== *)
theory Vault_Typing
  imports Vault_Config
begin

text \<open>
  The model keeps amounts as integers. This theory shows that nothing is lost by it: every
  amount and every index a reachable vault has in its storage is a value of the type i128 the
  source declares for it.
\<close>

section \<open>Indices of a pool\<close>

definition pool_typed :: "'u pool \<Rightarrow> bool" where
  "pool_typed p \<longleftrightarrow> in_i128 (p_idx p) \<and> (\<forall>u. in_i128 (p_uidx p u))"

lemma pool_step_typed: "pool_step p op p' \<Longrightarrow> pool_typed p \<Longrightarrow> in_i128 (p_idx p') \<Longrightarrow> pool_typed p'"
  by (induction rule: pool_step.induct) (simp_all add: pool_typed_def pool_defs)

lemma pool_step_same_index: "pool_step p op p' \<Longrightarrow> (\<forall>a. op \<noteq> PDistribute a) \<Longrightarrow> p_idx p' = p_idx p"
  by (induction rule: pool_step.induct) (simp_all add: pool_defs)

section \<open>Distributions\<close>

lemma distribution_index_typed:
  assumes "store_reward_distribution a e = Ok s e'" shows "in_i128 (p_idx (native_pool e'))"
  using assms
  by (auto simp: store_reward_distribution_def vm_Ok_iffs get_state_Ok_iff store_simps int_simps native_pool_def)

lemma asset_distribution_index_typed:
  assumes "store_asset_reward_distribution x a e = Ok n e'" shows "in_i128 (p_idx (asset_pool x e'))"
  using assms
  by (auto simp: store_asset_reward_distribution_def vm_Ok_iffs store_simps int_simps asset_pool_def split: if_splits)

lemma native_exec_typed:
  assumes run: "native_exec e op e'" and "native_ok e" and ty: "pool_typed (native_pool e)"
  shows "pool_typed (native_pool e')"
proof -
  have st: "pool_step (native_pool e) op (native_pool e')" using native_exec_step assms(1,2) by blast
  have "in_i128 (p_idx (native_pool e'))"
  proof (cases "\<exists>a. op = PDistribute a")
    case True
    with run distribution_index_typed show ?thesis by (auto elim!: native_exec.cases)
  next
    case False
    with pool_step_same_index [OF st] ty show ?thesis by (simp add: pool_typed_def)
  qed
  then show ?thesis using pool_step_typed [OF st ty] by blast
qed

lemma asset_exec_typed:
  assumes run: "asset_exec x e op e'" and "asset_ok x e" and ty: "pool_typed (asset_pool x e)"
  shows "pool_typed (asset_pool x e')"
proof -
  have st: "pool_step (asset_pool x e) op (asset_pool x e')" using asset_exec_step assms(1,2) by blast
  have "in_i128 (p_idx (asset_pool x e'))"
  proof (cases "\<exists>a. op = PDistribute a")
    case True
    with run asset_distribution_index_typed show ?thesis by (auto elim!: asset_exec.cases)
  next
    case False
    with pool_step_same_index [OF st] ty show ?thesis by (simp add: pool_typed_def)
  qed
  then show ?thesis using pool_step_typed [OF st ty] by blast
qed

section \<open>Calls\<close>

definition vault_typed :: "'w env \<Rightarrow> bool" where
  "vault_typed e \<longleftrightarrow> pool_typed (native_pool e) \<and> (\<forall>x. pool_typed (asset_pool x e))"

lemma vault_typed_simps [simp]:
  "vault_typed (log_ttl ks e) = vault_typed e"
  "vault_typed (emit ts d e) = vault_typed e"
  "vault_typed (set_guard b e) = vault_typed e"
  by (simp_all add: vault_typed_def)

lemma vault_frame_typed: "vault_frame e e' \<Longrightarrow> vault_typed e \<Longrightarrow> vault_typed e'"
  by (simp add: vault_typed_def vault_frame_pools)

lemma vault_typed_native:
  assumes "native_exec e op e'" "native_ok e" "vault_typed e" shows "vault_typed e'"
  using native_exec_typed [OF assms(1,2)] native_frameD(1) [OF native_exec_frame [OF assms(1,2)]] assms(3)
  by (simp add: vault_typed_def)

lemma vault_typed_asset:
  assumes "asset_exec x e op e'" "asset_ok x e" "vault_typed e" shows "vault_typed e'"
proof -
  from asset_exec_frame [OF assms(1,2)] have f: "asset_frame x e e'" by blast
  have "pool_typed (asset_pool y e')" for y
    using asset_exec_typed [OF assms(1,2)] asset_frameD(3) [OF f, of y] assms(3)
    by (cases "y = x") (auto simp: vault_typed_def)
  then show ?thesis using assms(3) by (simp add: vault_typed_def asset_frameD [OF f])
qed

lemma inside_typed:
  "inside tk e e' \<Longrightarrow> host_token tk \<Longrightarrow> busy_inv e \<Longrightarrow> vault_typed e \<Longrightarrow> vault_typed e'"
proof (induction rule: inside.induct)
  case (in_transfer e e' t a b n e'')
  with inside_busy have "busy_inv e'" by blast
  with in_transfer show ?case using busy_transfer vault_frame_typed by metis
next
  case (in_balance e e' t a n e'')
  with inside_busy have "busy_inv e'" by blast
  with in_balance show ?case using busy_balance vault_frame_typed by metis
next
  case (in_native e e' op e'')
  with inside_busy have "native_ok e'" unfolding busy_inv_def by blast
  with in_native show ?case using vault_typed_native by blast
next
  case (in_unlock e e' l u n e'')
  with inside_busy have ok: "native_ok e'" unfolding busy_inv_def by blast
  from unlock_expired_locks_pool(1) [OF ok in_unlock.hyps(2,3)] native_frameD(1) [OF unlock_frame [OF ok in_unlock.hyps(2,3)]]
  have "vault_typed e'' = vault_typed e'" by (simp add: vault_typed_def)
  with in_unlock show ?case by blast
next
  case (in_asset e e' x op e'')
  with inside_busy have "asset_ok x e'" unfolding busy_inv_def by blast
  with in_asset show ?case using vault_typed_asset by blast
qed simp_all

lemma initialize_typed:
  assumes "initialize a d r v t m e = Ok x e'" "vault_typed e" shows "vault_typed e'"
  using assms(2) unfolding initialize_Ok(6) [OF assms(1)]
  by (simp add: vault_typed_def pool_typed_def native_pool_def asset_pool_def)

lemma guarded_typed:
  assumes "exec_call tk c e = Ok r e'" "guarded c" "well_typed c" "host_token tk" "vault_inv e" "vault_typed e"
  shows "vault_typed e'"
proof -
  obtain ks e1 where ini: "is_initialized e" and ins: "inside tk (log_ttl ks (set_guard True e)) e1"
    and e': "e' = log_ttl ttl_inst (set_guard False e1)"
    using guarded_call_run [OF assms(1,2,3)] unfolding guarded_run_def by blast
  from inside_typed [OF ins assms(4) busy_enter [OF assms(5) ini]] assms(6) e' show ?thesis by simp
qed

lemma exec_call_typed:
  assumes run: "exec_call tk c e = Ok r e'" and "host_token tk" "vault_inv e" "well_typed c" "vault_typed e"
  shows "vault_typed e'"
proof (cases "guarded c")
  case True
  then show ?thesis using guarded_typed assms by blast
next
  case False
  with unguarded_initialized [OF run] consider "is_initialized e" | a d q v t m where "c = Initialize a d q v t m"
    by blast
  then show ?thesis
  proof cases
    case 1
    then have "vault_frame e e'" using unguarded_frame [OF run False] assms(3) by (simp add: vault_inv_def)
    then show ?thesis using vault_frame_typed assms(5) by blast
  next
    case 2
    with run assms(5) initialize_typed show ?thesis by (fastforce simp: unit_result_Ok)
  qed
qed

lemma reachable_typed: "reachable tk e \<Longrightarrow> host_token tk \<Longrightarrow> vault_typed e"
proof (induction rule: reachable.induct)
  case (deployed e)
  then show ?case
    by (simp add: vault_typed_def pool_typed_def native_pool_def asset_pool_def empty_inst_def empty_pers_def)
next
  case (called e c r e')
  then show ?case using exec_call_typed reachable_inv by blast
next
  case (elapsed e e')
  then show ?case by (simp add: vault_typed_def native_pool_def asset_pool_def)
qed

section \<open>Stored amounts\<close>

lemma lock_in_sum: "locks_positive ls \<Longrightarrow> l \<in> set ls \<Longrightarrow> lock_amount l \<le> locked_sum ls"
  by (induction ls) (auto dest: locked_sum_nonneg)

lemma native_lock_typed:
  assumes "native_ok e" "l \<in> set (locks_of (pers e) u)" shows "0 < lock_amount l \<and> in_i128 (lock_amount l)"
proof -
  have p: "locks_positive (locks_of (pers e) u)" by (rule native_okD [OF assms(1)])
  have "0 < lock_amount l" using p assms(2) by (simp add: locks_positive_def list_all_iff)
  then show ?thesis
    using lock_in_sum [OF p assms(2)] native_okD(3) [OF assms(1), of u] native_bal_bound [OF assms(1), of u]
    by (auto simp: in_i128_def)
qed

lemma pool_balance_typed: "pool_inv p \<Longrightarrow> in_i128 (p_total p) \<Longrightarrow> in_i128 (p_bal p u)"
  using member_le_total [of "p_bal p" u] pool_invD(1,3,6) [of p] in_i128_between [of "p_total p" "p_bal p u"] by simp

end
