(* ===== verification/Vault_Admin_Properties.thy ===== *)
theory Vault_Admin_Properties
  imports Vault_Liveness Vault_V2 Vault_Typing
begin

text \<open>
  Administration of the vault: who can change the administrator, what is fixed at
  initialisation, pausing, the separation of the assets, the round trip of a deposit, the types of
  the stored values, and what an upgrade to the second version finds.
\<close>

section \<open>Administrator\<close>

lemma propose_Ok:
  assumes "propose_new_admin n e = Ok x e'"
  shows "\<exists>a. k_Admin (inst e) = Some a \<and> authorized e a \<and> k_Admin (inst e') = Some a \<and> k_PendingAdmin (inst e') = Some n"
  using assms by (auto simp: propose_new_admin_def entry_simps get_admin_Ok_iff set_pending_admin_def state_of_def split: if_splits)

lemma accept_Ok:
  assumes "accept_admin n e = Ok x e'"
  shows "k_PendingAdmin (inst e) = Some n \<and> authorized e n \<and> k_Admin (inst e') = Some n \<and> k_PendingAdmin (inst e') = None"
  using assms
  by (auto simp: accept_admin_def entry_simps get_admin_Ok_iff get_pending_admin_def set_admin_def clear_pending_admin_def
      split: if_splits)

lemma quiet_calls_admin:
  assumes "exec_call tk c e = Ok r e'" "c \<in> {PauseContract, UnpauseContract} \<or> (\<exists>h. c = Upgrade h) \<or> (\<exists>a x. c = AddAsset a x)"
  shows "k_Admin (inst e') = k_Admin (inst e) \<and> k_PendingAdmin (inst e') = k_PendingAdmin (inst e)"
  using assms
  by (auto simp: unit_result_Ok pause_contract_def unpause_contract_def upgrade_def add_asset_def set_paused_def
      add_supported_asset_run update_current_contract_wasm_def entry_simps get_admin_Ok_iff split: if_splits)

text \<open>
  C17. The administrator changes in two steps only: a call leaves the administrator alone, or
  it is the acceptance by the pending administrator, signed by that address; a new pending
  administrator is set only by a proposal signed by the current administrator.
\<close>

theorem admin_two_step:
  assumes "sep41 tk bal" "vault_inv e" "is_initialized e" "well_typed c" and run: "exec_call tk c e = Ok r e'"
  shows "k_Admin (inst e') = k_Admin (inst e) \<and>
           (k_PendingAdmin (inst e') = k_PendingAdmin (inst e) \<or>
            (\<exists>a n. c = ProposeNewAdmin n \<and> k_Admin (inst e) = Some a \<and> authorized e a \<and>
               k_PendingAdmin (inst e') = Some n)) \<or>
         (\<exists>n. c = AcceptAdmin n \<and> k_PendingAdmin (inst e) = Some n \<and> authorized e n \<and>
            k_Admin (inst e') = Some n \<and> k_PendingAdmin (inst e') = None)"
proof (cases "guarded c")
  case True
  from guarded_run_admin [OF guarded_call_run [OF run True assms(4)] assms(1,2)]
  show ?thesis by (simp add: admin_state_def)
next
  case False
  then consider n where "c = ProposeNewAdmin n" | n where "c = AcceptAdmin n" | a d q v t m where "c = Initialize a d q v t m"
    | "c \<in> {PauseContract, UnpauseContract} \<or> (\<exists>h. c = Upgrade h) \<or> (\<exists>a x. c = AddAsset a x)"
    by (cases c) auto
  then show ?thesis
  proof cases
    case 1
    with run propose_Ok [of n e _ e'] show ?thesis by (auto simp: unit_result_Ok)
  next
    case 2
    with run accept_Ok [of n e _ e'] show ?thesis by (auto simp: unit_result_Ok)
  next
    case 3
    with run assms(3) show ?thesis by (auto simp: unit_result_Ok dest: initialize_Ok(2))
  next
    case 4
    with quiet_calls_admin [OF run] show ?thesis by simp
  qed
qed

theorem admin_two_step_witness:
  "\<exists>e' e''. exec_call ledger_token (ProposeNewAdmin ''bob'') demo_live = Ok 0 e' \<and> k_Admin (inst e') = Some ''admin'' \<and>
     exec_call ledger_token (AcceptAdmin ''bob'') e' = Ok 0 e'' \<and> k_Admin (inst e'') = Some ''bob''"
proof -
  let ?p = "exec_call ledger_token (ProposeNewAdmin ''bob'')" let ?a = "exec_call ledger_token (AcceptAdmin ''bob'')"
  have v: "ok_value (?p demo_live) = Some 0" "ok_value (?a (after ?p demo_live)) = Some 0"
    "k_Admin (inst demo_live) = Some ''admin''" "k_Admin (inst (after ?p demo_live)) = Some ''admin''" by code_simp+
  have p: "?p demo_live = Ok 0 (after ?p demo_live)" and a: "?a (after ?p demo_live) = Ok 0 (after ?a (after ?p demo_live))"
    using ok_value_after [of ?p demo_live] ok_value_after [of ?a "after ?p demo_live"] v(1,2) by blast+
  have i: "is_initialized demo_live" by code_simp
  have "k_Admin (inst (after ?p demo_live)) = k_Admin (inst demo_live)"
    using admin_two_step [OF ledger_token_sep41 demo_inv(2) i _ p] by auto
  moreover have "k_Admin (inst (after ?a (after ?p demo_live))) = Some ''bob''" by code_simp
  ultimately show ?thesis using p a v(3) by metis
qed

section \<open>Configuration\<close>

text \<open>
  C18. Once the vault is initialised, no call changes the deposit token, the reward token, the
  vesting period, the target deposits or the multiplier curve, whatever the tokens do when they
  are called.
\<close>

theorem config_immutable:
  assumes "host_token tk" "vault_inv e" "is_initialized e" "well_typed c" "exec_call tk c e = Ok r e'"
  shows "is_initialized e' \<and> k_DepositToken (inst e') = k_DepositToken (inst e) \<and>
         k_RewardToken (inst e') = k_RewardToken (inst e) \<and> k_VestingPeriod (inst e') = k_VestingPeriod (inst e) \<and>
         k_TargetDeposits (inst e') = k_TargetDeposits (inst e) \<and>
         k_UtilizationMultipliers (inst e') = k_UtilizationMultipliers (inst e)"
  using exec_call_config [OF assms(5,1,2,4,3)] assms(3) by (simp add: config_def is_initialized_def)

theorem config_immutable_witness:
  "\<exists>e'. exec_call ledger_token (Deposit ''bob'' 5) demo_live = Ok 0 e' \<and> k_DepositToken (inst e') = Some ''usd''"
proof -
  let ?d = "exec_call ledger_token (Deposit ''bob'' 5)"
  have "ok_value (?d demo_live) = Some 0" by code_simp
  then have d: "?d demo_live = Ok 0 (after ?d demo_live)" by (rule ok_value_after)
  have i: "is_initialized demo_live" "k_DepositToken (inst demo_live) = Some ''usd''" by code_simp+
  from config_immutable [OF ledger_token_host demo_inv(2) i(1) _ d] d i(2) show ?thesis by (auto simp: in_i128_def)
qed

text \<open>
  C19. The reward indices never decrease, and no user's stored index is ahead of the global
  one: every accrual multiplies a balance by a non-negative difference.
\<close>

theorem indices_monotone:
  assumes "host_token tk" "vault_inv e" "is_initialized e" "well_typed c" "exec_call tk c e = Ok r e'"
  shows "unwrap_or 0 (k_RewardIndex (inst e)) \<le> unwrap_or 0 (k_RewardIndex (inst e')) \<and>
         unwrap_or 0 (k_AssetRewardIndex (inst e) x) \<le> unwrap_or 0 (k_AssetRewardIndex (inst e') x) \<and>
         unwrap_or 0 (k_UserRewardIndex (pers e') u) \<le> unwrap_or 0 (k_RewardIndex (inst e'))"
proof -
  have "native_ok e'" using exec_call_inv [OF assms(5,1,2,4)] by (simp add: vault_inv_def)
  from pool_invD(5) [OF native_okD(1) [OF this], of u] exec_call_indices [OF assms(5,1,2,4,3)]
  show ?thesis by (simp add: indices_grow_def native_pool_def asset_pool_def)
qed

theorem indices_monotone_witness:
  "\<exists>r e'. exec_call ledger_token (DistributeRewards 100000) demo_live = Ok r e' \<and>
     unwrap_or 0 (k_RewardIndex (inst demo_live)) \<le> unwrap_or 0 (k_RewardIndex (inst e'))"
proof -
  let ?d = "exec_call ledger_token (DistributeRewards 100000)"
  have "ok_value (?d demo_live) \<noteq> None" by code_simp
  then obtain r where d: "?d demo_live = Ok r (after ?d demo_live)" using ok_after by metis
  have i: "is_initialized demo_live" by code_simp
  from indices_monotone [OF ledger_token_host demo_inv(2) i _ d] d show ?thesis by (auto simp: in_i128_def)
qed

section \<open>Pausing\<close>

text \<open>The calls that check the pause flag.\<close>

fun pausable :: "call \<Rightarrow> bool" where
  "pausable (Initialize a d r v t m) = True"
| "pausable (Deposit u n) = True"
| "pausable (Withdraw u n) = True"
| "pausable (LockCall u n d) = True"
| "pausable (UnlockExpired u l) = True"
| "pausable (ClaimRewards u) = True"
| "pausable (DepositAsset u x n) = True"
| "pausable (WithdrawAsset u x n) = True"
| "pausable (ClaimRewardsForAsset u x) = True"
| "pausable _ = False"

text \<open>
  C20. While the vault is paused every call of a depositor is refused with
  \<open>Unauthorized\<close>, before anything has changed.
\<close>

theorem paused_refuses:
  assumes "unwrap_or False (k_IsPaused (inst e))" "pausable c"
  shows "exec_call tk c e = Err Unauthorized e"
  using assms
  by (cases c)
    (simp_all add: unit_result_def deposit_def withdraw_def lock_def unlock_expired_def claim_rewards_def
      deposit_asset_def withdraw_asset_def claim_rewards_for_asset_def initialize_def
      require_not_paused_def vm_simps vthen_def vbind_def)

theorem paused_refuses_witness:
  "exec_call ledger_token (Withdraw ''alice'' 5) (call_demo PauseContract demo_live) =
     Err Unauthorized (call_demo PauseContract demo_live)"
proof -
  have "unwrap_or False (k_IsPaused (inst (call_demo PauseContract demo_live)))" by code_simp
  from paused_refuses [OF this, of "Withdraw ''alice'' 5" ledger_token] show ?thesis by simp
qed

section \<open>Assets\<close>

fun asset_target :: "call \<Rightarrow> Address option" where
  "asset_target (DepositAsset u x n) = Some x"
| "asset_target (WithdrawAsset u x n) = Some x"
| "asset_target (DistributeRewardsForAsset a x n) = Some x"
| "asset_target (ClaimRewardsForAsset u x) = Some x"
| "asset_target _ = None"

lemma transfer_stores:
  assumes "sep41 tk bal" "tk_transfer tk t a b n e = Some e'"
  shows "inst e' = inst e" "pers e' = pers e"
proof -
  obtain w where "e' = e\<lparr>world := w\<rparr>" by (rule sep41_transfer [OF assms])
  then show "inst e' = inst e" "pers e' = pers e" by simp_all
qed

lemma paid_stores:
  assumes "paid_reward tk u ts d v x e1 e2" "sep41 tk bal"
  shows "inst e2 = inst e1" "pers e2 = pers e1"
proof -
  from assms(1) consider "e2 = e1"
    | t b ks e3 e4 where "tk_balance tk t (contract_address e1) (log_ttl ks e1) = Some (b, e3)"
        "tk_transfer tk t (contract_address e1) u v e3 = Some e4" "e2 = emit ts d e4"
    unfolding paid_reward_def by blast
  then have "inst e2 = inst e1 \<and> pers e2 = pers e1"
  proof cases
    case 2
    from sep41_balance [OF assms(2) 2(1)] transfer_stores [OF assms(2) 2(2)] 2(3) show ?thesis by simp
  qed simp
  then show "inst e2 = inst e1" "pers e2 = pers e1" by simp_all
qed

lemma pools_of_stores:
  assumes "inst e = inst e'" "pers e = pers e'"
  shows "native_pool e = native_pool e'" "asset_pool y e = asset_pool y e'"
  using assms by (simp_all add: native_pool_def asset_pool_def)

text \<open>Around its ledger operation an asset call changes neither store, up to the guard.\<close>

lemma asset_call_exec:
  fixes e :: "'w env"
  assumes run: "exec_call tk c e = Ok r e'" and x: "asset_target c = Some x" and tk: "sep41 tk bal"
  obtains op and e1 e2 :: "'w env" where "asset_exec x e1 op e2" "inst e1 = inst (set_guard True e)" "pers e1 = pers e"
    "inst e' = inst (set_guard False e2)" "pers e' = pers e2"
proof (cases c)
  case (DepositAsset u y n)
  with run x obtain v where "deposit_asset tk u x n e = Ok v e'" by (auto simp: unit_result_Ok)
  from deposit_asset_Ok [OF this] obtain ks e1 e2 q where n: "0 < n"
    and tr: "tk_transfer tk x u (contract_address e) n (log_ttl ks (set_guard True e)) = Some e1"
    and st: "store_asset_deposit u x n e1 = Ok q e2"
    and e': "e' = log_ttl ttl_inst (set_guard False (emit [PROTOCOL, ACT_ASSET_DEPOSIT] (AssetDepositEvent u x n) e2))"
    by metis
  from transfer_stores [OF tk tr] e' show ?thesis
    by (intro that [OF asset_deposit [OF n st]]) (auto simp: set_guard_def)
next
  case (WithdrawAsset u y n)
  with run x obtain v where "withdraw_asset tk u x n e = Ok v e'" by (auto simp: unit_result_Ok)
  from withdraw_asset_Ok [OF this] obtain ks q e1 e2 where n: "0 < n"
    and st: "store_asset_withdraw u x n (log_ttl ks (set_guard True e)) = Ok q e1"
    and tr: "tk_transfer tk x (contract_address e1) u n
       (emit [PROTOCOL, ACT_ASSET_WITHDRAW] (AssetWithdrawEvent u x n (up_balance q)) e1) = Some e2"
    and e': "e' = log_ttl ttl_inst (set_guard False e2)"
    by metis
  from transfer_stores [OF tk tr] e' show ?thesis
    by (intro that [OF asset_withdraw [OF n st]]) (auto simp: set_guard_def)
next
  case (DistributeRewardsForAsset a y n)
  with run x have "distribute_rewards_for_asset tk a x n e = Ok r e'" by simp
  from distribute_for_asset_Ok [OF this] obtain ks t e1 e2
    where tr: "tk_transfer tk t a (contract_address e) n (log_ttl ks (set_guard True e)) = Some e1"
    and st: "store_asset_reward_distribution x n e1 = Ok r e2"
    and e': "e' = log_ttl ttl_inst (set_guard False (emit [PROTOCOL, ACT_ASSET_DISTRIBUTE] (AssetDistributeEvent a x n) e2))"
    by metis
  from transfer_stores [OF tk tr] e' show ?thesis
    by (intro that [OF asset_distribute [OF st]]) (auto simp: set_guard_def)
next
  case (ClaimRewardsForAsset u y)
  with run x have "claim_rewards_for_asset tk u x e = Ok r e'" by simp
  from claim_for_asset_Ok [OF this] obtain ks v e1 e2
    where st: "store_asset_claimable_rewards u x (log_ttl ks (set_guard True e)) = Ok v e1"
    and pay: "paid_reward tk u [PROTOCOL, ACT_ASSET_CLAIM] (AssetClaimEvent u x v) v r e1 e2"
    and e': "e' = log_ttl ttl_inst (set_guard False e2)"
    by metis
  from paid_stores [OF pay tk] e' show ?thesis
    by (intro that [OF asset_claim [OF st]]) (auto simp: set_guard_def)
qed (use x in auto)

text \<open>
  C21. The assets are kept apart: on standard tokens a successful call on one asset leaves the
  native pool and the pool of every other asset, balances, indices and accrued rewards of all
  users, exactly as they were.
\<close>

theorem asset_independence:
  fixes e :: "'w env"
  assumes tk: "sep41 tk bal" and inv: "vault_inv e" and x: "asset_target c = Some x"
    and run: "exec_call tk c e = Ok r e'"
  shows "native_pool e' = native_pool e \<and> (\<forall>y. y = x \<or> asset_pool y e' = asset_pool y e)"
proof -
  obtain op and e1 e2 :: "'w env" where ex: "asset_exec x e1 op e2" and e1: "inst e1 = inst (set_guard True e)" "pers e1 = pers e"
    and e2: "inst e' = inst (set_guard False e2)" "pers e' = pers e2"
    by (rule asset_call_exec [OF run x tk])
  have p1: "native_pool e1 = native_pool e" "\<And>y. asset_pool y e1 = asset_pool y e"
    and p2: "native_pool e' = native_pool e2" "\<And>y. asset_pool y e' = asset_pool y e2"
    using pools_of_stores [of e1 "set_guard True e"] pools_of_stores [of e' "set_guard False e2"] e1 e2
    by simp_all
  have "asset_ok x e1" using inv p1 e1 by (simp add: vault_inv_def asset_ok_def set_guard_def)
  from asset_exec_frame [OF ex this] have "asset_frame x e1 e2" by blast
  from asset_frameD(1,3) [OF this] show ?thesis using p1 p2 by auto
qed

theorem asset_independence_witness:
  "\<exists>e'. exec_call ledger_token (DepositAsset ''bob'' ''eur'' 40) flat0 = Ok 0 e' \<and>
     native_pool e' = native_pool flat0 \<and> p_total (asset_pool ''eur'' e') = 40"
proof -
  let ?d = "exec_call ledger_token (DepositAsset ''bob'' ''eur'' 40)"
  have "ok_value (?d flat0) = Some 0" by code_simp
  then have d: "?d flat0 = Ok 0 (after ?d flat0)" by (rule ok_value_after)
  moreover have "p_total (asset_pool ''eur'' (after ?d flat0)) = 40" by code_simp
  ultimately show ?thesis using asset_independence [OF ledger_token_sep41 flat0_inv _ d] by auto
qed

section \<open>Round trip\<close>

text \<open>
  C22. What was deposited can be withdrawn at once: after a successful deposit the withdrawal
  of the same amount in the same second succeeds, and afterwards every balance, the total and
  everybody's claim to rewards are what they were before the deposit.
\<close>

theorem deposit_withdraw_roundtrip:
  assumes ok: "native_ok e" and n: "0 < n" "in_i128 n" and dep: "store_deposit u n e = Ok r e1"
  shows "\<exists>r' e2. store_withdraw u n e1 = Ok r' e2 \<and> native_ok e2 \<and>
           native_pool e2 = settle u (native_pool e)"
proof -
  from native_exec_step [OF exec_deposit [OF n(1) dep] ok]
  have ok1: "native_ok e1" and st1: "pool_step (native_pool e) (PDeposit u n) (native_pool e1)" by simp_all
  from st1 have p1: "native_pool e1 = change_stake u n (settle u (native_pool e))"
    by (auto elim: pool_step_cases)
  obtain s q where r: "r = (s, q)" by (cases r)
  obtain ks where e1: "e1 = log_ttl ks (with_stores ((inst e)\<lparr>k_TotalDeposits := Some (p_total (native_pool e) + n)\<rparr>)
                       (put_position u q (put_liquid u (liquid_of (pers e) u + n) (pers e))) e)" and i: "is_initialized e"
    using store_deposit_Ok [OF ok dep [unfolded r]] by metis
  obtain a d t where "k_Admin (inst e) = Some a" "k_DepositToken (inst e) = Some d" "k_RewardToken (inst e) = Some t"
    using dep by (auto simp: store_deposit_load load_settled_def vm_Ok_iffs get_state_Ok_iff)
  then have st: "is_initialized e1" "k_Admin (inst e1) = Some a" "k_DepositToken (inst e1) = Some d"
      "k_RewardToken (inst e1) = Some t"
    using i e1 by (simp_all add: is_initialized_def)
  have fits: "accrual_fits (native_pool e1) u"
  proof -
    have "in_i128 (p_acc (native_pool e1) u)" using ok1 unfolding native_ok_def by blast
    then show ?thesis unfolding p1 by (simp add: accrual_fits_def pool_defs earned_def in_i128_def)
  qed
  have w: "n \<le> withdrawable e1 u"
  proof -
    have "n \<le> liquid_of (pers e1) u" using native_okD(3) [OF ok, of u] e1 by (simp add: put_defs)
    moreover have "0 \<le> locked_sum (take k (filter P (locks_of (pers e1) u)))" for k P
      by (rule locked_sum_nonneg, rule locks_positive_sub [OF native_okD(4) [OF ok1, of u]])
        (auto dest: in_set_takeD)
    ultimately show ?thesis by (simp add: withdrawable_def add_increasing2)
  qed
  with store_withdraw_cases [OF ok1 st fits n] obtain r' e2 where w2: "store_withdraw u n e1 = Ok r' e2" by auto
  from native_exec_step [OF exec_withdraw [OF n(1) w2] ok1]
  have ok2: "native_ok e2" and "pool_step (native_pool e1) (PWithdraw u n) (native_pool e2)" by simp_all
  then have "native_pool e2 = change_stake u (- n) (settle u (native_pool e1))" by (auto elim: pool_step_cases)
  then have "native_pool e2 = settle u (native_pool e)" using p1 by (simp add: pool_defs earned_def)
  with w2 ok2 show ?thesis by blast
qed

theorem deposit_withdraw_roundtrip_witness:
  "\<exists>r e2. store_withdraw ''alice'' 500 flat1 = Ok r e2 \<and> native_pool e2 = settle ''alice'' (native_pool flat0)"
proof -
  obtain r where d: "store_deposit ''alice'' 500 flat0 = Ok r flat1"
    using ok_after [of "store_deposit ''alice'' 500", OF flat_ok(1)] unfolding flat1_def by blast
  have "native_ok flat0" using flat0_inv by (simp add: vault_inv_def)
  from deposit_withdraw_roundtrip [OF this _ _ d] show ?thesis by (auto simp: in_i128_def)
qed

section \<open>Upgrade to the second version\<close>

text \<open>
  C23. The second version of the contract loses sight of the deposits: over the storage of any
  reachable vault its \<open>balance\<close> is zero for every user, although its total is the sum of
  the users' balances kept by the first version.
\<close>

theorem v2_balances_lost:
  assumes "reachable tk e" "host_token tk"
  shows "v2_balance u e = Ok 0 e \<and> v2_total_deposits e = Ok (total_of (\<lambda>h. p_bal (native_pool e) h)) e"
proof -
  have "native_ok e" using reachable_inv [OF assms] by (simp add: vault_inv_def)
  from pool_invD(6) [OF native_okD(1) [OF this]] reachable_legacy [OF assms] show ?thesis
    by (simp add: v2_balance_def v2_total_deposits_def gets_def native_pool_def)
qed

theorem v2_balances_lost_witness:
  "v2_balance ''alice'' demo_live = Ok 0 demo_live \<and> p_bal (native_pool demo_live) ''alice'' = 500"
proof -
  have "p_bal (native_pool demo_live) ''alice'' = 500" by code_simp
  with v2_balances_lost [OF demo_live_reachable ledger_token_host] show ?thesis by blast
qed

section \<open>Types of stored values\<close>

text \<open>
  C27. In every reachable state, for tokens that may call back, whatever the storage holds for a
  user, an asset or the vault is a value of the declared type i128: totals, liquid balances,
  amounts of locks, accrued rewards and all reward indices. Balances and rewards are moreover
  never negative, and no lock is empty. No stored amount has wrapped.
\<close>

theorem stored_values_typed:
  assumes "host_token tk" "reachable tk e"
  shows "list_all in_i128
      [unwrap_or 0 (k_TotalDeposits (inst e)), unwrap_or 0 (k_RewardIndex (inst e)),
       liquid_of (pers e) u, unwrap_or 0 (k_UserRewardIndex (pers e) u), unwrap_or 0 (k_UserAccruedRewards (pers e) u),
       unwrap_or 0 (k_AssetTotalDeposits (inst e) x), unwrap_or 0 (k_AssetRewardIndex (inst e) x),
       unwrap_or 0 (k_UserAssetBalance (pers e) (u, x)), unwrap_or 0 (k_UserAssetRewardIndex (pers e) (u, x)),
       unwrap_or 0 (k_UserAssetAccruedRewards (pers e) (u, x))] \<and>
    0 \<le> liquid_of (pers e) u \<and> 0 \<le> unwrap_or 0 (k_UserAccruedRewards (pers e) u) \<and>
    0 \<le> unwrap_or 0 (k_UserAssetBalance (pers e) (u, x)) \<and>
    list_all (\<lambda>l. 0 < lock_amount l \<and> in_i128 (lock_amount l)) (locks_of (pers e) u)"
proof -
  have n: "native_ok e" and a: "asset_ok x e" using reachable_inv [OF assms(2,1)] by (simp_all add: vault_inv_def)
  have ty: "pool_typed (native_pool e)" "pool_typed (asset_pool x e)"
    using reachable_typed [OF assms(2,1)] by (simp_all add: vault_typed_def)
  have "in_i128 (liquid_of (pers e) u)"
    using in_i128_between [OF native_bal_bound [OF n, of u]] native_okD(3,4) [OF n, of u] locked_sum_nonneg by simp
  moreover have "in_i128 (p_bal (asset_pool x e) u)" "0 \<le> p_bal (asset_pool x e) u"
    using a pool_balance_typed pool_invD(3) by (auto simp: asset_ok_def)
  moreover have "0 \<le> p_acc (native_pool e) u" using pool_invD(4) [OF native_okD(1) [OF n]] by simp
  moreover have "list_all (\<lambda>l. 0 < lock_amount l \<and> in_i128 (lock_amount l)) (locks_of (pers e) u)"
    using native_lock_typed [OF n] by (simp add: list_all_iff)
  ultimately show ?thesis
    using n a ty native_okD(3) [OF n, of u]
    by (simp add: pool_typed_def native_ok_def asset_ok_def native_pool_def asset_pool_def)
qed

theorem stored_values_typed_witness:
  "in_i128 (unwrap_or 0 (k_TotalDeposits (inst demo_live))) \<and> 0 < unwrap_or 0 (k_TotalDeposits (inst demo_live))"
proof -
  have "0 < unwrap_or 0 (k_TotalDeposits (inst demo_live))" by code_simp
  with stored_values_typed [OF ledger_token_host demo_live_reachable] show ?thesis by simp
qed

end
