(* ===== verification/Rust_Std.thy ===== *)
theory Rust_Std
  imports Prelude "HOL-Library.Word" "HOL-Library.AList" "HOL-Library.List_Lexorder" "HOL-Library.Char_ord"
begin

text \<open>
  What the network node uses of the Rust standard library: unsigned machine words with
  saturating arithmetic, string normalisation, the hash and tree maps behind one interface,
  and the read-write locks of asynchronous tasks. A string is a list of code points of the
  Latin-1 range; a hash map is an association list whose order is its iteration order.
\<close>

section \<open>Machine words\<close>

type_synonym u8 = "8 word"
type_synonym u32 = "32 word"
type_synonym u64 = "64 word"
type_synonym usize = "64 word"

definition saturating_add :: "'a::len word \<Rightarrow> 'a word \<Rightarrow> 'a word" where
  "saturating_add a b = (if a \<le> a + b then a + b else - 1)"

lemma unat_saturating_add:
  fixes a b :: "'a::len word"
  shows "unat (saturating_add a b) = min (unat a + unat b) (2 ^ LENGTH('a) - 1)"
proof (cases "unat a + unat b < 2 ^ LENGTH('a)")
  case True
  then have "unat (a + b) = unat a + unat b" by (simp add: unat_word_ariths)
  with True show ?thesis by (simp add: saturating_add_def word_le_nat_alt)
next
  case False
  have lt: "unat a < 2 ^ LENGTH('a)" "unat b < 2 ^ LENGTH('a)" by (rule unsigned_less)+
  then have "unat a + unat b - 2 ^ LENGTH('a) < 2 ^ LENGTH('a)" by linarith
  with False have s: "unat (a + b) = unat a + unat b - 2 ^ LENGTH('a)"
    by (simp add: unat_word_ariths le_mod_geq)
  then have "unat (a + b) < unat a" using False lt by linarith
  then have "\<not> a \<le> a + b" by (simp add: word_le_nat_alt)
  with False show ?thesis by (simp add: saturating_add_def unsigned_minus_1_eq_mask mask_eq_exp_minus_1)
qed

lemma saturating_add_ge: "a \<le> saturating_add a b"
  by (simp add: saturating_add_def)

lemma unat_Suc: "x \<noteq> - 1 \<Longrightarrow> unat (x + 1 :: 'a::len word) = Suc (unat x)"
  using unatSuc [of x] eq_neg_iff_add_eq_0 [of x 1] by (simp add: add.commute)

lemma unat_of_nat_small: "n < 2 ^ LENGTH('a) \<Longrightarrow> unat (of_nat n :: 'a::len word) = n"
  by (simp add: unsigned_of_nat take_bit_nat_eq_self)

section \<open>Strings\<close>

definition is_whitespace :: "char \<Rightarrow> bool" where
  "is_whitespace c = (let n = of_char c :: nat in 9 \<le> n \<and> n \<le> 13 \<or> n = 32 \<or> n = 133 \<or> n = 160)"

definition trim :: "string \<Rightarrow> string" where
  "trim s = rev (dropWhile is_whitespace (rev (dropWhile is_whitespace s)))"

definition ascii_lower :: "char \<Rightarrow> char" where
  "ascii_lower c = (let n = of_char c :: nat in if 65 \<le> n \<and> n \<le> 90 then char_of (n + 32) else c)"

definition to_ascii_lowercase :: "string \<Rightarrow> string" where
  "to_ascii_lowercase = map ascii_lower"

lemma of_char_ascii_lower:
  "of_char (ascii_lower c) =
     (let n = of_char c :: nat in if 65 \<le> n \<and> n \<le> 90 then n + 32 else n)"
  by (simp add: ascii_lower_def Let_def)

lemma ascii_lower_idem [simp]: "ascii_lower (ascii_lower c) = ascii_lower c"
  by (simp add: ascii_lower_def Let_def)

lemma is_whitespace_lower [simp]: "is_whitespace (ascii_lower c) = is_whitespace c"
  by (auto simp: is_whitespace_def of_char_ascii_lower Let_def)

lemma dropWhile_whitespace_lower:
  "dropWhile is_whitespace (map ascii_lower s) = map ascii_lower (dropWhile is_whitespace s)"
  by (simp add: dropWhile_map comp_def)

lemma trim_lower: "trim (to_ascii_lowercase s) = to_ascii_lowercase (trim s)"
  by (simp add: trim_def to_ascii_lowercase_def dropWhile_whitespace_lower rev_map)

lemma trim_ends:
  "trim s = [] \<or> \<not> is_whitespace (hd (trim s)) \<and> \<not> is_whitespace (last (trim s))"
proof (cases "trim s = []")
  case False
  let ?t = "dropWhile is_whitespace s" let ?r = "dropWhile is_whitespace (rev ?t)"
  have r: "?r \<noteq> []" using False by (simp add: trim_def)
  then have t: "?t \<noteq> []" by (metis dropWhile.simps(1) rev.simps(1))
  have lst: "\<not> is_whitespace (last (trim s))"
    using hd_dropWhile [OF r] r by (simp add: trim_def last_rev)
  obtain zs where zs: "rev ?t = zs @ ?r" by (metis takeWhile_dropWhile_id)
  then have "?t = rev ?r @ rev zs" by (metis rev_append rev_rev_ident)
  then have "hd ?t = hd (rev ?r)" using r by (metis hd_append2 rev_is_Nil_conv)
  then have "\<not> is_whitespace (hd (trim s))" using hd_dropWhile [OF t] by (simp add: trim_def)
  with lst show ?thesis by simp
qed simp

lemma dropWhile_id: "xs = [] \<or> \<not> P (hd xs) \<Longrightarrow> dropWhile P xs = xs"
  by (cases xs) auto

lemma trim_idem [simp]: "trim (trim s) = trim s"
proof -
  have h: "dropWhile is_whitespace (trim s) = trim s"
    using trim_ends [of s] by (intro dropWhile_id) auto
  have "dropWhile is_whitespace (rev (trim s)) = rev (trim s)"
    using trim_ends [of s] by (intro dropWhile_id) (auto simp: hd_rev)
  with h show ?thesis by (simp add: trim_def [of "trim s"])
qed

subsection \<open>Decimal rendering\<close>

fun show_nat :: "nat \<Rightarrow> string" where
  "show_nat n = (if n < 10 then [char_of (48 + n)] else show_nat (n div 10) @ [char_of (48 + n mod 10)])"

declare show_nat.simps [simp del]

definition show_int :: "int \<Rightarrow> string" where
  "show_int i = (if i < 0 then CHR ''-'' # show_nat (nat (- i)) else show_nat (nat i))"

definition digits_value :: "string \<Rightarrow> nat" where
  "digits_value s = foldl (\<lambda>n c. 10 * n + (of_char c - 48)) 0 s"

lemma digits_value_show: "digits_value (show_nat n) = n"
proof (induction n rule: show_nat.induct)
  case (1 n)
  then show ?case by (subst show_nat.simps) (auto simp: digits_value_def)
qed

lemma show_nat_inject: "show_nat m = show_nat n \<longleftrightarrow> m = n"
  by (metis digits_value_show)

section \<open>Maps\<close>

text \<open>
  The interface of the two map types: the value found after an insertion or a removal, the
  keys present, and the shape every operation keeps.
\<close>

locale key_map =
  fixes lookup :: "'m \<Rightarrow> 'k \<Rightarrow> 'v option"
    and put :: "'k \<Rightarrow> 'v \<Rightarrow> 'm \<Rightarrow> 'm"
    and drop_key :: "'k \<Rightarrow> 'm \<Rightarrow> 'm"
    and key_list :: "'m \<Rightarrow> 'k list"
    and good :: "'m \<Rightarrow> bool"
  assumes lookup_put: "good m \<Longrightarrow> lookup (put k v m) k' = (if k' = k then Some v else lookup m k')"
    and lookup_drop: "good m \<Longrightarrow> lookup (drop_key k m) k' = (if k' = k then None else lookup m k')"
    and key_list_iff: "good m \<Longrightarrow> k \<in> set (key_list m) \<longleftrightarrow> lookup m k \<noteq> None"
    and distinct_keys: "good m \<Longrightarrow> distinct (key_list m)"
    and good_put: "good m \<Longrightarrow> good (put k v m)"
    and good_drop: "good m \<Longrightarrow> good (drop_key k m)"
begin

lemma length_put:
  assumes "good m"
  shows "length (key_list (put k v m)) = (if lookup m k = None then Suc (length (key_list m)) else length (key_list m))"
proof -
  have c: "length (key_list m') = card (set (key_list m'))" if "good m'" for m'
    using distinct_keys [OF that] by (simp add: distinct_card)
  have "set (key_list (put k v m)) = insert k (set (key_list m))"
    using assms by (auto simp: key_list_iff good_put lookup_put split: if_splits)
  then show ?thesis
    using assms c good_put key_list_iff [OF assms, of k] by (simp add: card_insert_if)
qed

lemma put_count:
  assumes "good m"
  shows "length (key_list (put k v m)) \<le> Suc (length (key_list m))"
  using length_put [OF assms] by simp

lemma drop_put: "good m \<Longrightarrow> lookup (drop_key k (put k v m)) k' = lookup (drop_key k m) k'"
  by (simp add: lookup_drop good_put lookup_put)

end

subsection \<open>Hash maps\<close>

type_synonym ('k, 'v) hash_map = "('k \<times> 'v) list"

abbreviation hm_get :: "('k, 'v) hash_map \<Rightarrow> 'k \<Rightarrow> 'v option" where
  "hm_get m k \<equiv> map_of m k"

definition hm_insert :: "'k \<Rightarrow> 'v \<Rightarrow> ('k, 'v) hash_map \<Rightarrow> ('k, 'v) hash_map" where
  "hm_insert k v m = AList.update k v m"

definition hm_remove :: "'k \<Rightarrow> ('k, 'v) hash_map \<Rightarrow> ('k, 'v) hash_map" where
  "hm_remove k m = AList.delete k m"

definition hm_ok :: "('k, 'v) hash_map \<Rightarrow> bool" where
  "hm_ok m \<longleftrightarrow> distinct (map fst m)"

text \<open>\<open>get_mut\<close> followed by an assignment: nothing happens when the key is missing.\<close>

definition hm_modify :: "'k \<Rightarrow> ('v \<Rightarrow> 'v) \<Rightarrow> ('k, 'v) hash_map \<Rightarrow> ('k, 'v) hash_map" where
  "hm_modify k f m = (case hm_get m k of None \<Rightarrow> m | Some v \<Rightarrow> hm_insert k (f v) m)"

text \<open>\<open>entry(k).or_insert(d)\<close> followed by an assignment through the reference.\<close>

definition hm_entry :: "'k \<Rightarrow> 'v \<Rightarrow> ('v \<Rightarrow> 'v) \<Rightarrow> ('k, 'v) hash_map \<Rightarrow> ('k, 'v) hash_map" where
  "hm_entry k d f m = hm_insert k (f (unwrap_or d (hm_get m k))) m"

lemma hm_get_insert [simp]: "hm_get (hm_insert k v m) k' = (if k' = k then Some v else hm_get m k')"
  by (simp add: hm_insert_def update_conv')

lemma hm_get_remove [simp]: "hm_get (hm_remove k m) k' = (if k' = k then None else hm_get m k')"
  by (simp add: hm_remove_def delete_conv')

lemma hm_get_modify [simp]:
  "hm_get (hm_modify k f m) k' = (if k' = k then map_option f (hm_get m k) else hm_get m k')"
  by (simp add: hm_modify_def split: option.split)

lemma hm_get_entry [simp]:
  "hm_get (hm_entry k d f m) k' = (if k' = k then Some (f (unwrap_or d (hm_get m k))) else hm_get m k')"
  by (simp add: hm_entry_def)

lemma hm_ok_simps [simp]:
  "hm_ok []"
  "hm_ok m \<Longrightarrow> hm_ok (hm_insert k v m)"
  "hm_ok m \<Longrightarrow> hm_ok (hm_remove k m)"
  "hm_ok m \<Longrightarrow> hm_ok (hm_modify k f m)"
  "hm_ok m \<Longrightarrow> hm_ok (hm_entry k d f m)"
  by (auto simp: hm_ok_def hm_insert_def hm_remove_def hm_modify_def hm_entry_def distinct_update
      intro: distinct_delete split: option.split)

interpretation hm: key_map map_of hm_insert hm_remove "map fst" hm_ok
  by unfold_locales (auto simp: hm_ok_def map_of_eq_None_iff simp flip: hm_ok_def)

subsection \<open>Tree maps\<close>

text \<open>A tree map is the list of its entries in ascending key order, the order it iterates in.\<close>

type_synonym ('k, 'v) btree_map = "('k \<times> 'v) list"

abbreviation bt_get :: "('k, 'v) btree_map \<Rightarrow> 'k \<Rightarrow> 'v option" where
  "bt_get m k \<equiv> map_of m k"

fun bt_insert :: "'k::linorder \<Rightarrow> 'v \<Rightarrow> ('k, 'v) btree_map \<Rightarrow> ('k, 'v) btree_map" where
  "bt_insert k v [] = [(k, v)]"
| "bt_insert k v ((k', v') # m) =
     (if k < k' then (k, v) # (k', v') # m
      else if k = k' then (k, v) # m
      else (k', v') # bt_insert k v m)"

definition bt_remove :: "'k \<Rightarrow> ('k, 'v) btree_map \<Rightarrow> ('k, 'v) btree_map" where
  "bt_remove k m = filter (\<lambda>e. fst e \<noteq> k) m"

definition bt_ok :: "('k::linorder, 'v) btree_map \<Rightarrow> bool" where
  "bt_ok m \<longleftrightarrow> sorted_wrt (<) (map fst m)"

lemma bt_get_insert: "bt_get (bt_insert k v m) k' = (if k' = k then Some v else bt_get m k')" if "bt_ok m"
  using that by (induction m) (auto simp: bt_ok_def)

lemma set_bt_insert: "fst ` set (bt_insert k v m) = insert k (fst ` set m)"
  by (induction k v m rule: bt_insert.induct) (simp_all add: insert_commute)

lemma bt_ok_insert [simp]: "bt_ok m \<Longrightarrow> bt_ok (bt_insert k v m)"
proof (induction m)
  case (Cons e m)
  then have "bt_ok (bt_insert k v m)" by (simp add: bt_ok_def)
  moreover have "fst e < x" if "x \<in> fst ` set (bt_insert k v m)" "fst e < k" for x
    using that Cons.prems unfolding set_bt_insert by (auto simp: bt_ok_def)
  ultimately show ?case using Cons.prems by (cases e) (auto simp: bt_ok_def)
qed (simp add: bt_ok_def)

lemma bt_get_remove: "bt_get (bt_remove k m) k' = (if k' = k then None else bt_get m k')"
  by (induction m) (auto simp: bt_remove_def)

lemma bt_ok_Nil [simp]: "bt_ok []"
  by (simp add: bt_ok_def)

lemma bt_ok_remove [simp]: "bt_ok m \<Longrightarrow> bt_ok (bt_remove k m)"
  by (induction m) (auto simp: bt_ok_def bt_remove_def)

lemma bt_ok_distinct: "bt_ok m \<Longrightarrow> distinct (map fst m)"
  by (simp add: bt_ok_def strict_sorted_iff)

interpretation bt: key_map map_of bt_insert bt_remove "map fst" "bt_ok :: ('k::linorder, 'v) btree_map \<Rightarrow> bool"
  by unfold_locales
    (auto simp: bt_get_insert bt_get_remove map_of_eq_None_iff dest: bt_ok_distinct)

end
