(* ===== verification/Chain_Params.thy ===== *)
theory Chain_Params
  imports Rust_Std "HOL-Library.Multiset"
begin

text \<open>
  Model of \<open>network-node/src/chain_params.rs\<close>: genesis parameters, patches that activate at
  a block height, the roles that may administer them and the two governance modes. Reading
  and decoding the genesis file is left out; identifiers drawn at random are arguments.
\<close>

section \<open>Parameters and patches\<close>

record NetworkParameters =
  max_block_body_bytes :: u64
  min_base_fee :: u64
  max_transactions_per_block :: u32

record NetworkParametersPatch =
  patch_max_block_body_bytes :: "u64 option"
  patch_min_base_fee :: "u64 option"
  patch_max_transactions_per_block :: "u32 option"

definition apply_patch :: "NetworkParameters \<Rightarrow> NetworkParametersPatch \<Rightarrow> NetworkParameters" where
  "apply_patch self patch =
     \<lparr>max_block_body_bytes = unwrap_or (max_block_body_bytes self) (patch_max_block_body_bytes patch),
      min_base_fee = unwrap_or (min_base_fee self) (patch_min_base_fee patch),
      max_transactions_per_block =
        unwrap_or (max_transactions_per_block self) (patch_max_transactions_per_block patch)\<rparr>"

definition merge_patches :: "NetworkParametersPatch \<Rightarrow> NetworkParametersPatch \<Rightarrow> NetworkParametersPatch" where
  "merge_patches into add =
    (let into = (if patch_max_block_body_bytes add \<noteq> None
                 then into\<lparr>patch_max_block_body_bytes := patch_max_block_body_bytes add\<rparr> else into);
         into = (if patch_min_base_fee add \<noteq> None
                 then into\<lparr>patch_min_base_fee := patch_min_base_fee add\<rparr> else into);
         into = (if patch_max_transactions_per_block add \<noteq> None
                 then into\<lparr>patch_max_transactions_per_block := patch_max_transactions_per_block add\<rparr> else into)
     in into)"

definition patch_has_changes :: "NetworkParametersPatch \<Rightarrow> bool" where
  "patch_has_changes p \<longleftrightarrow> patch_max_block_body_bytes p \<noteq> None \<or> patch_min_base_fee p \<noteq> None \<or>
     patch_max_transactions_per_block p \<noteq> None"

section \<open>Governance and registry\<close>

datatype GovernanceConfig =
  AdminKeys (admin_keys: "string list")
| Dao (dao_members: "string list") (dao_min_approvals: u32)

record GenesisDocument =
  schema_version :: u32
  genesis_chain_id :: string
  genesis_time_rfc3339 :: "string option"
  network_parameters :: NetworkParameters
  parameter_upgrade_governance :: GovernanceConfig
  genesis_min_activation_delay_blocks :: u64

definition default_schema_version :: u32 where
  "default_schema_version = 1"

definition default_min_activation_delay_blocks :: u64 where
  "default_min_activation_delay_blocks = 100"

record ScheduledUpgradeRecord =
  transaction_id :: string
  announced_at_height :: u64
  activation_epoch_height :: u64
  upgrade_patch :: NetworkParametersPatch

datatype Role = Admin | Operator

record ChainParameterRegistry =
  chain_id :: string
  governance :: GovernanceConfig
  min_activation_delay_blocks :: u64
  current_height :: u64
  genesis_parameters :: NetworkParameters
  activations :: "(u64, NetworkParametersPatch) btree_map"
  upgrade_history :: "ScheduledUpgradeRecord list"
  roles :: "(string, Role) btree_map"

datatype RegistryError =
  EmptyPatch
| NoPermissionedRole string
| OperatorInsufficient
| RoleNotFound
| PermissionDenied RegistryError
| DaoVotersNotEmpty
| ProposerRequired
| NotAnAdminKey
| ZeroMinApprovals
| UnknownDaoVoter string
| MissingApprovals u32 u32
| ActivationTooEarly u64 u64 u64 u64

definition normalize_id :: "string \<Rightarrow> string" where
  "normalize_id s = to_ascii_lowercase (trim s)"

definition seed_admins :: "string list \<Rightarrow> (string, Role) btree_map \<Rightarrow> (string, Role) btree_map" where
  "seed_admins keys m = foldl (\<lambda>m key. bt_insert (normalize_id key) Admin m) m keys"

definition from_genesis_document :: "GenesisDocument \<Rightarrow> ChainParameterRegistry" where
  "from_genesis_document doc =
     \<lparr>chain_id = genesis_chain_id doc, governance = parameter_upgrade_governance doc,
      min_activation_delay_blocks = genesis_min_activation_delay_blocks doc, current_height = 0,
      genesis_parameters = network_parameters doc, activations = [], upgrade_history = [],
      roles = (case parameter_upgrade_governance doc of
                 AdminKeys keys \<Rightarrow> seed_admins keys [] | Dao members min_approvals \<Rightarrow> [])\<rparr>"

definition development_default :: ChainParameterRegistry where
  "development_default = from_genesis_document
     \<lparr>schema_version = 1, genesis_chain_id = ''axionvera-dev'', genesis_time_rfc3339 = None,
      network_parameters = \<lparr>max_block_body_bytes = 2097152, min_base_fee = 100, max_transactions_per_block = 1000\<rparr>,
      parameter_upgrade_governance = AdminKeys [''dev-admin''],
      genesis_min_activation_delay_blocks = 10\<rparr>"

definition effective_parameters_at :: "ChainParameterRegistry \<Rightarrow> u64 \<Rightarrow> NetworkParameters" where
  "effective_parameters_at self height =
     foldl (\<lambda>p (h, patch). if h \<le> height then apply_patch p patch else p)
       (genesis_parameters self) (activations self)"

definition active_parameters :: "ChainParameterRegistry \<Rightarrow> NetworkParameters" where
  "active_parameters self = effective_parameters_at self (current_height self)"

definition pending_upgrades :: "ChainParameterRegistry \<Rightarrow> ScheduledUpgradeRecord list" where
  "pending_upgrades self = filter (\<lambda>r. current_height self < activation_epoch_height r) (upgrade_history self)"

definition set_chain_tip_height :: "u64 \<Rightarrow> ChainParameterRegistry \<Rightarrow> ChainParameterRegistry" where
  "set_chain_tip_height height self = self\<lparr>current_height := height\<rparr>"

definition check_role :: "ChainParameterRegistry \<Rightarrow> string \<Rightarrow> Role \<Rightarrow> RegistryError + unit" where
  "check_role self address required_role =
     rbind (rok_or (NoPermissionedRole address) (bt_get (roles self) (normalize_id address)))
       (\<lambda>role. case (role, required_role) of
          (Admin, _) \<Rightarrow> Inr ()
        | (Operator, Operator) \<Rightarrow> Inr ()
        | (Operator, Admin) \<Rightarrow> Inl OperatorInsufficient)"

definition grant_role ::
  "string \<Rightarrow> string \<Rightarrow> Role \<Rightarrow> ChainParameterRegistry \<Rightarrow> RegistryError + ChainParameterRegistry" where
  "grant_role caller target role self =
     rbind (check_role self caller Admin)
       (\<lambda>_. Inr (self\<lparr>roles := bt_insert (normalize_id target) role (roles self)\<rparr>))"

definition revoke_role :: "string \<Rightarrow> string \<Rightarrow> ChainParameterRegistry \<Rightarrow> RegistryError + ChainParameterRegistry" where
  "revoke_role caller target self =
     rbind (check_role self caller Admin)
       (\<lambda>_. let target_id = normalize_id target in
          if bt_get (roles self) target_id \<noteq> None
          then Inr (self\<lparr>roles := bt_remove target_id (roles self)\<rparr>)
          else Inl RoleNotFound)"

fun count_approvals ::
  "string list \<Rightarrow> string list \<Rightarrow> u32 \<Rightarrow> string list \<Rightarrow> RegistryError + u32" where
  "count_approvals member_set seen valid [] = Inr valid"
| "count_approvals member_set seen valid (v # vs) =
    (let n = normalize_id v in
     if n = [] then count_approvals member_set seen valid vs
     else if n \<notin> set member_set then Inl (UnknownDaoVoter v)
     else if n \<in> set seen then count_approvals member_set seen valid vs
     else count_approvals member_set (n # seen) (valid + 1) vs)"

definition authorize_upgrade :: "ChainParameterRegistry \<Rightarrow> string \<Rightarrow> string list \<Rightarrow> RegistryError + unit" where
  "authorize_upgrade self proposer_address dao_voter_addresses =
    (case governance self of
       AdminKeys keys \<Rightarrow>
         if list_ex (\<lambda>v. v \<noteq> []) dao_voter_addresses then Inl DaoVotersNotEmpty
         else let p = normalize_id proposer_address in
           if p = [] then Inl ProposerRequired
           else if \<not> list_ex (\<lambda>k. normalize_id k = p) keys then Inl NotAnAdminKey
           else Inr ()
     | Dao members min_approvals \<Rightarrow>
         if min_approvals = 0 then Inl ZeroMinApprovals
         else rbind (count_approvals (map normalize_id members) [] 0 dao_voter_addresses)
           (\<lambda>valid. if valid < min_approvals then Inl (MissingApprovals min_approvals valid) else Inr ()))"

definition schedule_patch ::
  "u64 \<Rightarrow> NetworkParametersPatch \<Rightarrow> (u64, NetworkParametersPatch) btree_map \<Rightarrow> (u64, NetworkParametersPatch) btree_map" where
  "schedule_patch h patch m =
     bt_insert h (case bt_get m h of Some existing \<Rightarrow> merge_patches existing patch | None \<Rightarrow> patch) m"

definition submit_parameter_upgrade ::
  "string \<Rightarrow> NetworkParametersPatch \<Rightarrow> u64 \<Rightarrow> string \<Rightarrow> string list \<Rightarrow> ChainParameterRegistry \<Rightarrow>
     RegistryError + (string \<times> ChainParameterRegistry)" where
  "submit_parameter_upgrade tx_id patch activation proposer_address dao_voter_addresses self =
    (if \<not> patch_has_changes patch then Inl EmptyPatch
     else case check_role self proposer_address Operator of
       Inl e \<Rightarrow> Inl (PermissionDenied e)
     | Inr _ \<Rightarrow>
         rbind (authorize_upgrade self proposer_address dao_voter_addresses) (\<lambda>_.
           let tip = current_height self;
               min_h = saturating_add tip (min_activation_delay_blocks self)
           in if activation < min_h
              then Inl (ActivationTooEarly activation min_h tip (min_activation_delay_blocks self))
              else Inr (tx_id, self\<lparr>
                activations := schedule_patch activation patch (activations self),
                upgrade_history := upgrade_history self @
                  [\<lparr>transaction_id = tx_id, announced_at_height = tip,
                    activation_epoch_height = activation, upgrade_patch = patch\<rparr>]\<rparr>)))"

section \<open>Histories of a registry\<close>

text \<open>The public operations that change a registry, and the states they reach from genesis.\<close>

inductive registry_step :: "ChainParameterRegistry \<Rightarrow> ChainParameterRegistry \<Rightarrow> bool" where
  step_tip: "registry_step r (set_chain_tip_height h r)"
| step_grant: "grant_role c t role r = Inr r' \<Longrightarrow> registry_step r r'"
| step_revoke: "revoke_role c t r = Inr r' \<Longrightarrow> registry_step r r'"
| step_submit: "submit_parameter_upgrade tx patch h p voters r = Inr (tx', r') \<Longrightarrow> registry_step r r'"

inductive registry_reachable :: "GenesisDocument \<Rightarrow> ChainParameterRegistry \<Rightarrow> bool" for doc where
  at_genesis: "registry_reachable doc (from_genesis_document doc)"
| after_step: "registry_reachable doc r \<Longrightarrow> registry_step r r' \<Longrightarrow> registry_reachable doc r'"

text \<open>
  The reference semantics of a schedule: the patches of the submitted upgrades that are due
  at a height, ordered by activation height and then by submission.
\<close>

definition due_patches :: "ScheduledUpgradeRecord list \<Rightarrow> u64 \<Rightarrow> NetworkParametersPatch list" where
  "due_patches hist height =
     map upgrade_patch (filter (\<lambda>r. activation_epoch_height r \<le> height) (sort_key activation_epoch_height hist))"

section \<open>Patches\<close>

lemma apply_merge: "apply_patch p (merge_patches a b) = apply_patch (apply_patch p a) b"
  by (auto simp: apply_patch_def merge_patches_def Let_def)

lemma apply_foldl_merge:
  "apply_patch p (foldl merge_patches q qs) = foldl apply_patch (apply_patch p q) qs"
  by (induction qs arbitrary: q p) (simp_all add: apply_merge)

section \<open>Identifiers and roles\<close>

lemma normalize_id_idem [simp]: "normalize_id (normalize_id s) = normalize_id s"
  by (simp add: normalize_id_def trim_lower) (simp add: to_ascii_lowercase_def)

lemma check_role_Inr_iff:
  "check_role r a req = Inr u \<longleftrightarrow>
     bt_get (roles r) (normalize_id a) = Some Admin \<or>
     (req = Operator \<and> bt_get (roles r) (normalize_id a) = Some Operator)"
  by (cases "bt_get (roles r) (normalize_id a)"; cases req) (auto simp: check_role_def split: Role.splits)

lemma grant_role_Inr_iff:
  "grant_role c t role r = Inr r' \<longleftrightarrow>
     bt_get (roles r) (normalize_id c) = Some Admin \<and>
     r' = r\<lparr>roles := bt_insert (normalize_id t) role (roles r)\<rparr>"
  by (auto simp: grant_role_def rbind_Inr_iff check_role_Inr_iff)

lemma revoke_role_Inr_iff:
  "revoke_role c t r = Inr r' \<longleftrightarrow>
     bt_get (roles r) (normalize_id c) = Some Admin \<and> bt_get (roles r) (normalize_id t) \<noteq> None \<and>
     r' = r\<lparr>roles := bt_remove (normalize_id t) (roles r)\<rparr>"
  by (auto simp: revoke_role_def rbind_Inr_iff check_role_Inr_iff Let_def)

lemma submit_Inr_iff:
  "submit_parameter_upgrade tx patch h prop voters r = Inr (tx', r') \<longleftrightarrow>
     patch_has_changes patch \<and> check_role r prop Operator = Inr () \<and>
     authorize_upgrade r prop voters = Inr () \<and>
     saturating_add (current_height r) (min_activation_delay_blocks r) \<le> h \<and> tx' = tx \<and>
     r' = r\<lparr>activations := schedule_patch h patch (activations r),
            upgrade_history := upgrade_history r @
              [\<lparr>transaction_id = tx, announced_at_height = current_height r,
                activation_epoch_height = h, upgrade_patch = patch\<rparr>]\<rparr>"
  by (auto simp: submit_parameter_upgrade_def rbind_Inr_iff Let_def not_less split: sum.splits)

section \<open>Counting approvals\<close>

definition approvers :: "string list \<Rightarrow> string set" where
  "approvers vs = normalize_id ` set vs - {[]}"

lemma approvers_simps [simp]:
  "approvers [] = {}"
  "approvers (v # vs) = (if normalize_id v = [] then approvers vs else insert (normalize_id v) (approvers vs))"
  by (auto simp: approvers_def)

lemma finite_approvers [simp]: "finite (approvers vs)"
  by (simp add: approvers_def)

lemma card_new_approver:
  "n \<notin> S \<Longrightarrow> finite A \<Longrightarrow> card (insert n A - S) = Suc (card (A - insert n S))"
proof -
  assume "n \<notin> S" "finite A"
  then have "insert n A - S = insert n (A - insert n S)" by auto
  with \<open>finite A\<close> show ?thesis by simp
qed

lemma count_approvals_spec:
  "count_approvals ms seen valid vs = Inr n \<longleftrightarrow>
     approvers vs \<subseteq> set ms \<and> n = valid + of_nat (card (approvers vs - set seen))"
proof (induction vs arbitrary: seen valid)
  case (Cons v vs)
  let ?n = "normalize_id v"
  consider (empty) "?n = []" | (unknown) "?n \<noteq> []" "?n \<notin> set ms"
    | (again) "?n \<noteq> []" "?n \<in> set ms" "?n \<in> set seen" | (new) "?n \<noteq> []" "?n \<in> set ms" "?n \<notin> set seen"
    by blast
  then show ?case
  proof cases
    case empty
    then show ?thesis using Cons.IH by simp
  next
    case unknown
    then show ?thesis by (simp add: Let_def)
  next
    case again
    then have "insert ?n (approvers vs) - set seen = approvers vs - set seen" by auto
    with again show ?thesis using Cons.IH by (simp add: Let_def)
  next
    case new
    then show ?thesis using Cons.IH card_new_approver [OF new(3) finite_approvers, of vs] by (simp add: Let_def add.assoc)
  qed
qed auto

section \<open>The schedule\<close>

lemma schedule_patch_get:
  "bt_ok m \<Longrightarrow> bt_get (schedule_patch h p m) k =
     (if k = h then Some (case bt_get m h of None \<Rightarrow> p | Some q \<Rightarrow> merge_patches q p) else bt_get m k)"
  by (simp add: schedule_patch_def bt_get_insert split: option.split)

lemma schedule_patch_ok: "bt_ok m \<Longrightarrow> bt_ok (schedule_patch h p m)"
  by (simp add: schedule_patch_def)

text \<open>The patch stored for a height merges the patches submitted for it, in order.\<close>

definition merged_at :: "ScheduledUpgradeRecord list \<Rightarrow> u64 \<Rightarrow> NetworkParametersPatch option" where
  "merged_at hist k =
     (case map upgrade_patch (filter (\<lambda>r. activation_epoch_height r = k) hist) of
        [] \<Rightarrow> None | q # qs \<Rightarrow> Some (foldl merge_patches q qs))"

lemma merged_at_snoc:
  "merged_at (hist @ [r]) k =
     (if activation_epoch_height r = k
      then Some (case merged_at hist k of None \<Rightarrow> upgrade_patch r | Some q \<Rightarrow> merge_patches q (upgrade_patch r))
      else merged_at hist k)"
  by (auto simp: merged_at_def split: list.split)

definition registry_inv :: "ChainParameterRegistry \<Rightarrow> bool" where
  "registry_inv r \<longleftrightarrow> bt_ok (activations r) \<and> bt_ok (roles r) \<and>
     (\<forall>k. bt_get (activations r) k = merged_at (upgrade_history r) k)"

lemma seed_admins_ok: "bt_ok m \<Longrightarrow> bt_ok (seed_admins keys m)"
  unfolding seed_admins_def by (induction keys arbitrary: m) auto

lemma registry_step_inv: "registry_step r r' \<Longrightarrow> registry_inv r \<Longrightarrow> registry_inv r'"
  by (induction rule: registry_step.induct)
    (auto simp: set_chain_tip_height_def grant_role_Inr_iff revoke_role_Inr_iff submit_Inr_iff registry_inv_def
      schedule_patch_ok schedule_patch_get merged_at_snoc split: option.split)

lemma genesis_inv: "registry_inv (from_genesis_document doc)"
  by (auto simp: registry_inv_def from_genesis_document_def merged_at_def seed_admins_ok split: GovernanceConfig.split)

lemma reachable_registry_inv: "registry_reachable doc r \<Longrightarrow> registry_inv r"
  by (induction rule: registry_reachable.induct) (auto intro: genesis_inv registry_step_inv)

lemma registry_step_constants:
  "registry_step r r' \<Longrightarrow> governance r' = governance r \<and> genesis_parameters r' = genesis_parameters r \<and>
     chain_id r' = chain_id r \<and> min_activation_delay_blocks r' = min_activation_delay_blocks r"
  by (induction rule: registry_step.induct)
    (auto simp: set_chain_tip_height_def grant_role_Inr_iff revoke_role_Inr_iff submit_Inr_iff)

lemma reachable_constants:
  "registry_reachable doc r \<Longrightarrow>
     governance r = parameter_upgrade_governance doc \<and> genesis_parameters r = network_parameters doc"
  by (induction rule: registry_reachable.induct)
    (auto simp: from_genesis_document_def dest: registry_step_constants)

section \<open>Governance by a DAO\<close>

text \<open>No role exists at genesis and only a role holder can create one.\<close>

lemma no_roles_step:
  "registry_step r r' \<Longrightarrow> roles r = [] \<Longrightarrow> roles r' = [] \<and> upgrade_history r' = upgrade_history r"
  by (induction rule: registry_step.induct)
    (auto simp: set_chain_tip_height_def grant_role_Inr_iff revoke_role_Inr_iff submit_Inr_iff check_role_Inr_iff)

lemma dao_no_roles:
  "registry_reachable doc r \<Longrightarrow> parameter_upgrade_governance doc = Dao ms n \<Longrightarrow>
     roles r = [] \<and> upgrade_history r = []"
  by (induction rule: registry_reachable.induct)
    (auto simp: from_genesis_document_def dest: no_roles_step)

section \<open>Effective parameters\<close>

lemma filter_groups:
  assumes "distinct (map fst m)"
  shows "filter (\<lambda>x. f x = k) (concat (map (\<lambda>e. filter (\<lambda>r. f r = fst e) hist) m)) =
      (if k \<in> fst ` set m then filter (\<lambda>x. f x = k) hist else [])"
  using assms
proof (induction m)
  case (Cons e m)
  have "filter (\<lambda>x. f x = k) (filter (\<lambda>r. f r = fst e) hist) = (if k = fst e then filter (\<lambda>x. f x = k) hist else [])"
    by (auto simp: filter_empty_conv intro: filter_cong)
  with Cons show ?case by auto
qed simp

lemma sorted_groups:
  "bt_ok m \<Longrightarrow> sorted (map f (concat (map (\<lambda>e. filter (\<lambda>r. f r = fst e) hist) m)))"
proof (induction m)
  case (Cons e m)
  have "map f (filter (\<lambda>r. f r = fst e) hist) = replicate (length (filter (\<lambda>r. f r = fst e) hist)) (fst e)"
    by (simp add: map_replicate_const [symmetric] cong: map_cong)
  then have "sorted (map f (filter (\<lambda>r. f r = fst e) hist))" by simp
  with Cons show ?case by (auto simp: bt_ok_def sorted_append less_imp_le)
qed simp

lemma sort_by_schedule:
  assumes ok: "bt_ok m" and keys: "\<And>k. k \<in> fst ` set m \<longleftrightarrow> (\<exists>r \<in> set hist. f r = k)"
  shows "sort_key f hist = concat (map (\<lambda>e. filter (\<lambda>r. f r = fst e) hist) m)"
proof -
  let ?S = "concat (map (\<lambda>e. filter (\<lambda>r. f r = fst e) hist) m)"
  have all: "filter (\<lambda>x. f x = k) ?S = filter (\<lambda>x. f x = k) hist" for k
    using filter_groups [OF bt_ok_distinct [OF ok], of f k hist] keys [of k] by (auto simp: filter_empty_conv)
  have "mset ?S = mset hist"
  proof (rule multiset_eqI)
    fix x
    have c: "count (mset l) x = count (mset (filter (\<lambda>y. f y = f x) l)) x" for l by simp
    show "count (mset ?S) x = count (mset hist) x"
      by (simp only: c [of ?S] c [of hist] all)
  qed
  moreover have "filter (\<lambda>x. f y = f x) ?S = filter (\<lambda>x. f y = f x) hist" for y
  proof -
    have "(\<lambda>x. f y = f x) = (\<lambda>x. f x = f y)" by auto
    with all [of "f y"] show ?thesis by (simp only:)
  qed
  ultimately show ?thesis by (intro properties_for_sort_key sorted_groups [OF ok])
qed

text \<open>
  Folding the stored patches equals folding the submitted patches in schedule order.
\<close>

lemma foldl_groups:
  assumes "\<And>e. e \<in> set m \<Longrightarrow> merged_at hist (fst e) = Some (snd e)"
  shows "foldl (\<lambda>p (h, patch). if h \<le> height then apply_patch p patch else p) p m =
    foldl apply_patch p (map upgrade_patch (filter (\<lambda>r. activation_epoch_height r \<le> height)
      (concat (map (\<lambda>e. filter (\<lambda>r. activation_epoch_height r = fst e) hist) m))))"
  using assms
proof (induction m arbitrary: p)
  case (Cons e m)
  let ?g = "filter (\<lambda>r. activation_epoch_height r = fst e) hist"
  have g: "filter (\<lambda>r. activation_epoch_height r \<le> height) ?g = (if fst e \<le> height then ?g else [])"
    by (auto simp: filter_empty_conv intro: filter_cong)
  have "apply_patch p (snd e) = foldl apply_patch p (map upgrade_patch ?g)"
    using Cons.prems [of e] by (auto simp: merged_at_def split: list.splits) (metis apply_foldl_merge)
  with Cons g show ?case by (cases e) simp
qed simp

lemma effective_is_schedule:
  assumes "registry_inv r"
  shows "effective_parameters_at r height =
           foldl apply_patch (genesis_parameters r) (due_patches (upgrade_history r) height)"
proof -
  have ok: "bt_ok (activations r)" and get: "\<And>k. bt_get (activations r) k = merged_at (upgrade_history r) k"
    using assms by (simp_all add: registry_inv_def)
  have "k \<in> fst ` set (activations r) \<longleftrightarrow> (\<exists>x \<in> set (upgrade_history r). activation_epoch_height x = k)" for k
  proof -
    have "k \<in> fst ` set (activations r) \<longleftrightarrow> merged_at (upgrade_history r) k \<noteq> None"
      using bt.key_list_iff [OF ok, of k] by (simp add: get)
    also have "\<dots> \<longleftrightarrow> (\<exists>x \<in> set (upgrade_history r). activation_epoch_height x = k)"
      by (cases "filter (\<lambda>r. activation_epoch_height r = k) (upgrade_history r)")
        (auto simp: merged_at_def filter_empty_conv dest: filter_eq_ConsD)
    finally show ?thesis .
  qed
  note srt = sort_by_schedule [OF ok this]
  have "merged_at (upgrade_history r) (fst e) = Some (snd e)" if "e \<in> set (activations r)" for e
    using that get [of "fst e"] bt_ok_distinct [OF ok] by (metis map_of_eq_Some_iff prod.collapse)
  then show ?thesis
    unfolding effective_parameters_at_def due_patches_def srt by (rule foldl_groups)
qed

end
