(* ===== verification/Governance.thy ===== *)
theory Governance
  imports Chain_Params
begin

text \<open>
  Model of \<open>network-node/src/governance.rs\<close>: proposals to change the network parameters,
  the votes on them, and the tick that tallies the proposals whose voting period is over and
  submits the passed ones to the parameter registry. The iteration order of the two hash maps
  is the order of the lists; identifiers drawn at random are arguments.
\<close>

section \<open>Data\<close>

datatype ProposalStatus = Voting | Passed | Rejected | Executed | Expired

record Vote =
  voter :: string
  approve :: bool
  weight :: u64

record Proposal =
  proposal_id :: string
  proposer :: string
  proposed_patch :: NetworkParametersPatch
  activation_height :: u64
  proposal_status :: ProposalStatus
  votes :: "(string, Vote) hash_map"
  end_height :: u64

record GovernanceService =
  proposals :: "(string, Proposal) hash_map"
  voting_duration :: u64

datatype GovernanceError =
  ProposerUnauthorized RegistryError
| VoterUnauthorized RegistryError
| ProposalNotFound
| CannotVote ProposalStatus

section \<open>Operations\<close>

definition new_governance :: "u64 \<Rightarrow> GovernanceService" where
  "new_governance duration = \<lparr>proposals = [], voting_duration = duration\<rparr>"

definition propose ::
  "string \<Rightarrow> string \<Rightarrow> NetworkParametersPatch \<Rightarrow> u64 \<Rightarrow> u64 \<Rightarrow> ChainParameterRegistry \<Rightarrow> GovernanceService \<Rightarrow>
     GovernanceError + (string \<times> GovernanceService)" where
  "propose uuid who patch activation height registry self =
    (case check_role registry who Operator of
       Inl e \<Rightarrow> Inl (ProposerUnauthorized e)
     | Inr _ \<Rightarrow>
         let prop =
           \<lparr>proposal_id = uuid, proposer = who, proposed_patch = patch, activation_height = activation,
            proposal_status = Voting, votes = [], end_height = height + voting_duration self\<rparr>
         in Inr (uuid, self\<lparr>proposals := hm_insert uuid prop (proposals self)\<rparr>))"

definition cast_vote ::
  "string \<Rightarrow> string \<Rightarrow> bool \<Rightarrow> ChainParameterRegistry \<Rightarrow> GovernanceService \<Rightarrow> GovernanceError + GovernanceService" where
  "cast_vote pid who yes registry self =
    (case check_role registry who Operator of
       Inl e \<Rightarrow> Inl (VoterUnauthorized e)
     | Inr _ \<Rightarrow>
         (case hm_get (proposals self) pid of
            None \<Rightarrow> Inl ProposalNotFound
          | Some p \<Rightarrow>
              if proposal_status p \<noteq> Voting then Inl (CannotVote (proposal_status p))
              else Inr (self\<lparr>proposals := hm_insert pid
                (p\<lparr>votes := hm_insert (normalize_id who) \<lparr>voter = who, approve = yes, weight = 1\<rparr> (votes p)\<rparr>)
                (proposals self)\<rparr>)))"

definition yes_votes :: "string list \<Rightarrow> Proposal \<Rightarrow> u32" where
  "yes_votes members p = of_nat (length (filter
     (\<lambda>v. approve v \<and> list_ex (\<lambda>m. normalize_id m = normalize_id (voter v)) members) (map snd (votes p))))"

definition is_due :: "u64 \<Rightarrow> Proposal \<Rightarrow> bool" where
  "is_due height p \<longleftrightarrow> proposal_status p = Voting \<and> end_height p \<le> height"

definition has_passed :: "GovernanceConfig \<Rightarrow> Proposal \<Rightarrow> bool" where
  "has_passed config p =
     (case config of
        Dao members min_approvals \<Rightarrow> min_approvals \<le> yes_votes members p
      | AdminKeys keys \<Rightarrow> True)"

definition tally :: "GovernanceConfig \<Rightarrow> u64 \<Rightarrow> Proposal \<Rightarrow> Proposal" where
  "tally config height p =
     (if is_due height p
      then p\<lparr>proposal_status := if has_passed config p then Passed else Rejected\<rparr>
      else p)"

fun execute_passed ::
  "(string \<Rightarrow> string) \<Rightarrow> string list \<Rightarrow> (string, Proposal) hash_map \<Rightarrow> ChainParameterRegistry \<Rightarrow>
     (string, Proposal) hash_map \<times> ChainParameterRegistry" where
  "execute_passed tx_ids [] ps registry = (ps, registry)"
| "execute_passed tx_ids (pid # ids) ps registry =
    (case hm_get ps pid of
       None \<Rightarrow> execute_passed tx_ids ids ps registry
     | Some p \<Rightarrow>
         (case submit_parameter_upgrade (tx_ids pid) (proposed_patch p) (activation_height p) (proposer p)
                 (map (\<lambda>v. voter (snd v)) (votes p)) registry of
            Inr (_, registry') \<Rightarrow>
              execute_passed tx_ids ids (hm_insert pid (p\<lparr>proposal_status := Executed\<rparr>) ps) registry'
          | Inl e \<Rightarrow> execute_passed tx_ids ids ps registry))"

definition tick ::
  "(string \<Rightarrow> string) \<Rightarrow> u64 \<Rightarrow> GovernanceService \<times> ChainParameterRegistry \<Rightarrow>
     GovernanceService \<times> ChainParameterRegistry" where
  "tick tx_ids height st =
    (let (self, registry) = st;
         config = governance registry;
         to_execute = map (\<lambda>e. proposal_id (snd e))
           (filter (\<lambda>e. is_due height (snd e) \<and> has_passed config (snd e)) (proposals self));
         tallied = map (\<lambda>(k, p). (k, tally config height p)) (proposals self);
         (ps, registry') = execute_passed tx_ids to_execute tallied registry
     in (self\<lparr>proposals := ps\<rparr>, registry'))"

section \<open>Histories of the service\<close>

inductive gov_reachable :: "GenesisDocument \<Rightarrow> GovernanceService \<times> ChainParameterRegistry \<Rightarrow> bool" for doc where
  gov_start: "gov_reachable doc (new_governance d, from_genesis_document doc)"
| gov_registry: "gov_reachable doc (g, r) \<Longrightarrow> registry_step r r' \<Longrightarrow> gov_reachable doc (g, r')"
| gov_propose: "gov_reachable doc (g, r) \<Longrightarrow> hm_get (proposals g) uuid = None \<Longrightarrow>
    propose uuid who patch a h r g = Inr (i, g') \<Longrightarrow> gov_reachable doc (g', r)"
| gov_vote: "gov_reachable doc (g, r) \<Longrightarrow> cast_vote pid who yes r g = Inr g' \<Longrightarrow> gov_reachable doc (g', r)"
| gov_tick: "gov_reachable doc st \<Longrightarrow> gov_reachable doc (tick tx_ids h st)"

section \<open>Invariant\<close>

text \<open>
  Proposals are stored under their identifier, votes under the normalised voter, each with
  weight one; an executed proposal has its upgrade in the history of the registry, and nobody
  with a name voted on it.
\<close>

definition votes_ok :: "Proposal \<Rightarrow> bool" where
  "votes_ok p \<longleftrightarrow> hm_ok (votes p) \<and>
     (\<forall>k v. hm_get (votes p) k = Some v \<longrightarrow> k = normalize_id (voter v) \<and> weight v = 1)"

definition executed_ok :: "ChainParameterRegistry \<Rightarrow> Proposal \<Rightarrow> bool" where
  "executed_ok r p \<longleftrightarrow> (proposal_status p = Executed \<longrightarrow>
     (\<exists>u \<in> set (upgrade_history r). upgrade_patch u = proposed_patch p \<and>
        activation_epoch_height u = activation_height p) \<and>
     (\<exists>keys. governance r = AdminKeys keys) \<and> (\<forall>e \<in> set (votes p). voter (snd e) = []))"

definition gov_inv :: "GovernanceService \<Rightarrow> ChainParameterRegistry \<Rightarrow> bool" where
  "gov_inv g r \<longleftrightarrow> hm_ok (proposals g) \<and>
     (\<forall>k p. hm_get (proposals g) k = Some p \<longrightarrow> proposal_id p = k \<and> votes_ok p \<and> executed_ok r p)"

definition no_dao_roles :: "ChainParameterRegistry \<Rightarrow> bool" where
  "no_dao_roles r \<longleftrightarrow> (\<forall>ms n. governance r = Dao ms n \<longrightarrow> roles r = [])"

lemma registry_step_history:
  "registry_step r r' \<Longrightarrow> set (upgrade_history r) \<subseteq> set (upgrade_history r')"
  by (induction rule: registry_step.induct)
    (auto simp: set_chain_tip_height_def grant_role_Inr_iff revoke_role_Inr_iff submit_Inr_iff)

lemma executed_ok_step: "executed_ok r p \<Longrightarrow> registry_step r r' \<Longrightarrow> executed_ok r' p"
  using registry_step_history registry_step_constants by (fastforce simp: executed_ok_def)

lemma gov_inv_registry: "gov_inv g r \<Longrightarrow> registry_step r r' \<Longrightarrow> gov_inv g r'"
  by (auto simp: gov_inv_def intro: executed_ok_step)

lemma no_dao_roles_step: "registry_step r r' \<Longrightarrow> no_dao_roles r \<Longrightarrow> no_dao_roles r'"
  using no_roles_step registry_step_constants by (fastforce simp: no_dao_roles_def)

lemma no_dao_roles_genesis: "no_dao_roles (from_genesis_document doc)"
  by (auto simp: no_dao_roles_def from_genesis_document_def)

lemma gov_inv_insert:
  "gov_inv g r \<Longrightarrow> proposal_id p = k \<Longrightarrow> votes_ok p \<Longrightarrow> executed_ok r p \<Longrightarrow>
     gov_inv (g\<lparr>proposals := hm_insert k p (proposals g)\<rparr>) r"
  by (simp add: gov_inv_def)

lemma gov_inv_propose:
  "gov_inv g r \<Longrightarrow> propose uuid who patch a h r g = Inr (i, g') \<Longrightarrow> gov_inv g' r"
  using gov_inv_insert [of g r "\<lparr>proposal_id = uuid, proposer = who, proposed_patch = patch,
    activation_height = a, proposal_status = Voting, votes = [], end_height = h + voting_duration g\<rparr>" uuid]
  by (auto simp: propose_def Let_def votes_ok_def executed_ok_def split: sum.splits)

lemma gov_inv_vote:
  assumes inv: "gov_inv g r" and run: "cast_vote pid who yes r g = Inr g'"
  shows "gov_inv g' r"
proof -
  from run obtain p where p: "hm_get (proposals g) pid = Some p" "proposal_status p = Voting"
    and g': "g' = g\<lparr>proposals := hm_insert pid
       (p\<lparr>votes := hm_insert (normalize_id who) \<lparr>voter = who, approve = yes, weight = 1\<rparr> (votes p)\<rparr>) (proposals g)\<rparr>"
    by (auto simp: cast_vote_def split: sum.splits option.splits if_splits)
  have "proposal_id p = pid" "votes_ok p" using inv p by (simp_all add: gov_inv_def)
  with p(2) show ?thesis
    unfolding g' by (intro gov_inv_insert [OF inv]) (auto simp: votes_ok_def executed_ok_def)
qed

text \<open>Submission succeeds only for a passed proposal nobody with a name voted on.\<close>

lemma submit_voterless:
  assumes "submit_parameter_upgrade tx patch h who voters r = Inr (tx', r')" "no_dao_roles r"
  shows "\<exists>keys. governance r = AdminKeys keys \<and> (\<forall>v \<in> set voters. v = [])"
proof (cases "governance r")
  case (AdminKeys keys)
  with assms(1) show ?thesis
    by (auto simp: submit_Inr_iff authorize_upgrade_def list_ex_iff split: if_splits)
next
  case (Dao ms n)
  with assms show ?thesis by (simp add: submit_Inr_iff check_role_Inr_iff no_dao_roles_def)
qed

lemma execute_passed_inv:
  assumes "gov_inv (g\<lparr>proposals := ps\<rparr>) r" "no_dao_roles r" "execute_passed tx ids ps r = (ps', r')"
  shows "gov_inv (g\<lparr>proposals := ps'\<rparr>) r' \<and> no_dao_roles r'"
  using assms
proof (induction ids arbitrary: ps r)
  case (Cons i ids)
  show ?case
  proof (cases "hm_get ps i")
    case None
    with Cons show ?thesis by simp
  next
    case (Some p)
    show ?thesis
    proof (cases "submit_parameter_upgrade (tx i) (proposed_patch p) (activation_height p) (proposer p)
                 (map (\<lambda>v. voter (snd v)) (votes p)) r")
      case (Inl e)
      with Cons Some show ?thesis by simp
    next
      case (Inr x)
      obtain t r1 where x: "x = (t, r1)" by (cases x)
      note sub = Inr [unfolded x]
      have st: "registry_step r r1" by (rule step_submit [OF sub])
      have inv1: "gov_inv (g\<lparr>proposals := ps\<rparr>) r1" by (rule gov_inv_registry [OF Cons.prems(1) st])
      have "executed_ok r1 (p\<lparr>proposal_status := Executed\<rparr>)"
        using submit_voterless [OF sub Cons.prems(2)] registry_step_constants [OF st] sub
        by (auto simp: executed_ok_def submit_Inr_iff)
      moreover have "proposal_id p = i" "votes_ok p" using inv1 Some by (simp_all add: gov_inv_def)
      ultimately have "gov_inv (g\<lparr>proposals := hm_insert i (p\<lparr>proposal_status := Executed\<rparr>) ps\<rparr>) r1"
        using gov_inv_insert [OF inv1, of "p\<lparr>proposal_status := Executed\<rparr>" i] by (simp add: votes_ok_def)
      with Cons Some sub no_dao_roles_step [OF st] show ?thesis by simp
    qed
  qed
qed simp

lemma map_of_tally: "map_of (map (\<lambda>(k, p). (k, f p)) m) k = map_option f (map_of m k)"
  by (induction m) auto

lemma gov_inv_tally:
  assumes "gov_inv g r"
  shows "gov_inv (g\<lparr>proposals := map (\<lambda>(k, p). (k, tally c h p)) (proposals g)\<rparr>) r"
proof -
  have "map fst (map (\<lambda>(k, p). (k, tally c h p)) (proposals g)) = map fst (proposals g)" by auto
  then have "hm_ok (map (\<lambda>(k, p). (k, tally c h p)) (proposals g))"
    using assms unfolding gov_inv_def hm_ok_def by (simp only:)
  moreover have "proposal_id (tally c h p) = proposal_id p \<and> (votes_ok p \<longrightarrow> votes_ok (tally c h p)) \<and>
      (executed_ok r p \<longrightarrow> executed_ok r (tally c h p))" for p
    by (auto simp: tally_def votes_ok_def executed_ok_def)
  ultimately show ?thesis
    using assms by (auto simp: gov_inv_def map_of_tally)
qed

lemma gov_inv_tick:
  assumes "gov_inv g r" "no_dao_roles r" "tick tx h (g, r) = (g', r')"
  shows "gov_inv g' r' \<and> no_dao_roles r'"
  using assms(3) execute_passed_inv [OF gov_inv_tally [OF assms(1)] assms(2)]
  by (auto simp: tick_def Let_def split: prod.splits)

lemma gov_reachable_inv: "gov_reachable doc st \<Longrightarrow> gov_inv (fst st) (snd st) \<and> no_dao_roles (snd st)"
proof (induction rule: gov_reachable.induct)
  case (gov_start d)
  show ?case by (simp add: gov_inv_def new_governance_def no_dao_roles_genesis)
next
  case (gov_tick st tx_ids h)
  then show ?case using gov_inv_tick [of "fst st" "snd st" tx_ids h] by (cases "tick tx_ids h st") auto
qed (auto intro: gov_inv_registry no_dao_roles_step gov_inv_propose gov_inv_vote)

end
