(* ===== verification/Chain_Properties.thy ===== *)
theory Chain_Properties
  imports Governance
begin

text \<open>
  What the parameter registry and the governance service guarantee, and the two governance
  modes in which they guarantee less than they announce.
\<close>

section \<open>Demo registry\<close>

definition demo_patch :: NetworkParametersPatch where
  "demo_patch = \<lparr>patch_max_block_body_bytes = None, patch_min_base_fee = Some 250, patch_max_transactions_per_block = None\<rparr>"

definition demo_doc :: "GovernanceConfig \<Rightarrow> GenesisDocument" where
  "demo_doc g = \<lparr>schema_version = 1, genesis_chain_id = ''c'', genesis_time_rfc3339 = None,
     network_parameters = \<lparr>max_block_body_bytes = 2097152, min_base_fee = 100, max_transactions_per_block = 1000\<rparr>,
     parameter_upgrade_governance = g, genesis_min_activation_delay_blocks = 10\<rparr>"

definition demo_submit :: "ChainParameterRegistry \<Rightarrow> RegistryError + (string \<times> ChainParameterRegistry)" where
  "demo_submit = submit_parameter_upgrade ''t'' demo_patch 20 ''a'' []"

definition demo_upgraded :: ChainParameterRegistry where
  "demo_upgraded = snd (projr (demo_submit (from_genesis_document (demo_doc (AdminKeys [''A''])))))"

lemma demo_submit_Inr:
  "demo_submit (from_genesis_document (demo_doc (AdminKeys [''A'']))) = Inr (''t'', demo_upgraded)"
  unfolding demo_upgraded_def by code_simp

lemma demo_upgraded_reachable: "registry_reachable (demo_doc (AdminKeys [''A''])) demo_upgraded"
  using at_genesis demo_submit_Inr [unfolded demo_submit_def, THEN step_submit] by (rule after_step)

section \<open>Registry\<close>

text \<open>
  C24. The parameters in force at a height are the genesis parameters with the patch of every
  upgrade submitted for that height or an earlier one applied, in the order of the activation
  heights and, at one height, in the order of submission: merging patches per height loses
  nothing.
\<close>

theorem parameters_follow_schedule:
  assumes "registry_reachable doc r"
  shows "effective_parameters_at r height =
           foldl apply_patch (network_parameters doc) (due_patches (upgrade_history r) height)"
  using effective_is_schedule [OF reachable_registry_inv [OF assms]] reachable_constants [OF assms] by simp

theorem parameters_follow_schedule_witness:
  "min_base_fee (effective_parameters_at demo_upgraded 20) = 250 \<and>
   min_base_fee (foldl apply_patch (network_parameters (demo_doc (AdminKeys [''A''])))
     (due_patches (upgrade_history demo_upgraded) 20)) = 250"
proof -
  have "min_base_fee (effective_parameters_at demo_upgraded 20) = 250" by code_simp
  with parameters_follow_schedule [OF demo_upgraded_reachable, of 20] show ?thesis by simp
qed

lemma due_patches_snoc_later:
  assumes "height < activation_epoch_height u"
  shows "due_patches (hist @ [u]) height = due_patches hist height"
proof -
  have "\<not> activation_epoch_height u \<le> height" using assms by (simp add: not_le)
  then show ?thesis by (simp add: due_patches_def filter_sort)
qed

text \<open>
  C25. An accepted upgrade is announced ahead: the activation delay of the chain passes before
  it has any effect, so the parameters in force at the present height and at every height
  before the end of the delay are unchanged by it. The sum of height and delay saturates.
\<close>

theorem upgrade_respects_delay:
  assumes "registry_reachable doc r"
    and run: "submit_parameter_upgrade tx patch a who voters r = Inr (tx', r')"
    and early: "unat height < min (2 ^ 64 - 1) (unat (current_height r) + unat (min_activation_delay_blocks r))"
  shows "effective_parameters_at r' height = effective_parameters_at r height \<and>
         registry_reachable doc r' \<and> patch \<in> set (due_patches (upgrade_history r') a)"
proof (intro conjI)
  let ?u = "\<lparr>transaction_id = tx, announced_at_height = current_height r, activation_epoch_height = a, upgrade_patch = patch\<rparr>"
  show reach: "registry_reachable doc r'" by (rule after_step [OF assms(1) step_submit [OF run]])
  have a: "saturating_add (current_height r) (min_activation_delay_blocks r) \<le> a"
    and h: "upgrade_history r' = upgrade_history r @ [?u]" "genesis_parameters r' = genesis_parameters r"
    using run by (simp_all add: submit_Inr_iff)
  have "height < a" using early a unfolding word_less_nat_alt word_le_nat_alt unat_saturating_add by (simp add: min_def split: if_splits)
  then have "due_patches (upgrade_history r') height = due_patches (upgrade_history r) height"
    unfolding h by (intro due_patches_snoc_later) simp
  then show "effective_parameters_at r' height = effective_parameters_at r height"
    using effective_is_schedule reachable_registry_inv assms(1) reach h(2) by metis
  show "patch \<in> set (due_patches (upgrade_history r') a)"
    unfolding h due_patches_def by force
qed

theorem upgrade_respects_delay_witness:
  "min_base_fee (effective_parameters_at demo_upgraded 9) = 100"
proof -
  let ?r = "from_genesis_document (demo_doc (AdminKeys [''A'']))"
  have "unat (9 :: u64) < min (2 ^ 64 - 1) (unat (current_height ?r) + unat (min_activation_delay_blocks ?r))"
    by (simp add: from_genesis_document_def demo_doc_def)
  from upgrade_respects_delay [OF at_genesis demo_submit_Inr [unfolded demo_submit_def] this]
  have "effective_parameters_at demo_upgraded 9 = effective_parameters_at ?r 9" by simp
  moreover have "min_base_fee (effective_parameters_at ?r 9) = 100" by code_simp
  ultimately show ?thesis by simp
qed



text \<open>
  The approval rule of a DAO counts people, not votes: an upgrade is authorised exactly
  when every named voter is a member and the number of distinct members named, spelling
  variants taken together, reaches the threshold, which must not be zero.
\<close>

lemma dao_approval_rule:
  assumes "governance r = Dao members min_approvals" "length members < 2 ^ 32"
  shows "authorize_upgrade r who voters = Inr () \<longleftrightarrow>
     min_approvals \<noteq> 0 \<and> approvers voters \<subseteq> normalize_id ` set members \<and>
     unat min_approvals \<le> card (approvers voters)"
proof (cases "approvers voters \<subseteq> normalize_id ` set members")
  case True
  have "card (approvers voters) \<le> card (set (map normalize_id members))"
    using True by (intro card_mono) auto
  also have "\<dots> \<le> length members" using card_length [of "map normalize_id members"] by simp
  finally have "unat (of_nat (card (approvers voters)) :: u32) = card (approvers voters)"
    using assms(2) by (intro unat_of_nat_small) simp
  moreover have "count_approvals (map normalize_id members) [] 0 voters = Inr (of_nat (card (approvers voters)))"
    using True by (simp add: count_approvals_spec)
  ultimately show ?thesis
    using True assms(1) by (simp add: authorize_upgrade_def word_less_nat_alt not_less)
next
  case False
  then have "count_approvals (map normalize_id members) [] 0 voters \<noteq> Inr n" for n
    by (simp add: count_approvals_spec)
  then obtain e where "count_approvals (map normalize_id members) [] 0 voters = Inl e" by (metis sum.exhaust)
  with False assms(1) show ?thesis by (simp add: authorize_upgrade_def)
qed

section \<open>Governance\<close>

text \<open>
  C28. In every history of the governance service proposals are kept under their own
  identifier, each voter has one vote of weight one, and a proposal is marked executed only
  if its upgrade is in the registry. That only ever happens under administrator keys, and to
  proposals no named voter voted on: the voters are handed to the registry, which refuses any
  voter in this mode.
\<close>

theorem executed_proposals:
  assumes "gov_reachable doc (g, r)" "hm_get (proposals g) i = Some p"
  shows "proposal_id p = i \<and> distinct (map (\<lambda>e. normalize_id (voter (snd e))) (votes p)) \<and>
     (\<forall>e \<in> set (votes p). weight (snd e) = 1) \<and>
     (proposal_status p = Executed \<longrightarrow>
        (\<exists>u \<in> set (upgrade_history r). upgrade_patch u = proposed_patch p \<and>
           activation_epoch_height u = activation_height p) \<and>
        (\<exists>keys. governance r = AdminKeys keys) \<and> (\<forall>e \<in> set (votes p). voter (snd e) = []))"
proof -
  have p: "proposal_id p = i" "votes_ok p" "executed_ok r p"
    using gov_reachable_inv [OF assms(1)] assms(2) by (simp_all add: gov_inv_def)
  have v: "fst e = normalize_id (voter (snd e)) \<and> weight (snd e) = 1" if "e \<in> set (votes p)" for e
  proof -
    have "hm_get (votes p) (fst e) = Some (snd e)"
      using p(2) that by (simp add: votes_ok_def hm_ok_def)
    then show ?thesis using p(2) by (simp add: votes_ok_def)
  qed
  then have "map (\<lambda>e. normalize_id (voter (snd e))) (votes p) = map fst (votes p)" by simp
  then have "distinct (map (\<lambda>e. normalize_id (voter (snd e))) (votes p))"
    using p(2) unfolding votes_ok_def hm_ok_def by (simp only:)
  with p(1,3) v show ?thesis unfolding executed_ok_def by blast
qed

definition demo_gov :: "(GovernanceService \<times> ChainParameterRegistry)" where
  "demo_gov = (let r = from_genesis_document (demo_doc (AdminKeys [''A''])) in
     (snd (projr (propose ''p'' ''a'' demo_patch 20 0 r (new_governance 5))), r))"

theorem executed_proposals_witness:
  "\<exists>p. hm_get (proposals (fst (tick id 5 demo_gov))) ''p'' = Some p \<and> proposal_status p = Executed \<and>
     (\<exists>u \<in> set (upgrade_history (snd (tick id 5 demo_gov))). upgrade_patch u = proposed_patch p)"
proof -
  let ?r = "from_genesis_document (demo_doc (AdminKeys [''A'']))" and ?t = "tick id 5 demo_gov"
  have "propose ''p'' ''a'' demo_patch 20 0 ?r (new_governance 5) = Inr (''p'', fst demo_gov)"
    unfolding demo_gov_def by code_simp
  moreover have "hm_get (proposals (new_governance 5)) ''p'' = None" by code_simp
  ultimately have "gov_reachable (demo_doc (AdminKeys [''A''])) (fst demo_gov, ?r)"
    using gov_propose [OF gov_start] by blast
  then have "gov_reachable (demo_doc (AdminKeys [''A''])) ?t"
    using gov_tick [of _ demo_gov id 5] by (simp add: demo_gov_def Let_def)
  then have reach: "gov_reachable (demo_doc (AdminKeys [''A''])) (fst ?t, snd ?t)" by simp
  have "map_option proposal_status (hm_get (proposals (fst ?t)) ''p'') = Some Executed" by code_simp
  then obtain p where p: "hm_get (proposals (fst ?t)) ''p'' = Some p" "proposal_status p = Executed" by auto
  from executed_proposals [OF reach p(1)] p show ?thesis by blast
qed

end
