(* ===== verification/Rust_Async.thy ===== *)
theory Rust_Async
  imports Rust_Std
begin

text \<open>
  Asynchronous tasks over shared state behind read-write locks. A run of a task returns a
  value, returns early with an error, or waits for a lock for ever. The locks are not
  re-entrant: a task that asks for a lock it holds itself, in a mode that excludes the held
  one, is never woken. A guard is released at the end of its scope, also on an early return.
  The locks prefer writers, as those of tokio do: while a writer waits for the readers to leave,
  no further reader is admitted.
\<close>

datatype ('e, 'a, 's) run = Done 'a 's | Fail 'e 's | Blocked 's

type_synonym ('e, 'a, 's) task = "'s \<Rightarrow> ('e, 'a, 's) run"

definition t_ret :: "'a \<Rightarrow> ('e, 'a, 's) task" where
  "t_ret x = Done x"

definition t_fail :: "'e \<Rightarrow> ('e, 'a, 's) task" where
  "t_fail e = Fail e"

definition t_gets :: "('s \<Rightarrow> 'a) \<Rightarrow> ('e, 'a, 's) task" where
  "t_gets f s = Done (f s) s"

definition t_modify :: "('s \<Rightarrow> 's) \<Rightarrow> ('e, unit, 's) task" where
  "t_modify f s = Done () (f s)"

definition t_bind :: "('e, 'a, 's) task \<Rightarrow> ('a \<Rightarrow> ('e, 'b, 's) task) \<Rightarrow> ('e, 'b, 's) task" where
  "t_bind m k s = (case m s of Done x s' \<Rightarrow> k x s' | Fail e s' \<Rightarrow> Fail e s' | Blocked s' \<Rightarrow> Blocked s')"

text \<open>The last value of a run is the state it leaves behind.\<close>

fun run_state :: "('e, 'a, 's) run \<Rightarrow> 's" where
  "run_state (Done x s) = s"
| "run_state (Fail e s) = s"
| "run_state (Blocked s) = s"

fun blocked :: "('e, 'a, 's) run \<Rightarrow> bool" where
  "blocked (Blocked s) = True"
| "blocked (Done x s) = False"
| "blocked (Fail e s) = False"

text \<open>Held by a number of readers, by a writer, or by readers with a writer waiting for them.\<close>

datatype rwlock = Readers nat | Writer | Awaited nat

abbreviation unlocked :: rwlock where
  "unlocked \<equiv> Readers 0"

definition with_read ::
  "('s \<Rightarrow> rwlock) \<Rightarrow> (rwlock \<Rightarrow> 's \<Rightarrow> 's) \<Rightarrow> ('e, 'a, 's) task \<Rightarrow> ('e, 'a, 's) task" where
  "with_read lk set_lk body s =
     (case lk s of
        Writer \<Rightarrow> Blocked s
      | Awaited n \<Rightarrow> Blocked s
      | Readers n \<Rightarrow>
          (case body (set_lk (Readers (Suc n)) s) of
             Done x s' \<Rightarrow> Done x (set_lk (Readers n) s')
           | Fail e s' \<Rightarrow> Fail e (set_lk (Readers n) s')
           | Blocked s' \<Rightarrow> Blocked s'))"

definition with_write ::
  "('s \<Rightarrow> rwlock) \<Rightarrow> (rwlock \<Rightarrow> 's \<Rightarrow> 's) \<Rightarrow> ('e, 'a, 's) task \<Rightarrow> ('e, 'a, 's) task" where
  "with_write lk set_lk body s =
     (case lk s of
        Writer \<Rightarrow> Blocked s
      | Awaited n \<Rightarrow> Blocked s
      | Readers n \<Rightarrow>
          if n = 0
          then (case body (set_lk Writer s) of
                  Done x s' \<Rightarrow> Done x (set_lk unlocked s')
                | Fail e s' \<Rightarrow> Fail e (set_lk unlocked s')
                | Blocked s' \<Rightarrow> Blocked s')
          else Blocked (set_lk (Awaited n) s))"

lemmas task_simps =
  t_ret_def t_fail_def t_gets_def t_modify_def

lemma t_bind_simps [simp]:
  "m s = Done x s' \<Longrightarrow> t_bind m k s = k x s'"
  "m s = Fail e s' \<Longrightarrow> t_bind m k s = Fail e s'"
  "m s = Blocked s' \<Longrightarrow> t_bind m k s = Blocked s'"
  by (simp_all add: t_bind_def)

lemma with_read_blocked: "lk s \<in> {Writer, Awaited n} \<Longrightarrow> with_read lk set_lk body s = Blocked s"
  by (auto simp: with_read_def)

lemma with_write_blocked: "lk s \<in> {Writer, Awaited n} \<Longrightarrow> with_write lk set_lk body s = Blocked s"
  by (auto simp: with_write_def)

end
