(* ===== verification/Node_Errors.thy ===== *)
theory Node_Errors
  imports Rust_Std
begin

text \<open>
  Model of \<open>network-node/src/error.rs\<close>: the error types of the node with their retry
  policy, API codes and HTTP status codes. The payload of an error of another crate is its
  rendered text.
\<close>

datatype DatabaseError =
  ConnectionFailed string
| QueryFailed string
| TransactionFailed string
| PoolExhausted
| InvalidConnectionString
| MigrationFailed string

datatype ValidationError =
  InvalidFormat string
| MissingField string
| InvalidValue string string
| RequestTooLarge usize

datatype NetworkError =
  Config string
| Database DatabaseError
| Server string
| Connection string
| Validation string
| Io string
| Serialization string
| ShutdownTimeout
| Cancelled
| Internal string
| Crypto string
| Kms string
| KmsTimeout string
| KmsRateLimit string
| Signer string
| NotImplemented string
| HorizonClient string
| SorobanRpc string
| TransactionExpired
| InsufficientFee

type_synonym 'a node_result = "NetworkError + 'a"

section \<open>Display\<close>

fun display_DatabaseError :: "DatabaseError \<Rightarrow> string" where
  "display_DatabaseError (ConnectionFailed m) = ''Connection failed: '' @ m"
| "display_DatabaseError (QueryFailed m) = ''Query failed: '' @ m"
| "display_DatabaseError (TransactionFailed m) = ''Transaction failed: '' @ m"
| "display_DatabaseError PoolExhausted = ''Pool exhausted''"
| "display_DatabaseError InvalidConnectionString = ''Invalid connection string''"
| "display_DatabaseError (MigrationFailed m) = ''Migration failed: '' @ m"

fun display_NetworkError :: "NetworkError \<Rightarrow> string" where
  "display_NetworkError (Config m) = ''Configuration error: '' @ m"
| "display_NetworkError (Database e) = ''Database error: '' @ display_DatabaseError e"
| "display_NetworkError (Server m) = ''Server error: '' @ m"
| "display_NetworkError (Connection m) = ''Connection error: '' @ m"
| "display_NetworkError (Validation m) = ''Validation error: '' @ m"
| "display_NetworkError (Io m) = ''IO error: '' @ m"
| "display_NetworkError (Serialization m) = ''Serialization error: '' @ m"
| "display_NetworkError ShutdownTimeout = ''Shutdown timeout exceeded''"
| "display_NetworkError Cancelled = ''Operation cancelled''"
| "display_NetworkError (Internal m) = ''Internal error: '' @ m"
| "display_NetworkError (Crypto m) = ''Cryptographic error: '' @ m"
| "display_NetworkError (Kms m) = ''KMS error: '' @ m"
| "display_NetworkError (KmsTimeout m) = ''KMS timeout: '' @ m"
| "display_NetworkError (KmsRateLimit m) = ''KMS rate limit: '' @ m"
| "display_NetworkError (Signer m) = ''Signer error: '' @ m"
| "display_NetworkError (NotImplemented m) = ''Not implemented: '' @ m"
| "display_NetworkError (HorizonClient m) = ''Horizon client error: '' @ m"
| "display_NetworkError (SorobanRpc m) = ''Soroban RPC error: '' @ m"
| "display_NetworkError TransactionExpired = ''Transaction expired''"
| "display_NetworkError InsufficientFee = ''Insufficient fee''"

section \<open>Classification\<close>

fun db_is_retryable :: "DatabaseError \<Rightarrow> bool" where
  "db_is_retryable (ConnectionFailed m) = True"
| "db_is_retryable (QueryFailed m) = False"
| "db_is_retryable (TransactionFailed m) = False"
| "db_is_retryable PoolExhausted = True"
| "db_is_retryable InvalidConnectionString = False"
| "db_is_retryable (MigrationFailed m) = False"

fun is_retryable :: "NetworkError \<Rightarrow> bool" where
  "is_retryable (Database db_err) = db_is_retryable db_err"
| "is_retryable (Connection m) = True"
| "is_retryable (Server m) = False"
| "is_retryable (Validation m) = False"
| "is_retryable (Config m) = False"
| "is_retryable (Io m) = False"
| "is_retryable (Serialization m) = False"
| "is_retryable ShutdownTimeout = False"
| "is_retryable Cancelled = False"
| "is_retryable (Internal m) = False"
| "is_retryable (Crypto m) = False"
| "is_retryable (Kms m) = True"
| "is_retryable (KmsTimeout m) = True"
| "is_retryable (KmsRateLimit m) = True"
| "is_retryable (Signer m) = False"
| "is_retryable (NotImplemented m) = False"
| "is_retryable (HorizonClient m) = True"
| "is_retryable (SorobanRpc m) = True"
| "is_retryable TransactionExpired = False"
| "is_retryable InsufficientFee = True"

fun network_error_code :: "NetworkError \<Rightarrow> string" where
  "network_error_code (Config m) = ''CONFIG_ERROR''"
| "network_error_code (Database e) = ''DATABASE_ERROR''"
| "network_error_code (Server m) = ''SERVER_ERROR''"
| "network_error_code (Connection m) = ''CONNECTION_ERROR''"
| "network_error_code (Validation m) = ''VALIDATION_ERROR''"
| "network_error_code (Io m) = ''IO_ERROR''"
| "network_error_code (Serialization m) = ''SERIALIZATION_ERROR''"
| "network_error_code ShutdownTimeout = ''SHUTDOWN_TIMEOUT''"
| "network_error_code Cancelled = ''CANCELLED''"
| "network_error_code (Internal m) = ''INTERNAL_ERROR''"
| "network_error_code (Crypto m) = ''CRYPTO_ERROR''"
| "network_error_code (Kms m) = ''KMS_ERROR''"
| "network_error_code (KmsTimeout m) = ''KMS_TIMEOUT''"
| "network_error_code (KmsRateLimit m) = ''KMS_RATE_LIMIT''"
| "network_error_code (Signer m) = ''SIGNER_ERROR''"
| "network_error_code (NotImplemented m) = ''NOT_IMPLEMENTED''"
| "network_error_code (HorizonClient m) = ''HORIZON_CLIENT_ERROR''"
| "network_error_code (SorobanRpc m) = ''SOROBAN_RPC_ERROR''"
| "network_error_code TransactionExpired = ''TRANSACTION_EXPIRED''"
| "network_error_code InsufficientFee = ''INSUFFICIENT_FEE''"

fun http_status_code :: "NetworkError \<Rightarrow> nat" where
  "http_status_code (Validation m) = 400"
| "http_status_code (Config m) = 500"
| "http_status_code (Database e) = 500"
| "http_status_code (Server m) = 500"
| "http_status_code (Connection m) = 503"
| "http_status_code (Io m) = 500"
| "http_status_code (Serialization m) = 400"
| "http_status_code ShutdownTimeout = 503"
| "http_status_code Cancelled = 503"
| "http_status_code (Internal m) = 500"
| "http_status_code (Crypto m) = 400"
| "http_status_code (Kms m) = 502"
| "http_status_code (KmsTimeout m) = 504"
| "http_status_code (KmsRateLimit m) = 429"
| "http_status_code (Signer m) = 500"
| "http_status_code (NotImplemented m) = 501"
| "http_status_code (HorizonClient m) = 502"
| "http_status_code (SorobanRpc m) = 502"
| "http_status_code TransactionExpired = 400"
| "http_status_code InsufficientFee = 400"

section \<open>Context\<close>

record ErrorContext =
  ctx_operation :: string
  ctx_component :: string
  ctx_request_id :: "string option"
  ctx_timestamp :: int

definition new_ErrorContext :: "int \<Rightarrow> string \<Rightarrow> string \<Rightarrow> ErrorContext" where
  "new_ErrorContext now operation component =
     \<lparr>ctx_operation = operation, ctx_component = component, ctx_request_id = None, ctx_timestamp = now\<rparr>"

definition with_request_id :: "string \<Rightarrow> ErrorContext \<Rightarrow> ErrorContext" where
  "with_request_id request_id self = self\<lparr>ctx_request_id := Some request_id\<rparr>"

record ContextualError =
  contextual_error :: NetworkError
  contextual_context :: ErrorContext

definition new_ContextualError :: "NetworkError \<Rightarrow> ErrorContext \<Rightarrow> ContextualError" where
  "new_ContextualError err ctx =
     \<lparr>contextual_error = err, contextual_context = ctx\<rparr>"

section \<open>Consistency\<close>

text \<open>An API code identifies the kind of error, so it determines the HTTP status.\<close>

lemma code_determines_status:
  "network_error_code e = network_error_code e' \<Longrightarrow> http_status_code e = http_status_code e'"
  by (cases e; cases e') simp_all

lemma status_is_error: "400 \<le> http_status_code e \<and> http_status_code e < 600"
  by (cases e) simp_all

text \<open>Everything that may be retried is reported as a fault of the server side, the fee excepted.\<close>

lemma retryable_status:
  "is_retryable e \<Longrightarrow> e \<noteq> InsufficientFee \<Longrightarrow> http_status_code e = 429 \<or> 500 \<le> http_status_code e"
  by (cases e) simp_all

end
