(* ===== verification/Consensus.thy ===== *)
theory Consensus
  imports Rust_Async Node_Errors
begin

text \<open>
  Model of \<open>network-node/src/consensus.rs\<close>: the engine that stores proposals and votes
  behind two read-write locks, counts votes and finalises a proposal at quorum. Instants are
  integers; the clock readings, fresh identifiers and chrono's \<open>now + minutes\<close> are arguments.
  A channel is the list of messages sent on it, with a flag telling whether its receiver is
  still alive. The background task of \<open>start_maintenance\<close> is not modelled.
\<close>

section \<open>Data\<close>

datatype VoteType = Approve | Reject | Abstain

datatype ProposalStatus = Active | Approved | Rejected | Expired

record Proposal =
  prop_id :: string
  proposer :: string
  content :: "u8 list"
  created_at :: int
  expires_at :: int
  required_votes :: usize
  current_votes :: usize
  status :: ProposalStatus

record Vote =
  vote_proposal_id :: string
  voter :: string
  vote_type :: VoteType
  vote_timestamp :: int
  signature :: "u8 list"
  trace_context :: "string option"

record ConsensusEngine =
  node_id :: string
  proposals :: "(string, Proposal) hash_map"
  proposals_lock :: rwlock
  votes :: "(string, Vote list) hash_map"
  votes_lock :: rwlock
  sent_votes :: "Vote list"
  vote_receiver_alive :: bool
  sent_proposals :: "Proposal list"
  proposal_receiver_alive :: bool
  engine_required_votes :: usize
  proposal_ttl_minutes :: u64

record ConsensusStats =
  stats_node_id :: string
  total_proposals :: nat
  active_proposals :: nat
  approved_proposals :: nat
  rejected_proposals :: nat
  expired_proposals :: nat
  total_votes :: nat
  stats_required_votes :: usize

type_synonym 'a consensus_task = "(NetworkError, 'a, ConsensusEngine) task"

section \<open>Proposals and votes\<close>

definition new_Proposal :: "(int \<Rightarrow> int \<Rightarrow> int) \<Rightarrow> string \<Rightarrow> int \<Rightarrow> string \<Rightarrow> u8 list \<Rightarrow> usize \<Rightarrow> u64 \<Rightarrow> Proposal" where
  "new_Proposal plus_minutes uuid now who body required ttl_minutes =
     \<lparr>prop_id = uuid, proposer = who, content = body, created_at = now,
      expires_at = plus_minutes now (sint ttl_minutes), required_votes = required,
      current_votes = 0, status = Active\<rparr>"

definition is_expired :: "int \<Rightarrow> Proposal \<Rightarrow> bool" where
  "is_expired now p \<longleftrightarrow> expires_at p < now"

definition can_vote :: "int \<Rightarrow> Proposal \<Rightarrow> bool" where
  "can_vote now p \<longleftrightarrow> status p = Active \<and> \<not> is_expired now p"

definition has_quorum :: "Proposal \<Rightarrow> bool" where
  "has_quorum p \<longleftrightarrow> required_votes p \<le> current_votes p"

definition new_Vote :: "int \<Rightarrow> string \<Rightarrow> string \<Rightarrow> VoteType \<Rightarrow> u8 list \<Rightarrow> Vote" where
  "new_Vote now pid who vt sig =
     \<lparr>vote_proposal_id = pid, voter = who, vote_type = vt, vote_timestamp = now,
      signature = sig, trace_context = None\<rparr>"

definition with_trace_context :: "string \<Rightarrow> Vote \<Rightarrow> Vote" where
  "with_trace_context ctx v = v\<lparr>trace_context := Some ctx\<rparr>"

section \<open>Engine\<close>

definition new_engine :: "string \<Rightarrow> usize \<Rightarrow> u64 \<Rightarrow> ConsensusEngine" where
  "new_engine node required ttl_minutes =
     \<lparr>node_id = node, proposals = [], proposals_lock = unlocked, votes = [], votes_lock = unlocked,
      sent_votes = [], vote_receiver_alive = True, sent_proposals = [], proposal_receiver_alive = True,
      engine_required_votes = required, proposal_ttl_minutes = ttl_minutes\<rparr>"

definition read_proposals :: "'a consensus_task \<Rightarrow> 'a consensus_task" where
  "read_proposals = with_read proposals_lock (\<lambda>l s. s\<lparr>proposals_lock := l\<rparr>)"

definition write_proposals :: "'a consensus_task \<Rightarrow> 'a consensus_task" where
  "write_proposals = with_write proposals_lock (\<lambda>l s. s\<lparr>proposals_lock := l\<rparr>)"

definition read_votes :: "'a consensus_task \<Rightarrow> 'a consensus_task" where
  "read_votes = with_read votes_lock (\<lambda>l s. s\<lparr>votes_lock := l\<rparr>)"

definition write_votes :: "'a consensus_task \<Rightarrow> 'a consensus_task" where
  "write_votes = with_write votes_lock (\<lambda>l s. s\<lparr>votes_lock := l\<rparr>)"

definition send_proposal :: "Proposal \<Rightarrow> unit consensus_task" where
  "send_proposal p s =
     (if proposal_receiver_alive s then Done () (s\<lparr>sent_proposals := sent_proposals s @ [p]\<rparr>)
      else Fail (Server ''Failed to broadcast proposal: channel closed'') s)"

definition send_vote :: "Vote \<Rightarrow> unit consensus_task" where
  "send_vote v s =
     (if vote_receiver_alive s then Done () (s\<lparr>sent_votes := sent_votes s @ [v]\<rparr>)
      else Fail (Server ''Failed to broadcast vote: channel closed'') s)"

definition create_proposal ::
  "(int \<Rightarrow> int \<Rightarrow> int) \<Rightarrow> string \<Rightarrow> int \<Rightarrow> u8 list \<Rightarrow> Proposal consensus_task" where
  "create_proposal plus_minutes uuid now body =
     t_bind (t_gets (\<lambda>s. new_Proposal plus_minutes uuid now (node_id s) body
                (engine_required_votes s) (proposal_ttl_minutes s))) (\<lambda>p.
     t_bind (write_proposals (t_modify (\<lambda>s. s\<lparr>proposals := hm_insert (prop_id p) p (proposals s)\<rparr>))) (\<lambda>_.
     t_bind (send_proposal p) (\<lambda>_. t_ret p)))"

definition approve_count :: "Vote list \<Rightarrow> nat" where
  "approve_count vs = length (filter (\<lambda>v. vote_type v = Approve) vs)"

definition reject_count :: "Vote list \<Rightarrow> nat" where
  "reject_count vs = length (filter (\<lambda>v. vote_type v = Reject) vs)"

definition final_status :: "Vote list \<Rightarrow> ProposalStatus" where
  "final_status vs = (if reject_count vs < approve_count vs then Approved else Rejected)"

definition finalize_proposal :: "string \<Rightarrow> unit consensus_task" where
  "finalize_proposal pid =
     t_bind (read_proposals (read_votes (\<lambda>s.
       case hm_get (proposals s) pid of
         None \<Rightarrow> Fail (Validation (''Proposal '' @ pid @ '' not found'')) s
       | Some p \<Rightarrow> Done (unwrap_or [] (hm_get (votes s) pid)) s))) (\<lambda>vs.
     write_proposals (t_modify (\<lambda>s.
       s\<lparr>proposals := hm_modify pid (\<lambda>p. p\<lparr>status := final_status vs\<rparr>) (proposals s)\<rparr>)))"

text \<open>The block that counts a vote: it runs under the write lock of the proposals.\<close>

definition count_vote :: "string \<Rightarrow> unit consensus_task" where
  "count_vote pid s =
     (case hm_get (proposals s) pid of
        None \<Rightarrow> Done () s
      | Some p \<Rightarrow>
          let p' = p\<lparr>current_votes := current_votes p + 1\<rparr>;
              s' = s\<lparr>proposals := hm_insert pid p' (proposals s)\<rparr>
          in if has_quorum p' then finalize_proposal pid s' else Done () s')"

definition store_vote :: "Vote \<Rightarrow> unit consensus_task" where
  "store_vote v = write_votes (t_modify (\<lambda>s.
     s\<lparr>votes := hm_entry (vote_proposal_id v) [] (\<lambda>vs. vs @ [v]) (votes s)\<rparr>))"

definition has_voted :: "string \<Rightarrow> string \<Rightarrow> ConsensusEngine \<Rightarrow> bool" where
  "has_voted pid who s = (case hm_get (votes s) pid of None \<Rightarrow> False | Some vs \<Rightarrow> list_ex (\<lambda>v. voter v = who) vs)"

definition vote :: "int \<Rightarrow> int \<Rightarrow> string \<Rightarrow> VoteType \<Rightarrow> u8 list \<Rightarrow> unit consensus_task" where
  "vote now stamp pid vt sig =
     t_bind (read_proposals (t_gets (\<lambda>s. hm_get (proposals s) pid))) (\<lambda>found.
     case found of
       None \<Rightarrow> t_fail (Validation (''Proposal '' @ pid @ '' not found''))
     | Some p \<Rightarrow>
         if \<not> can_vote now p then t_fail (Validation (''Proposal '' @ pid @ '' is not active''))
         else
           t_bind (read_votes (\<lambda>s. if has_voted pid (node_id s) s
               then Fail (Validation (''Already voted on proposal '' @ pid)) s else Done () s)) (\<lambda>_.
           t_bind (t_gets (\<lambda>s. new_Vote stamp pid (node_id s) vt sig)) (\<lambda>v.
           t_bind (store_vote v) (\<lambda>_.
           t_bind (write_proposals (count_vote pid)) (\<lambda>_. send_vote v)))))"

definition process_vote :: "int \<Rightarrow> Vote \<Rightarrow> unit consensus_task" where
  "process_vote now v =
     t_bind (read_proposals (t_gets (\<lambda>s. hm_get (proposals s) (vote_proposal_id v)))) (\<lambda>found.
     case found of
       None \<Rightarrow> t_fail (Validation (''Unknown proposal: '' @ vote_proposal_id v))
     | Some p \<Rightarrow>
         if \<not> can_vote now p then t_fail (Validation (''Proposal '' @ vote_proposal_id v @ '' is not active''))
         else
           t_bind (read_votes (\<lambda>s. if has_voted (vote_proposal_id v) (voter v) s
               then Fail (Validation (''Duplicate vote from '' @ voter v)) s else Done () s)) (\<lambda>_.
           t_bind (store_vote v) (\<lambda>_.
           write_proposals (count_vote (vote_proposal_id v)))))"

definition process_proposal :: "Proposal \<Rightarrow> unit consensus_task" where
  "process_proposal p =
     t_bind (read_proposals (t_gets (\<lambda>s. hm_get (proposals s) (prop_id p) \<noteq> None))) (\<lambda>known.
     if known then t_ret ()
     else write_proposals (t_modify (\<lambda>s. s\<lparr>proposals := hm_insert (prop_id p) p (proposals s)\<rparr>)))"

definition mark_expired :: "string list \<Rightarrow> (string, Proposal) hash_map \<Rightarrow> (string, Proposal) hash_map" where
  "mark_expired ids m = foldl (\<lambda>m i. hm_modify i (\<lambda>p. p\<lparr>status := Expired\<rparr>) m) m ids"

definition cleanup_expired_proposals :: "int \<Rightarrow> nat consensus_task" where
  "cleanup_expired_proposals now =
     t_bind (read_proposals (t_gets (\<lambda>s.
       map fst (filter (\<lambda>e. is_expired now (snd e) \<and> status (snd e) = Active) (proposals s))))) (\<lambda>ids.
     t_bind (if ids \<noteq> [] then write_proposals (t_modify (\<lambda>s. s\<lparr>proposals := mark_expired ids (proposals s)\<rparr>))
             else t_ret ()) (\<lambda>_. t_ret (length ids)))"

definition get_proposal :: "string \<Rightarrow> Proposal option consensus_task" where
  "get_proposal pid = read_proposals (t_gets (\<lambda>s. hm_get (proposals s) pid))"

definition get_votes :: "string \<Rightarrow> Vote list consensus_task" where
  "get_votes pid = read_votes (t_gets (\<lambda>s. unwrap_or [] (hm_get (votes s) pid)))"

definition get_active_proposals :: "int \<Rightarrow> Proposal list consensus_task" where
  "get_active_proposals now = read_proposals (t_gets (\<lambda>s. filter (can_vote now) (map snd (proposals s))))"

definition get_stats :: "int \<Rightarrow> ConsensusStats consensus_task" where
  "get_stats now = read_proposals (read_votes (t_gets (\<lambda>s.
     let ps = map snd (proposals s) in
     \<lparr>stats_node_id = node_id s, total_proposals = length ps,
      active_proposals = length (filter (can_vote now) ps),
      approved_proposals = length (filter (\<lambda>p. status p = Approved) ps),
      rejected_proposals = length (filter (\<lambda>p. status p = Rejected) ps),
      expired_proposals = length (filter (\<lambda>p. status p = Expired) ps),
      total_votes = sum_list (map (\<lambda>e. length (snd e)) (votes s)),
      stats_required_votes = engine_required_votes s\<rparr>)))"

section \<open>Histories\<close>

text \<open>
  The states an engine reaches through calls that return, with the identifiers of the
  proposals it created itself. A fresh identifier is one not in use.
\<close>

inductive engine_reachable :: "ConsensusEngine \<Rightarrow> string set \<Rightarrow> bool" where
  engine_new: "engine_reachable (new_engine n req ttl) {}"
| engine_create: "engine_reachable s own \<Longrightarrow> hm_get (proposals s) uuid = None \<Longrightarrow>
    create_proposal pm uuid now body s \<in> {Done p s', Fail e s'} \<Longrightarrow> engine_reachable s' (insert uuid own)"
| engine_vote: "engine_reachable s own \<Longrightarrow> vote now stamp pid vt sig s \<in> {Done u s', Fail e s'} \<Longrightarrow>
    engine_reachable s' own"
| engine_process_vote: "engine_reachable s own \<Longrightarrow> process_vote now v s \<in> {Done u s', Fail e s'} \<Longrightarrow>
    engine_reachable s' own"
| engine_process_proposal: "engine_reachable s own \<Longrightarrow> process_proposal p s \<in> {Done u s', Fail e s'} \<Longrightarrow>
    engine_reachable s' own"
| engine_cleanup: "engine_reachable s own \<Longrightarrow> cleanup_expired_proposals now s \<in> {Done n s', Fail e s'} \<Longrightarrow>
    engine_reachable s' own"
| engine_receivers: "engine_reachable s own \<Longrightarrow>
    engine_reachable (s\<lparr>vote_receiver_alive := b, proposal_receiver_alive := c\<rparr>) own"

section \<open>Runs with free locks\<close>

definition idle :: "ConsensusEngine \<Rightarrow> bool" where
  "idle s \<longleftrightarrow> proposals_lock s = unlocked \<and> votes_lock s = unlocked"

lemma lock_upd_same [simp]:
  "proposals_lock s = l \<Longrightarrow> s\<lparr>proposals_lock := l\<rparr> = s"
  "votes_lock s = l \<Longrightarrow> s\<lparr>votes_lock := l\<rparr> = s"
  by auto

lemmas lock_defs = read_proposals_def write_proposals_def read_votes_def write_votes_def
  with_read_def with_write_def task_simps

lemma finalize_idle:
  assumes "idle s" "hm_get (proposals s) pid = Some p"
  shows "finalize_proposal pid s = Done () (s\<lparr>proposals :=
    hm_modify pid (\<lambda>p. p\<lparr>status := final_status (unwrap_or [] (hm_get (votes s) pid))\<rparr>) (proposals s)\<rparr>)"
  using assms by (simp add: finalize_proposal_def lock_defs t_bind_def idle_def)

lemma finalize_blocked: "proposals_lock s = Writer \<Longrightarrow> finalize_proposal pid s = Blocked s"
  by (simp add: finalize_proposal_def lock_defs t_bind_def)

text \<open>Counting a vote returns below the quorum and waits for ever at the quorum.\<close>

definition counted :: "string \<Rightarrow> Proposal \<Rightarrow> ConsensusEngine \<Rightarrow> ConsensusEngine" where
  "counted pid p s = s\<lparr>proposals := hm_insert pid (p\<lparr>current_votes := current_votes p + 1\<rparr>) (proposals s)\<rparr>"

lemma write_count_vote:
  assumes "idle s" "hm_get (proposals s) pid = Some p"
  shows "write_proposals (count_vote pid) s =
    (if required_votes p \<le> current_votes p + 1
     then Blocked ((counted pid p s)\<lparr>proposals_lock := Writer\<rparr>)
     else Done () (counted pid p s))"
  using assms
  by (simp add: write_proposals_def with_write_def count_vote_def finalize_blocked idle_def counted_def Let_def has_quorum_def)

definition recorded :: "Vote \<Rightarrow> ConsensusEngine \<Rightarrow> ConsensusEngine" where
  "recorded v s = s\<lparr>votes := hm_entry (vote_proposal_id v) [] (\<lambda>vs. vs @ [v]) (votes s)\<rparr>"

lemma store_vote_idle: "idle s \<Longrightarrow> store_vote v s = Done () (recorded v s)"
  by (simp add: store_vote_def recorded_def lock_defs idle_def)

lemma counted_recorded_simps [simp]:
  "idle (recorded v s) = idle s" "idle (counted pid p s) = idle s"
  "proposals (recorded v s) = proposals s" "votes (counted pid p s) = votes s"
  "node_id (recorded v s) = node_id s" "node_id (counted pid p s) = node_id s"
  by (simp_all add: recorded_def counted_def idle_def)

lemma read_proposals_gets:
  "idle s \<Longrightarrow> f (s\<lparr>proposals_lock := Readers (Suc 0)\<rparr>) = f s \<Longrightarrow> read_proposals (t_gets f) s = Done (f s) s"
  by (simp add: lock_defs idle_def)

lemma read_has_voted:
  "idle s \<Longrightarrow> read_votes (\<lambda>s. if has_voted i (w s) s then Fail e s else Done () s) s =
     (if has_voted i (w s) s then Fail e s else Done () s)"
  if "\<And>s l. w (s\<lparr>votes_lock := l\<rparr>) = w s"
  by (auto simp: lock_defs idle_def has_voted_def that split: option.split)

lemma process_vote_idle:
  assumes "idle s"
  shows "process_vote now v s =
    (case hm_get (proposals s) (vote_proposal_id v) of
       None \<Rightarrow> Fail (Validation (''Unknown proposal: '' @ vote_proposal_id v)) s
     | Some p \<Rightarrow>
         if \<not> can_vote now p then Fail (Validation (''Proposal '' @ vote_proposal_id v @ '' is not active'')) s
         else if has_voted (vote_proposal_id v) (voter v) s then Fail (Validation (''Duplicate vote from '' @ voter v)) s
         else if required_votes p \<le> current_votes p + 1
         then Blocked ((counted (vote_proposal_id v) p (recorded v s))\<lparr>proposals_lock := Writer\<rparr>)
         else Done () (counted (vote_proposal_id v) p (recorded v s)))"
  using assms
  by (auto simp: process_vote_def t_bind_def read_proposals_gets read_has_voted store_vote_idle write_count_vote
      t_fail_def split: option.split)

lemma vote_idle:
  assumes "idle s"
  shows "vote now stamp pid vt sig s =
    (case hm_get (proposals s) pid of
       None \<Rightarrow> Fail (Validation (''Proposal '' @ pid @ '' not found'')) s
     | Some p \<Rightarrow>
         let v = new_Vote stamp pid (node_id s) vt sig in
         if \<not> can_vote now p then Fail (Validation (''Proposal '' @ pid @ '' is not active'')) s
         else if has_voted pid (node_id s) s then Fail (Validation (''Already voted on proposal '' @ pid)) s
         else if required_votes p \<le> current_votes p + 1
         then Blocked ((counted pid p (recorded v s))\<lparr>proposals_lock := Writer\<rparr>)
         else send_vote v (counted pid p (recorded v s)))"
  using assms
  by (auto simp: vote_def t_bind_def read_proposals_gets read_has_voted store_vote_idle write_count_vote
      t_fail_def t_gets_def Let_def split: option.split)

lemma process_proposal_idle:
  assumes "idle s"
  shows "process_proposal p s = Done () (if hm_get (proposals s) (prop_id p) \<noteq> None then s
           else s\<lparr>proposals := hm_insert (prop_id p) p (proposals s)\<rparr>)"
  using assms by (simp add: process_proposal_def lock_defs t_bind_def idle_def)

lemma create_proposal_idle:
  assumes "idle s"
  shows "create_proposal pm uuid now body s =
    (let p = new_Proposal pm uuid now (node_id s) body (engine_required_votes s) (proposal_ttl_minutes s);
         s' = s\<lparr>proposals := hm_insert uuid p (proposals s)\<rparr>
     in if proposal_receiver_alive s then Done p (s'\<lparr>sent_proposals := sent_proposals s @ [p]\<rparr>)
        else Fail (Server ''Failed to broadcast proposal: channel closed'') s')"
  using assms
  by (simp add: create_proposal_def lock_defs t_bind_def idle_def send_proposal_def new_Proposal_def Let_def)

definition expired_ids :: "int \<Rightarrow> ConsensusEngine \<Rightarrow> string list" where
  "expired_ids now s = map fst (filter (\<lambda>e. is_expired now (snd e) \<and> status (snd e) = Active) (proposals s))"

lemma cleanup_idle:
  assumes "idle s"
  shows "cleanup_expired_proposals now s =
    Done (length (expired_ids now s)) (s\<lparr>proposals := mark_expired (expired_ids now s) (proposals s)\<rparr>)"
  using assms
  by (auto simp: cleanup_expired_proposals_def lock_defs t_bind_def idle_def expired_ids_def mark_expired_def Let_def)

lemma mark_expired_get:
  "hm_get (mark_expired ids m) k =
     (if k \<in> set ids then map_option (\<lambda>p. p\<lparr>status := Expired\<rparr>) (hm_get m k) else hm_get m k)"
  unfolding mark_expired_def
  by (induction ids arbitrary: m) (auto simp: option.map_comp comp_def)

section \<open>Invariant\<close>

text \<open>
  Between calls the locks are free; every vote is stored under a known proposal and each voter
  has at most one vote per proposal; a proposal the engine created is still undecided and its
  counter is the number of its votes.
\<close>

definition engine_inv :: "ConsensusEngine \<Rightarrow> string set \<Rightarrow> bool" where
  "engine_inv s own \<longleftrightarrow> idle s \<and>
     (\<forall>pid vs. hm_get (votes s) pid = Some vs \<longrightarrow>
        distinct (map voter vs) \<and> hm_get (proposals s) pid \<noteq> None) \<and>
     (\<forall>pid \<in> own. \<exists>p. hm_get (proposals s) pid = Some p \<and> status p \<in> {Active, Expired} \<and>
        current_votes p = of_nat (length (unwrap_or [] (hm_get (votes s) pid))))"

lemma engine_inv_counted:
  assumes inv: "engine_inv s own" and p: "hm_get (proposals s) (vote_proposal_id v) = Some p"
    and fresh: "\<not> has_voted (vote_proposal_id v) (voter v) s"
  shows "engine_inv (counted (vote_proposal_id v) p (recorded v s)) own"
proof -
  let ?pid = "vote_proposal_id v"
  have "distinct (map voter (unwrap_or [] (hm_get (votes s) ?pid) @ [v]))"
    using inv fresh by (cases "hm_get (votes s) ?pid") (auto simp: engine_inv_def has_voted_def list_ex_iff)
  then show ?thesis
    using inv p by (auto simp: engine_inv_def counted_def recorded_def idle_def add.commute)
qed

lemma engine_inv_sent [simp]:
  "engine_inv (s\<lparr>sent_votes := x\<rparr>) own = engine_inv s own"
  "engine_inv (s\<lparr>sent_proposals := y\<rparr>) own = engine_inv s own"
  "engine_inv (s\<lparr>vote_receiver_alive := b, proposal_receiver_alive := c\<rparr>) own = engine_inv s own"
  by (simp_all add: engine_inv_def idle_def)

lemma engine_inv_new_proposal:
  assumes "engine_inv s own" "hm_get (proposals s) i = None"
  shows "engine_inv (s\<lparr>proposals := hm_insert i p (proposals s)\<rparr>) own"
    and "status p = Active \<Longrightarrow> current_votes p = 0 \<Longrightarrow>
      engine_inv (s\<lparr>proposals := hm_insert i p (proposals s)\<rparr>) (insert i own)"
proof -
  have "hm_get (votes s) i = None" using assms unfolding engine_inv_def by (metis not_None_eq)
  with assms show "engine_inv (s\<lparr>proposals := hm_insert i p (proposals s)\<rparr>) own"
    and "status p = Active \<Longrightarrow> current_votes p = 0 \<Longrightarrow>
      engine_inv (s\<lparr>proposals := hm_insert i p (proposals s)\<rparr>) (insert i own)"
    by (auto simp: engine_inv_def idle_def)
qed

lemma engine_inv_cleanup:
  "engine_inv s own \<Longrightarrow> engine_inv (s\<lparr>proposals := mark_expired ids (proposals s)\<rparr>) own"
  by (fastforce simp: engine_inv_def idle_def mark_expired_get)

lemma engine_reachable_inv: "engine_reachable s own \<Longrightarrow> engine_inv s own"
proof (induction rule: engine_reachable.induct)
  case (engine_new n req ttl)
  show ?case by (simp add: engine_inv_def new_engine_def idle_def)
next
  case (engine_create s own uuid pm now body p s' e)
  then have "idle s" by (simp add: engine_inv_def)
  with engine_create show ?case
    using engine_inv_new_proposal(2) [OF engine_create.IH engine_create.hyps(2)]
    by (auto simp: create_proposal_idle Let_def new_Proposal_def split: if_splits)
next
  case (engine_vote s own now stamp pid vt sig u s' e)
  then have "idle s" by (simp add: engine_inv_def)
  with engine_vote show ?case
    using engine_inv_counted [OF engine_vote.IH, of "new_Vote stamp pid (node_id s) vt sig"]
    by (auto simp: vote_idle Let_def send_vote_def new_Vote_def split: option.splits if_splits)
next
  case (engine_process_vote s own now v u s' e)
  then have "idle s" by (simp add: engine_inv_def)
  with engine_process_vote show ?case
    using engine_inv_counted [OF engine_process_vote.IH, of v]
    by (auto simp: process_vote_idle split: option.splits if_splits)
next
  case (engine_process_proposal s own p u s' e)
  then have "idle s" by (simp add: engine_inv_def)
  with engine_process_proposal show ?case
    using engine_inv_new_proposal(1) [OF engine_process_proposal.IH]
    by (auto simp: process_proposal_idle split: if_splits)
next
  case (engine_cleanup s own now n s' e)
  then have "idle s" by (simp add: engine_inv_def)
  with engine_cleanup show ?case by (auto simp: cleanup_idle intro: engine_inv_cleanup)
qed simp

end
