(* ===== verification/Consensus_Properties.thy ===== *)
theory Consensus_Properties
  imports Consensus
begin

text \<open>
  What the consensus engine guarantees between calls, the outcome of a finalisation, and what
  happens when the vote that completes the quorum is counted.
\<close>

section \<open>Demo engine\<close>

fun run_state :: "('e, 'a, 's) run \<Rightarrow> 's" where
  "run_state (Done x s) = s"
| "run_state (Fail e s) = s"
| "run_state (Blocked s) = s"

fun run_value :: "('e, 'a, 's) run \<Rightarrow> 'a option" where
  "run_value (Done x s) = Some x"
| "run_value (Fail e s) = None"
| "run_value (Blocked s) = None"

definition demo_proposal :: Proposal where
  "demo_proposal = new_Proposal (+) ''p'' 0 ''n1'' [] 2 60"

definition demo_engine :: ConsensusEngine where
  "demo_engine = run_state (create_proposal (+) ''p'' 0 [] (new_engine ''n1'' 2 60))"

definition demo_voted :: ConsensusEngine where
  "demo_voted = run_state (process_vote 1 (new_Vote 1 ''p'' ''n2'' Approve []) demo_engine)"

section \<open>Votes\<close>


lemma demo_engine_run: "create_proposal (+) ''p'' 0 [] (new_engine ''n1'' 2 60) = Done demo_proposal demo_engine"
proof -
  have "idle (new_engine ''n1'' 2 60)" by (simp add: idle_def new_engine_def)
  from create_proposal_idle [OF this, of "(+)" "''p''" 0 "[]"] show ?thesis
    by (simp add: demo_engine_def demo_proposal_def new_engine_def Let_def)
qed

lemma demo_engine_reachable: "engine_reachable demo_engine {''p''}"
proof (rule engine_create [OF engine_new])
  show "hm_get (proposals (new_engine ''n1'' 2 60)) ''p'' = None" by (simp add: new_engine_def)
  show "create_proposal (+) ''p'' 0 [] (new_engine ''n1'' 2 60) \<in> {Done demo_proposal demo_engine, Fail (Server []) demo_engine}"
    by (simp add: demo_engine_run)
qed

lemma demo_voted_run: "process_vote 1 (new_Vote 1 ''p'' ''n2'' Approve []) demo_engine = Done () demo_voted"
proof -
  have "run_value (process_vote 1 (new_Vote 1 ''p'' ''n2'' Approve []) demo_engine) = Some ()" by code_simp
  then show ?thesis
    unfolding demo_voted_def by (cases "process_vote 1 (new_Vote 1 ''p'' ''n2'' Approve []) demo_engine") simp_all
qed

lemma demo_voted_reachable: "engine_reachable demo_voted {''p''}"
  using engine_process_vote [OF demo_engine_reachable] demo_voted_run by blast


section \<open>Quorum\<close>

lemma writer_blocks:
  assumes "proposals_lock s = Writer"
  shows "read_proposals m s = Blocked s" "write_proposals m s = Blocked s"
  using assms by (simp_all add: lock_defs)

text \<open>
  C30. A vote that completes the quorum never returns: it is counted while the proposals are
  locked for writing, and the finalisation it starts waits for the same lock. The proposal
  stays undecided and, from then on, every operation on proposals waits for ever as well.
\<close>

theorem quorum_deadlock:
  assumes "engine_reachable s own" "hm_get (proposals s) (vote_proposal_id v) = Some p" "can_vote now p"
    "\<not> has_voted (vote_proposal_id v) (voter v) s" "required_votes p \<le> current_votes p + 1"
  shows "\<exists>s'. process_vote now v s = Blocked s' \<and>
     map_option status (hm_get (proposals s') (vote_proposal_id v)) = Some Active \<and>
     vote t1 t2 i vt sig s' = Blocked s' \<and> process_vote t1 v' s' = Blocked s' \<and>
     process_proposal q s' = Blocked s' \<and> create_proposal pm i t1 body s' = Blocked s' \<and>
     cleanup_expired_proposals t1 s' = Blocked s' \<and> get_proposal i s' = Blocked s' \<and>
     get_active_proposals t1 s' = Blocked s' \<and> get_stats t1 s' = Blocked s'"
proof -
  let ?s = "(counted (vote_proposal_id v) p (recorded v s))\<lparr>proposals_lock := Writer\<rparr>"
  have "idle s" using engine_reachable_inv [OF assms(1)] by (simp add: engine_inv_def)
  then have "process_vote now v s = Blocked ?s" using assms(2-5) by (simp add: process_vote_idle)
  moreover have "map_option status (hm_get (proposals ?s) (vote_proposal_id v)) = Some Active"
    using assms(3) by (simp add: counted_def can_vote_def)
  moreover have "vote t1 t2 i vt sig ?s = Blocked ?s \<and> process_vote t1 v' ?s = Blocked ?s \<and>
     process_proposal q ?s = Blocked ?s \<and> create_proposal pm i t1 body ?s = Blocked ?s \<and>
     cleanup_expired_proposals t1 ?s = Blocked ?s \<and> get_proposal i ?s = Blocked ?s \<and>
     get_active_proposals t1 ?s = Blocked ?s \<and> get_stats t1 ?s = Blocked ?s"
    by (simp add: vote_def process_vote_def process_proposal_def create_proposal_def cleanup_expired_proposals_def
        get_proposal_def get_active_proposals_def get_stats_def t_bind_def t_gets_def writer_blocks)
  ultimately show ?thesis by blast
qed

theorem quorum_deadlock_witness:
  "\<exists>s'. process_vote 1 (new_Vote 1 ''p'' ''n3'' Approve []) demo_voted = Blocked s'"
proof -
  let ?v = "new_Vote 1 ''p'' ''n3'' Approve []"
  have "map_option (\<lambda>p. (can_vote 1 p, required_votes p \<le> current_votes p + 1)) (hm_get (proposals demo_voted) ''p'') =
      Some (True, True)" by code_simp
  then obtain p where p: "hm_get (proposals demo_voted) ''p'' = Some p" "can_vote 1 p" "required_votes p \<le> current_votes p + 1"
    by auto
  have "\<not> has_voted ''p'' ''n3'' demo_voted" by code_simp
  moreover have "vote_proposal_id ?v = ''p''" "voter ?v = ''n3''" by (simp_all add: new_Vote_def)
  ultimately show ?thesis using quorum_deadlock [OF demo_voted_reachable, of ?v p 1] p by metis
qed

text \<open>
  Called with the locks free, finalisation decides by simple majority of the recorded
  votes, abstentions and ties counting against the proposal, and leaves every other proposal
  and all votes alone; an unknown proposal is an error that changes nothing.
\<close>

lemma finalize_outcome:
  assumes "engine_reachable s own" "vs = unwrap_or [] (hm_get (votes s) pid)"
  shows "case hm_get (proposals s) pid of
       None \<Rightarrow> finalize_proposal pid s = Fail (Validation (''Proposal '' @ pid @ '' not found'')) s
     | Some p \<Rightarrow> \<exists>s'. finalize_proposal pid s = Done () s' \<and>
         hm_get (proposals s') pid = Some (p\<lparr>status := if reject_count vs < approve_count vs then Approved else Rejected\<rparr>) \<and>
         votes s' = votes s \<and> (\<forall>k. k = pid \<or> hm_get (proposals s') k = hm_get (proposals s) k)"
proof -
  have i: "idle s" using engine_reachable_inv [OF assms(1)] by (simp add: engine_inv_def)
  show ?thesis
  proof (cases "hm_get (proposals s) pid")
    case None
    with i show ?thesis by (simp add: finalize_proposal_def lock_defs t_bind_def idle_def)
  next
    case (Some p)
    with finalize_idle [OF i Some] assms(2) show ?thesis by (auto simp: final_status_def)
  qed
qed

end
