(* ===== verification/P2p.thy ===== *)
theory P2p
  imports Node_Errors "HOL-Library.Multiset"
begin

unbundle bit_operations_syntax

text \<open>
  Model of \<open>network-node/src/p2p.rs\<close>: the Kademlia routing table and the manager of the
  connected peers. A 32-byte array is a list of length 32 ordered lexicographically. The
  routing table uses the identifier of a peer as a node id and the manager as a string; the
  record of a peer is polymorphic in it. Clock readings and random numbers are arguments; the
  workers that only log are not modelled.
\<close>

section \<open>Routing table\<close>

type_synonym NodeId = "u8 list"

record 'id PeerInfo =
  peer_id :: 'id
  address :: string
  is_connected :: bool
  last_seen :: int
  latency_ms :: u64
  peer_version :: string

record KademliaRoutingTable =
  local_id :: NodeId
  buckets :: "(NodeId, NodeId PeerInfo) btree_map list"

definition new_table :: "NodeId \<Rightarrow> KademliaRoutingTable" where
  "new_table me = \<lparr>local_id = me, buckets = replicate 256 []\<rparr>"

definition xor_distance :: "NodeId \<Rightarrow> NodeId \<Rightarrow> u8 list" where
  "xor_distance id1 id2 = map (\<lambda>i. id1 ! i XOR id2 ! i) [0..<32]"

text \<open>
  \<open>(d as f32).log2() as usize\<close> of a non-zero byte: single precision represents the
  logarithms of 1 to 255 closely enough that truncation gives the exact integer part.
\<close>

fun ilog2 :: "nat \<Rightarrow> nat" where
  "ilog2 n = (if n < 2 then 0 else Suc (ilog2 (n div 2)))"

declare ilog2.simps [simp del]

text \<open>The loop of \<open>bucket_index\<close> from byte \<open>i\<close> on.\<close>

fun first_set_bit :: "nat \<Rightarrow> u8 list \<Rightarrow> nat" where
  "first_set_bit i [] = 255"
| "first_set_bit i (d # ds) =
     (if d \<noteq> 0 then i * 8 + (7 - ilog2 (unat d)) else first_set_bit (Suc i) ds)"

definition bucket_index :: "KademliaRoutingTable \<Rightarrow> NodeId \<Rightarrow> nat" where
  "bucket_index self nid = first_set_bit 0 (xor_distance (local_id self) nid)"

definition update :: "NodeId PeerInfo \<Rightarrow> KademliaRoutingTable \<Rightarrow> KademliaRoutingTable" where
  "update peer self =
    (let index = bucket_index self (peer_id peer);
         bucket = buckets self ! index
     in if length bucket < 20
        then self\<lparr>buckets := (buckets self)[index := bt_insert (peer_id peer) peer bucket]\<rparr>
        else self)"

definition all_peers :: "KademliaRoutingTable \<Rightarrow> NodeId PeerInfo list" where
  "all_peers self = concat (map (map snd) (buckets self))"

definition find_closest :: "NodeId \<Rightarrow> nat \<Rightarrow> KademliaRoutingTable \<Rightarrow> NodeId PeerInfo list" where
  "find_closest target k self =
     take k (sort_key (\<lambda>p. xor_distance (peer_id p) target) (all_peers self))"

section \<open>Connected peers\<close>

datatype P2pError = PeerNotConnected

record P2PManager =
  routing_table :: KademliaRoutingTable
  manager_local_id :: NodeId
  connected_peers :: "(string, string PeerInfo) hash_map"

definition new_manager :: "NodeId \<Rightarrow> P2PManager" where
  "new_manager me = \<lparr>routing_table = new_table me, manager_local_id = me, connected_peers = []\<rparr>"

definition connect_to_peer ::
  "int \<Rightarrow> string \<Rightarrow> string \<Rightarrow> string \<Rightarrow> P2PManager \<Rightarrow> string \<times> P2PManager" where
  "connect_to_peer now random addr pid self =
    (let peer_info = \<lparr>peer_id = pid, address = addr, is_connected = True, last_seen = now,
                      latency_ms = 50, peer_version = ''1.0.0''\<rparr>
     in (''session_'' @ random, self\<lparr>connected_peers := hm_insert pid peer_info (connected_peers self)\<rparr>))"

definition disconnect_from_peer :: "string \<Rightarrow> P2PManager \<Rightarrow> P2pError + P2PManager" where
  "disconnect_from_peer pid self =
    (if hm_get (connected_peers self) pid \<noteq> None
     then Inr (self\<lparr>connected_peers := hm_remove pid (connected_peers self)\<rparr>)
     else Inl PeerNotConnected)"

definition get_peer_list :: "P2PManager \<Rightarrow> string PeerInfo list" where
  "get_peer_list self = map snd (connected_peers self)"

definition get_connected_peers_count :: "P2PManager \<Rightarrow> u64" where
  "get_connected_peers_count self = of_nat (length (connected_peers self))"

fun broadcast_to :: "(string, string PeerInfo) hash_map \<Rightarrow> string list \<Rightarrow> nat \<Rightarrow> string list \<Rightarrow> nat \<times> string list" where
  "broadcast_to connected [] recipients_count failed_peers = (recipients_count, failed_peers)"
| "broadcast_to connected (pid # pids) recipients_count failed_peers =
     (if hm_get connected pid \<noteq> None then broadcast_to connected pids (recipients_count + 1) failed_peers
      else broadcast_to connected pids recipients_count (failed_peers @ [pid]))"

definition broadcast_message :: "string list \<Rightarrow> P2PManager \<Rightarrow> nat \<times> string list" where
  "broadcast_message target_peers self =
    (if target_peers = [] then (length (connected_peers self), [])
     else broadcast_to (connected_peers self) target_peers 0 [])"

section \<open>Distance\<close>

definition node_id_ok :: "NodeId \<Rightarrow> bool" where
  "node_id_ok a \<longleftrightarrow> length a = 32"

lemma length_xor_distance [simp]: "length (xor_distance a b) = 32"
  by (simp add: xor_distance_def)

lemma xor_distance_map2:
  "node_id_ok a \<Longrightarrow> node_id_ok b \<Longrightarrow> xor_distance a b = map2 (XOR) a b"
  by (intro nth_equalityI) (auto simp: xor_distance_def node_id_ok_def)

lemma xor_distance_commute: "xor_distance a b = xor_distance b a"
  by (simp add: xor_distance_def xor.commute)

lemma xor_cancel: "a XOR c = b XOR c \<longleftrightarrow> a = b" for a b c :: "'a::len word"
proof
  assume "a XOR c = b XOR c"
  then have "(a XOR c) XOR c = (b XOR c) XOR c" by (simp only:)
  then show "a = b" by (simp add: xor.assoc)
qed simp

lemma xor_distance_zero:
  assumes "node_id_ok a" "node_id_ok b"
  shows "xor_distance a b = replicate 32 0 \<longleftrightarrow> a = b"
proof -
  have "xor_distance a b = replicate 32 0 \<longleftrightarrow> (\<forall>i < 32. a ! i XOR b ! i = 0)"
    by (auto simp: xor_distance_def list_eq_iff_nth_eq)
  also have "\<dots> \<longleftrightarrow> (\<forall>i < 32. a ! i = b ! i)"
    using xor_cancel [of "a ! i" "b ! i" "b ! i" for i] by simp
  finally show ?thesis using assms by (simp add: node_id_ok_def list_eq_iff_nth_eq)
qed

text \<open>The distance to a fixed target identifies a node.\<close>

lemma xor_distance_inj:
  assumes "node_id_ok a" "node_id_ok b" "xor_distance a t = xor_distance b t"
  shows "a = b"
proof -
  have "a ! i = b ! i" if "i < 32" for i
  proof -
    have "a ! i XOR t ! i = b ! i XOR t ! i"
      using arg_cong [OF assms(3), of "\<lambda>l. l ! i"] that by (simp add: xor_distance_def)
    then show ?thesis by (simp only: xor_cancel)
  qed
  with assms show ?thesis by (simp add: node_id_ok_def list_eq_iff_nth_eq)
qed

section \<open>Buckets\<close>

text \<open>The reference: the number of leading bits two node ids share.\<close>

definition byte_bits :: "u8 \<Rightarrow> bool list" where
  "byte_bits b = map (\<lambda>j. bit b (7 - j)) [0..<8]"

definition id_bits :: "u8 list \<Rightarrow> bool list" where
  "id_bits nid = concat (map byte_bits nid)"

fun common_prefix :: "bool list \<Rightarrow> bool list \<Rightarrow> nat" where
  "common_prefix (x # xs) (y # ys) = (if x = y then Suc (common_prefix xs ys) else 0)"
| "common_prefix _ _ = 0"

lemma ilog2_bounds: "0 < n \<Longrightarrow> 2 ^ ilog2 n \<le> n \<and> n < 2 ^ Suc (ilog2 n)"
proof (induction n rule: ilog2.induct)
  case (1 n)
  show ?case
  proof (cases "n < 2")
    case True
    with 1 show ?thesis by (simp add: ilog2.simps)
  next
    case False
    then have "2 ^ ilog2 (n div 2) \<le> n div 2 \<and> n div 2 < 2 ^ Suc (ilog2 (n div 2))" using 1 by simp
    with False show ?thesis by (subst (1 2) ilog2.simps) (simp, linarith)
  qed
qed

lemma ilog2_byte: "ilog2 (unat (d :: u8)) \<le> 7"
proof (cases "d = 0")
  case False
  then have "2 ^ ilog2 (unat d) \<le> unat d" using ilog2_bounds [of "unat d"] by (simp add: unat_gt_0)
  also have "unat d < 2 ^ 8" using unsigned_less [of d] by simp
  finally have "ilog2 (unat d) < 8" by (simp only: power_strict_increasing_iff)
  then show ?thesis by simp
qed (simp add: ilog2.simps)

lemma first_set_bit_less: "i + length ds \<le> 32 \<Longrightarrow> first_set_bit i ds < 256"
  by (induction i ds rule: first_set_bit.induct) auto

lemma bucket_index_less: "bucket_index t nid < 256"
  unfolding bucket_index_def by (rule first_set_bit_less) simp

lemma bit_byte_log:
  assumes "d \<noteq> 0" "ilog2 (unat d) \<le> k"
  shows "bit (d :: u8) k \<longleftrightarrow> k = ilog2 (unat d)"
proof -
  let ?n = "unat d" let ?l = "ilog2 ?n"
  have b: "2 ^ ?l \<le> ?n" "?n < 2 ^ Suc ?l" using assms(1) ilog2_bounds [of ?n] by (simp_all add: unat_gt_0)
  have "?n div 2 ^ k = (if k = ?l then 1 else 0)"
  proof (cases "k = ?l")
    case True
    then show ?thesis using b by (simp add: div_nat_eqI)
  next
    case False
    then have "(2::nat) ^ Suc ?l \<le> 2 ^ k" using assms(2) by (intro power_increasing) auto
    with b False show ?thesis by simp
  qed
  then have "bit ?n k \<longleftrightarrow> k = ?l" by (simp add: bit_iff_odd)
  then show ?thesis by (auto simp: bit_unsigned_iff)
qed

lemma byte_leading_zeros:
  assumes "d \<noteq> 0"
  shows "length (takeWhile Not (byte_bits d)) = 7 - ilog2 (unat d)"
proof -
  let ?m = "7 - ilog2 (unat d)"
  have l: "ilog2 (unat d) \<le> 7" by (rule ilog2_byte)
  have "takeWhile Not (byte_bits d) = take ?m (byte_bits d)"
    by (rule takeWhile_eq_take_P_nth) (use l in \<open>auto simp: byte_bits_def bit_byte_log [OF assms]\<close>)
  then show ?thesis by (simp add: byte_bits_def)
qed

lemma byte_bits_zero: "byte_bits 0 = replicate 8 False"
  by (simp add: byte_bits_def map_replicate_const)

lemma takeWhile_byte_nonzero:
  assumes "d \<noteq> 0"
  shows "length (takeWhile Not (byte_bits d)) < length (byte_bits d)"
  using byte_leading_zeros [OF assms] by (simp add: byte_bits_def)

lemma first_set_bit_leading:
  assumes "\<exists>d \<in> set ds. d \<noteq> 0"
  shows "first_set_bit i ds = i * 8 + length (takeWhile Not (id_bits ds))"
  using assms
proof (induction ds arbitrary: i)
  case (Cons d ds)
  show ?case
  proof (cases "d = 0")
    case True
    have "takeWhile Not (byte_bits 0 @ xs) = byte_bits 0 @ takeWhile Not xs" for xs
      by (rule takeWhile_append2) (simp add: byte_bits_zero)
    with Cons True show ?thesis by (simp add: id_bits_def byte_bits_zero)
  next
    case False
    then obtain x where "x \<in> set (byte_bits d)" "x"
      using takeWhile_byte_nonzero [OF False] takeWhile_eq_all_conv [of Not "byte_bits d"] by fastforce
    then have "takeWhile Not (byte_bits d @ xs) = takeWhile Not (byte_bits d)" for xs
      by (intro takeWhile_append1) auto
    with False show ?thesis by (simp add: id_bits_def byte_leading_zeros)
  qed
qed simp

lemma common_prefix_takeWhile:
  "length xs = length ys \<Longrightarrow> common_prefix xs ys = length (takeWhile Not (map2 (\<noteq>) xs ys))"
  by (induction xs ys rule: list_induct2) auto

lemma byte_bits_xor: "byte_bits (a XOR b) = map2 (\<noteq>) (byte_bits a) (byte_bits b)"
  by (simp add: byte_bits_def bit_xor_iff upt_rec)

lemma length_byte_bits [simp]: "length (byte_bits b) = 8"
  by (simp add: byte_bits_def)

lemma id_bits_xor:
  "length a = length b \<Longrightarrow> id_bits (map2 (XOR) a b) = map2 (\<noteq>) (id_bits a) (id_bits b)"
  by (induction a b rule: list_induct2) (simp_all add: id_bits_def byte_bits_xor)

lemma length_id_bits [simp]: "length (id_bits a) = 8 * length a"
  by (induction a) (simp_all add: id_bits_def)

lemma bucket_index_prefix:
  assumes "node_id_ok (local_id t)" "node_id_ok nid" "nid \<noteq> local_id t"
  shows "bucket_index t nid = common_prefix (id_bits (local_id t)) (id_bits nid)"
proof -
  let ?d = "xor_distance (local_id t) nid"
  have "\<exists>d \<in> set ?d. d \<noteq> 0"
    using xor_distance_zero [OF assms(1,2)] assms(3) by (metis length_xor_distance replicate_eqI)
  then have "bucket_index t nid = length (takeWhile Not (id_bits ?d))"
    by (simp add: bucket_index_def first_set_bit_leading)
  also have "id_bits ?d = map2 (\<noteq>) (id_bits (local_id t)) (id_bits nid)"
    using assms by (simp add: xor_distance_map2 id_bits_xor node_id_ok_def)
  finally show ?thesis
    using assms by (simp add: common_prefix_takeWhile node_id_ok_def)
qed

section \<open>Invariant of the table\<close>

definition bucket_ok :: "KademliaRoutingTable \<Rightarrow> nat \<Rightarrow> bool" where
  "bucket_ok t i \<longleftrightarrow> bt_ok (buckets t ! i) \<and> length (buckets t ! i) \<le> 20 \<and>
     (\<forall>(k, p) \<in> set (buckets t ! i). peer_id p = k \<and> bucket_index t k = i)"

definition table_ok :: "KademliaRoutingTable \<Rightarrow> bool" where
  "table_ok t \<longleftrightarrow> length (buckets t) = 256 \<and> (\<forall>i < 256. bucket_ok t i)"

lemma table_ok_new: "table_ok (new_table me)"
  by (simp add: table_ok_def bucket_ok_def new_table_def)

lemma set_bt_insert_subset: "set (bt_insert k v m) \<subseteq> insert (k, v) (set m)"
  by (induction k v m rule: bt_insert.induct) auto

lemma bucket_index_update: "bucket_index (t\<lparr>buckets := bs\<rparr>) = bucket_index t"
  by (simp add: bucket_index_def fun_eq_iff)

lemma table_ok_update:
  assumes "table_ok t"
  shows "table_ok (update p t)"
proof (cases "length (buckets t ! bucket_index t (peer_id p)) < 20")
  case True
  let ?i = "bucket_index t (peer_id p)" let ?b = "bt_insert (peer_id p) p (buckets t ! ?i)"
  have t': "update p t = t\<lparr>buckets := (buckets t)[?i := ?b]\<rparr>" using True by (simp add: update_def Let_def)
  have ok: "bucket_ok t ?i" and len: "length (buckets t) = 256"
    using assms bucket_index_less by (simp_all add: table_ok_def)
  have "length ?b \<le> 20" using bt.put_count [of "buckets t ! ?i" "peer_id p" p] ok True by (simp add: bucket_ok_def)
  moreover have "\<forall>(k, q) \<in> set ?b. peer_id q = k \<and> bucket_index t k = ?i"
    using ok set_bt_insert_subset [of "peer_id p" p "buckets t ! ?i"] unfolding bucket_ok_def by fast
  ultimately have "bucket_ok (update p t) i" if "i < 256" for i
    using assms that ok len unfolding t' bucket_ok_def bucket_index_update table_ok_def
    by (cases "i = ?i") auto
  with len show ?thesis unfolding table_ok_def t' by simp
qed (use assms in \<open>simp add: update_def Let_def\<close>)

section \<open>Closest peers\<close>

lemma sorted_take_drop:
  "sorted (map f xs) \<Longrightarrow> x \<in> set (take k xs) \<Longrightarrow> y \<in> set (drop k xs) \<Longrightarrow> f x \<le> f y"
  using append_take_drop_id [of k xs] sorted_append [of "map f (take k xs)" "map f (drop k xs)"]
  by (simp flip: map_append)

lemma find_closest_split:
  "mset (find_closest target k t) + mset (drop k (sort_key (\<lambda>p. xor_distance (peer_id p) target) (all_peers t))) =
     mset (all_peers t)"
  unfolding find_closest_def by (simp flip: mset_append)

end
