(* ===== verification/Rate_Limiter.thy ===== *)
theory Rate_Limiter
  imports Node_Errors
begin

text \<open>
  Model of \<open>network-node/src/rate_limiter.rs\<close>: a fixed-window limiter that counts the calls
  of a key in the current minute. The seconds since the epoch are an argument of a call. Redis
  is a parameter: what connecting, \<open>INCR\<close> and \<open>EXPIRE\<close> answer.
\<close>

section \<open>Model\<close>

record 'r redis_if =
  redis_connect :: "string \<Rightarrow> 'r option"
  redis_incr :: "string \<Rightarrow> 'r \<Rightarrow> (string + u64) \<times> 'r"
  redis_expire :: "string \<Rightarrow> nat \<Rightarrow> 'r \<Rightarrow> (string + unit) \<times> 'r"

datatype 'r RateLimiterBackend =
  Redis 'r
| InMemory "(string, u64 \<times> int) hash_map"

record 'r RateLimiter =
  backend :: "'r RateLimiterBackend"
  limit_per_minute :: u64

definition new_limiter :: "'r redis_if \<Rightarrow> string option \<Rightarrow> u64 \<Rightarrow> 'r RateLimiter" where
  "new_limiter rd redis_url limit =
    (case redis_url of
       None \<Rightarrow> \<lparr>backend = InMemory [], limit_per_minute = limit\<rparr>
     | Some url \<Rightarrow>
         (case redis_connect rd url of
            Some manager \<Rightarrow> \<lparr>backend = Redis manager, limit_per_minute = limit\<rparr>
          | None \<Rightarrow> \<lparr>backend = InMemory [], limit_per_minute = limit\<rparr>))"

definition minute_bucket :: "u64 \<Rightarrow> int" where
  "minute_bucket secs = sint (secs div 60)"

definition allow_in_memory ::
  "u64 \<Rightarrow> int \<Rightarrow> string \<Rightarrow> (string, u64 \<times> int) hash_map \<Rightarrow> bool \<times> (string, u64 \<times> int) hash_map" where
  "allow_in_memory limit bucket key m =
    (case hm_get m key of
       Some (n, ts) \<Rightarrow>
         let (n', ts') = (if ts = bucket then (n + 1, ts) else (1, bucket))
         in (n' \<le> limit, hm_insert key (n', ts') m)
     | None \<Rightarrow> (1 \<le> limit, hm_insert key (1, bucket) m))"

definition allow_redis :: "'r redis_if \<Rightarrow> u64 \<Rightarrow> int \<Rightarrow> string \<Rightarrow> 'r \<Rightarrow> bool node_result \<times> 'r" where
  "allow_redis rd limit bucket key conn =
    (let redis_key = ''rate:'' @ key @ '':'' @ show_int bucket in
     case redis_incr rd redis_key conn of
       (Inl e, c) \<Rightarrow> (Inl (Internal (''Redis error: '' @ e)), c)
     | (Inr v, c) \<Rightarrow>
         (case redis_expire rd redis_key 70 c of
            (Inl e, c') \<Rightarrow> (Inl (Internal (''Redis error: '' @ e)), c')
          | (Inr _, c') \<Rightarrow> (Inr (v \<le> limit), c')))"

definition allow :: "'r redis_if \<Rightarrow> u64 \<Rightarrow> string \<Rightarrow> 'r RateLimiter \<Rightarrow> bool node_result \<times> 'r RateLimiter" where
  "allow rd secs key self =
    (let bucket = minute_bucket secs in
     case backend self of
       Redis conn \<Rightarrow>
         let (res, conn') = allow_redis rd (limit_per_minute self) bucket key conn
         in (res, self\<lparr>backend := Redis conn'\<rparr>)
     | InMemory m \<Rightarrow>
         let (ok, m') = allow_in_memory (limit_per_minute self) bucket key m
         in (Inr ok, self\<lparr>backend := InMemory m'\<rparr>))"

text \<open>The answers to a sequence of calls, each with its time and key.\<close>

fun allow_all :: "'r redis_if \<Rightarrow> (u64 \<times> string) list \<Rightarrow> 'r RateLimiter \<Rightarrow> bool node_result list \<times> 'r RateLimiter" where
  "allow_all rd [] self = ([], self)"
| "allow_all rd ((secs, key) # calls) self =
    (let (res, self') = allow rd secs key self; (rs, self'') = allow_all rd calls self'
     in (res # rs, self''))"

section \<open>Counting in one window\<close>

definition calls_in :: "string \<Rightarrow> int \<Rightarrow> (u64 \<times> string) list \<Rightarrow> nat" where
  "calls_in key b calls = length (filter (\<lambda>(t, k). k = key \<and> minute_bucket t = b) calls)"

definition allowed_in :: "string \<Rightarrow> int \<Rightarrow> (u64 \<times> string) list \<Rightarrow> bool node_result list \<Rightarrow> nat" where
  "allowed_in key b calls rs =
     length (filter (\<lambda>((t, k), r). k = key \<and> minute_bucket t = b \<and> r = Inr True) (zip calls rs))"

lemma calls_in_simps [simp]:
  "calls_in key b [] = 0"
  "calls_in key b ((t, k) # calls) = (if k = key \<and> minute_bucket t = b then 1 else 0) + calls_in key b calls"
  by (simp_all add: calls_in_def)

lemma allowed_in_simps [simp]:
  "allowed_in key b [] rs = 0"
  "allowed_in key b ((t, k) # calls) (r # rs) =
     (if k = key \<and> minute_bucket t = b \<and> r = Inr True then 1 else 0) + allowed_in key b calls rs"
  by (simp_all add: allowed_in_def)

text \<open>How many calls of the window have been counted in a state, \<open>None\<close> for a later window.\<close>

definition used :: "(string, u64 \<times> int) hash_map \<Rightarrow> string \<Rightarrow> int \<Rightarrow> nat" where
  "used m key b = (case hm_get m key of Some (n, ts) \<Rightarrow> if ts = b then unat n else 0 | None \<Rightarrow> 0)"

definition not_later :: "(string, u64 \<times> int) hash_map \<Rightarrow> string \<Rightarrow> int \<Rightarrow> bool" where
  "not_later m key b \<longleftrightarrow> (case hm_get m key of Some (n, ts) \<Rightarrow> ts \<le> b | None \<Rightarrow> True)"

lemma allow_in_memory_step:
  assumes "allow_in_memory limit c k m = (ok, m')"
  shows "k \<noteq> key \<Longrightarrow> used m' key b = used m key b" "k \<noteq> key \<Longrightarrow> not_later m' key b = not_later m key b"
    and "c = b \<Longrightarrow> used m k b < 2 ^ 64 - 1 \<Longrightarrow> used m' k b = Suc (used m k b) \<and> (ok \<longleftrightarrow> used m k b < unat limit)"
    and "not_later m' k c"
proof -
  have one: "(1 :: u64) \<le> limit \<longleftrightarrow> 0 < unat limit" by (simp add: word_le_nat_alt Suc_le_eq)
  show "k \<noteq> key \<Longrightarrow> used m' key b = used m key b" "k \<noteq> key \<Longrightarrow> not_later m' key b = not_later m key b"
    "not_later m' k c"
    using assms by (auto simp: allow_in_memory_def used_def not_later_def Let_def split: option.splits if_splits prod.splits)
  show "used m' k b = Suc (used m k b) \<and> (ok \<longleftrightarrow> used m k b < unat limit)" if "c = b" "used m k b < 2 ^ 64 - 1"
  proof (cases "hm_get m k")
    case None
    with assms that one show ?thesis by (auto simp: allow_in_memory_def used_def)
  next
    case (Some e)
    obtain n ts where e: "e = (n, ts)" by (cases e)
    show ?thesis
    proof (cases "ts = b")
      case True
      with that Some e have "unat n < 2 ^ 64 - 1" by (simp add: used_def)
      then have "n \<noteq> - 1" by (auto simp: unsigned_minus_1_eq_mask mask_eq_exp_minus_1)
      then have "unat (n + 1) = Suc (unat n)" by (rule unat_Suc)
      with True assms that Some e show ?thesis
        by (auto simp: allow_in_memory_def used_def word_le_nat_alt Suc_le_eq)
    next
      case False
      with assms that Some e one show ?thesis by (auto simp: allow_in_memory_def used_def)
    qed
  qed
qed

lemma minute_bucket_mono: "s \<le> t \<Longrightarrow> minute_bucket s \<le> minute_bucket t"
proof -
  have small: "sint (x div 60) = uint x div 60" for x :: u64
  proof -
    have "uint x < 2 ^ 64" using unsigned_less [of x] by simp
    then have lt: "uint (x div 60) < 2 ^ 63" by (simp add: uint_div)
    have "- (2 ^ 63) \<le> uint (x div 60)" by (rule order_trans [of _ 0]) simp_all
    from signed_take_bit_int_eq_self [OF this lt] have "sint (x div 60) = uint (x div 60)"
      by (simp add: sint_uint)
    then show ?thesis by (simp add: uint_div)
  qed
  assume "s \<le> t"
  then show ?thesis by (simp add: minute_bucket_def small word_le_def zdiv_mono1)
qed

text \<open>
  With a clock that does not run backwards, the calls allowed in a window are those that
  fit in what is left of the limit.
\<close>

lemma allowed_window:
  assumes "sorted (map fst calls)" "backend self = InMemory m"
    "\<And>t k. (t, k) \<in> set calls \<Longrightarrow> not_later m key (minute_bucket t)"
    "used m key b + calls_in key b calls < 2 ^ 64"
  shows "min (used m key b) (unat (limit_per_minute self)) + allowed_in key b calls (fst (allow_all rd calls self)) =
         min (used m key b + calls_in key b calls) (unat (limit_per_minute self))"
  using assms
proof (induction calls arbitrary: self m)
  case (Cons call calls)
  obtain t k where call: "call = (t, k)" by (cases call)
  let ?c = "minute_bucket t" let ?limit = "limit_per_minute self"
  obtain ok m' where step: "allow_in_memory ?limit ?c k m = (ok, m')" by fastforce
  let ?self = "self\<lparr>backend := InMemory m'\<rparr>"
  have run: "allow rd t k self = (Inr ok, ?self)" using Cons.prems(2) step by (simp add: allow_def)
  have later: "?c \<le> minute_bucket t'" if "(t', k') \<in> set calls" for t' k'
    using Cons.prems(1) that call by (auto intro!: minute_bucket_mono)
  note S = allow_in_memory_step [OF step]
  have nl: "not_later m' key (minute_bucket t')" if "(t', k') \<in> set calls" for t' k'
  proof (cases "k = key")
    case True
    then show ?thesis using S(4) later [OF that] by (auto simp: not_later_def split: option.splits)
  next
    case False
    then show ?thesis using S(2) [OF False] Cons.prems(3) that by auto
  qed
  have ih: "used m' key b + calls_in key b calls < 2 ^ 64 \<Longrightarrow>
      min (used m' key b) (unat ?limit) + allowed_in key b calls (fst (allow_all rd calls ?self)) =
      min (used m' key b + calls_in key b calls) (unat ?limit)"
    using Cons.IH [of ?self m'] Cons.prems(1) nl call by simp
  show ?case
  proof (cases "k = key \<and> ?c = b")
    case True
    then have "used m' key b = Suc (used m key b) \<and> (ok \<longleftrightarrow> used m key b < unat ?limit)"
      using S(3) Cons.prems(4) call by auto
    with True ih Cons.prems(4) call run show ?thesis by (auto simp: split_beta Let_def)
  next
    case False
    show ?thesis
    proof (cases "k = key")
      case True
      show ?thesis
      proof (cases "?c < b")
        case lt: True
        have "used m' key b = 0 \<and> used m key b = 0"
          using S(4) Cons.prems(3) [of t k] True lt call by (auto simp: used_def not_later_def split: option.splits)
        with False True ih Cons.prems(4) call run show ?thesis by (auto simp: split_beta Let_def)
      next
        case ge: False
        then have "calls_in key b calls = 0"
          using ge False True later by (force simp: calls_in_def filter_empty_conv)
        moreover have "allowed_in key b calls rs = 0" for rs
          using ge False True later by (force simp: allowed_in_def filter_empty_conv dest!: set_zip_leftD)
        ultimately show ?thesis using False True call run by (auto simp: split_beta Let_def)
      qed
    next
      case ne: False
      with S(1) [OF ne] False ih Cons.prems(4) call run show ?thesis by (auto simp: split_beta Let_def)
    qed
  qed
qed simp

end
