(* ===== verification/State_Trie.thy ===== *)
theory State_Trie
  imports Rust_Std "HOL-Library.Multiset"
begin

unbundle bit_operations_syntax

text \<open>
  Model of \<open>network-node/src/state_trie.rs\<close>: the state commitment of the node. The database,
  the JSON encoder and SHA-256 are parameters; a 32-byte array is a list of length 32. The
  commitment is the bytewise exclusive or of the hashes of the inserted leaves.
\<close>

section \<open>Model\<close>

type_synonym bytes = "u8 list"

datatype TrieNode =
  Leaf bytes bytes
| Branch "bytes option list" "bytes option"
| Extension bytes bytes

datatype TrieError = QueryError string | SerializationError

record 'd trie_env =
  db_open :: "string \<Rightarrow> string + 'd"
  db_put :: "bytes \<Rightarrow> bytes \<Rightarrow> 'd \<Rightarrow> string + 'd"
  db_iter :: "'d \<Rightarrow> (string + bytes \<times> bytes) list"
  json_encode :: "TrieNode \<Rightarrow> bytes option"
  sha256 :: "bytes \<Rightarrow> bytes"

record 'd StateTrie =
  db :: 'd
  root :: bytes

definition new_trie :: "'d trie_env \<Rightarrow> string \<Rightarrow> TrieError + 'd StateTrie" where
  "new_trie env path =
    (case db_open env path of
       Inl e \<Rightarrow> Inl (QueryError e)
     | Inr d \<Rightarrow> Inr \<lparr>db = d, root = replicate 32 0\<rparr>)"

definition hash_node :: "'d trie_env \<Rightarrow> TrieNode \<Rightarrow> bytes" where
  "hash_node env node = sha256 env (unwrap_or [] (json_encode env node))"

definition xor_into :: "bytes \<Rightarrow> bytes \<Rightarrow> bytes" where
  "xor_into r h = map (\<lambda>i. r ! i XOR h ! i) [0..<32]"

definition trie_insert :: "'d trie_env \<Rightarrow> bytes \<Rightarrow> bytes \<Rightarrow> 'd StateTrie \<Rightarrow> TrieError + (bytes \<times> 'd StateTrie)" where
  "trie_insert env key val self =
    (let node = Leaf key val; node_hash = hash_node env node in
     rbind (rok_or SerializationError (json_encode env node)) (\<lambda>encoded.
       case db_put env node_hash encoded (db self) of
         Inl e \<Rightarrow> Inl (QueryError e)
       | Inr d \<Rightarrow>
           let r = xor_into (root self) node_hash in Inr (r, self\<lparr>db := d, root := r\<rparr>)))"

definition trie_get :: "bytes \<Rightarrow> 'd StateTrie \<Rightarrow> TrieError + bytes option" where
  "trie_get key self = Inr None"

definition root_hash :: "'d StateTrie \<Rightarrow> bytes" where
  "root_hash self = root self"

definition get_snapshot_chunk :: "'d trie_env \<Rightarrow> usize \<Rightarrow> 'd StateTrie \<Rightarrow> (bytes \<times> bytes) list" where
  "get_snapshot_chunk env chunk_index self =
     concat (map (\<lambda>(i, item).
         if unat (chunk_index * 100) \<le> i \<and> i < unat ((chunk_index + 1) * 100)
         then (case item of Inr kv \<Rightarrow> [kv] | Inl e \<Rightarrow> []) else [])
       (enumerate 0 (db_iter env (db self))))"

text \<open>A sequence of insertions, each of which must succeed.\<close>

fun insert_all :: "'d trie_env \<Rightarrow> (bytes \<times> bytes) list \<Rightarrow> 'd StateTrie \<Rightarrow> TrieError + 'd StateTrie" where
  "insert_all env [] self = Inr self"
| "insert_all env ((k, v) # kvs) self =
     rbind (trie_insert env k v self) (\<lambda>(r, self'). insert_all env kvs self')"

section \<open>The commitment\<close>

definition leaf_sum :: "'d trie_env \<Rightarrow> (bytes \<times> bytes) list \<Rightarrow> nat \<Rightarrow> u8" where
  "leaf_sum env kvs i = foldr (\<lambda>(k, v) x. hash_node env (Leaf k v) ! i XOR x) kvs 0"

lemma leaf_sum_simps [simp]:
  "leaf_sum env [] i = 0"
  "leaf_sum env ((k, v) # kvs) i = hash_node env (Leaf k v) ! i XOR leaf_sum env kvs i"
  by (simp_all add: leaf_sum_def)

lemma trie_insert_root:
  "trie_insert env k v t = Inr (r, t') \<Longrightarrow> r = xor_into (root t) (hash_node env (Leaf k v)) \<and> root t' = r"
  by (cases "json_encode env (Leaf k v)";
      cases "db_put env (hash_node env (Leaf k v)) (the (json_encode env (Leaf k v))) (db t)")
    (auto simp: trie_insert_def Let_def)

lemma insert_all_root:
  "insert_all env kvs t = Inr t' \<Longrightarrow> length (root t) = 32 \<Longrightarrow>
     length (root t') = 32 \<and> (\<forall>i < 32. root t' ! i = root t ! i XOR leaf_sum env kvs i)"
proof (induction kvs arbitrary: t)
  case (Cons kv kvs)
  obtain k v where kv: "kv = (k, v)" by (cases kv)
  with Cons.prems obtain r t1 where ins: "trie_insert env k v t = Inr (r, t1)"
    and rest: "insert_all env kvs t1 = Inr t'"
    by (auto simp: rbind_Inr_iff)
  have r: "root t1 = xor_into (root t) (hash_node env (Leaf k v))" using trie_insert_root [OF ins] by simp
  then have "length (root t1) = 32" by (simp add: xor_into_def)
  from Cons.IH [OF rest this] show ?case by (auto simp: kv r xor_into_def xor.assoc)
qed simp

lemma leaf_sum_perm:
  assumes "mset kvs = mset kvs'"
  shows "leaf_sum env kvs i = leaf_sum env kvs' i"
proof -
  let ?f = "\<lambda>(k, v) x. hash_node env (Leaf k v) ! i XOR x"
  have comm: "?f a \<circ> ?f b = ?f b \<circ> ?f a" for a b
    by (cases a; cases b) (simp add: fun_eq_iff xor.left_commute)
  have "foldr ?f kvs = fold ?f kvs" "foldr ?f kvs' = fold ?f kvs'"
    by (rule foldr_fold, rule comm)+
  moreover have "fold ?f kvs = fold ?f kvs'"
    by (rule fold_permuted_eq [where P = "\<lambda>_. True", THEN ext]) (use assms comm in \<open>auto simp: fun_eq_iff\<close>)
  ultimately show ?thesis by (simp add: leaf_sum_def)
qed

section \<open>Snapshots\<close>

definition good_items :: "(string + bytes \<times> bytes) list \<Rightarrow> (bytes \<times> bytes) list" where
  "good_items items = concat (map (\<lambda>item. case item of Inr kv \<Rightarrow> [kv] | Inl e \<Rightarrow> []) items)"

lemma concat_window:
  "lo \<le> hi \<Longrightarrow> concat (map (\<lambda>(i, x). if lo \<le> i \<and> i < hi then f x else []) (enumerate n xs)) =
     concat (map f (take (hi - max lo n) (drop (lo - n) xs)))"
proof (induction xs arbitrary: n)
  case (Cons x xs)
  consider "n < lo" | "lo \<le> n" "n < hi" | "lo \<le> n" "hi \<le> n" by linarith
  then show ?case
  proof cases
    case 1
    then have "lo - n = Suc (lo - Suc n)" "max lo n = max lo (Suc n)" by auto
    with 1 Cons show ?thesis by simp
  next
    case 2
    then have "hi - max lo n = Suc (hi - max lo (Suc n))" by (simp add: max_def)
    with 2 Cons show ?thesis by (simp add: max_def)
  next
    case 3
    then have "concat (map (\<lambda>(i, x). if lo \<le> i \<and> i < hi then f x else []) (enumerate (Suc n) xs)) = []"
      using Cons.IH [of "Suc n"] Cons.prems by simp
    with 3 show ?thesis by simp
  qed
qed simp

lemma snapshot_chunk_take:
  assumes "Suc c * 100 < 2 ^ 64"
  shows "get_snapshot_chunk env (of_nat c) t = good_items (take 100 (drop (c * 100) (db_iter env (db t))))"
proof -
  have lo: "unat (of_nat c * 100 :: usize) = c * 100"
    using assms unat_of_nat_small [of "c * 100", where 'a = 64] by simp
  have e: "(of_nat c + 1) * 100 = (of_nat (Suc c * 100) :: usize)" by simp
  have hi: "unat ((of_nat c + 1) * 100 :: usize) = Suc c * 100"
    unfolding e by (rule unat_of_nat_small) (use assms in simp)
  show ?thesis
    unfolding get_snapshot_chunk_def lo hi good_items_def
    using concat_window [of "c * 100" "Suc c * 100" _ 0] by simp
qed

lemma good_items_append: "good_items (xs @ ys) = good_items xs @ good_items ys"
  by (simp add: good_items_def)

lemma chunks_concat:
  "concat (map (\<lambda>c. good_items (take 100 (drop (c * 100) xs))) [0..<n]) = good_items (take (n * 100) xs)"
proof (induction n)
  case (Suc n)
  have "take (Suc n * 100) xs = take (n * 100) xs @ take 100 (drop (n * 100) xs)"
    by (simp add: take_add [of "n * 100" 100, symmetric] add.commute)
  with Suc show ?case by (simp add: good_items_append)
qed (simp add: good_items_def)

end
