(* ===== verification/Network_Properties.thy ===== *)
theory Network_Properties
  imports P2p Rate_Limiter State_Trie
begin

text \<open>
  Properties of the peer routing table, the rate limiter and the state commitment.
\<close>

section \<open>Routing table\<close>

text \<open>
  C32. The bucket of a peer is the length of the common prefix of its identifier and the local
  one, computed from bytes and logarithms, and it is a valid index. Starting from an empty
  table and recording any peers in any order, every bucket holds at most twenty peers, each in
  the bucket its identifier belongs to and under its own identifier.
\<close>

theorem routing_table_correct:
  assumes "node_id_ok me" "t = fold update peers (new_table me)"
  shows "table_ok t \<and> local_id t = me \<and> bucket_index t nid < 256 \<and>
         (node_id_ok nid \<longrightarrow> nid \<noteq> me \<longrightarrow> bucket_index t nid = common_prefix (id_bits me) (id_bits nid))"
proof -
  have step: "table_ok (fold update ps s) \<and> local_id (fold update ps s) = local_id s" if "table_ok s" for ps s
    using that
  proof (induction ps arbitrary: s)
    case (Cons p ps)
    have "local_id (update p s) = local_id s" by (simp add: update_def Let_def)
    with Cons.IH [OF table_ok_update [OF Cons.prems, of p]] show ?case by simp
  qed simp
  have "table_ok t" "local_id t = me"
    using step [OF table_ok_new, of peers me] assms(2) by (simp_all add: new_table_def)
  then show ?thesis using bucket_index_prefix [of t nid] bucket_index_less assms(1) by simp
qed

theorem routing_table_correct_witness:
  "bucket_index (new_table (replicate 32 0)) (replicate 31 0 @ [5]) =
     common_prefix (id_bits (replicate 32 0)) (id_bits (replicate 31 0 @ [5]))"
proof -
  let ?me = "replicate 32 0 :: NodeId" let ?n = "replicate 31 0 @ [5] :: NodeId"
  have me: "node_id_ok ?me" and n: "node_id_ok ?n" by (simp_all add: node_id_ok_def)
  have "last ?n \<noteq> last ?me" by simp
  then have ne: "?n \<noteq> ?me" by metis
  have "new_table ?me = fold update [] (new_table ?me)" by simp
  from routing_table_correct [OF me this, of ?n] show ?thesis using n ne by blast
qed

text \<open>
  \<open>find_closest\<close> returns what it says: at most \<open>k\<close> known peers, in the order of
  their distance to the target, and no peer that was left out is closer than one returned.
  When fewer than \<open>k\<close> peers are known all of them are returned.
\<close>

lemma find_closest_correct:
  "length (find_closest target k t) = min k (length (all_peers t)) \<and>
   sorted (map (\<lambda>p. xor_distance (peer_id p) target) (find_closest target k t)) \<and>
   (\<exists>rest. mset (find_closest target k t) + mset rest = mset (all_peers t) \<and>
      list_all (\<lambda>q. list_all (\<lambda>p. xor_distance (peer_id p) target \<le> xor_distance (peer_id q) target)
        (find_closest target k t)) rest)"
proof -
  let ?d = "\<lambda>p. xor_distance (peer_id p) target"
  let ?s = "sort_key ?d (all_peers t)"
  have "sorted (map ?d (take k ?s))" by (simp only: take_map [symmetric] sorted_sort_key sorted_wrt_take)
  moreover have "list_all (\<lambda>q. list_all (\<lambda>p. ?d p \<le> ?d q) (take k ?s)) (drop k ?s)"
    using sorted_take_drop [OF sorted_sort_key [of ?d "all_peers t"]] by (auto simp: list_all_iff)
  ultimately show ?thesis
    using find_closest_split [of target k t] unfolding find_closest_def by (auto simp: min.commute)
qed

section \<open>Rate limiter\<close>

text \<open>
  C34. In memory and with a clock that does not run backwards, of the calls of one key in one
  minute exactly the first ones up to the limit are allowed, whatever other keys do in between:
  their number is the smaller of the limit and the number of calls.
\<close>

theorem rate_limit_exact:
  assumes "sorted (map fst calls)" "calls_in key b calls < 2 ^ 64"
  shows "allowed_in key b calls (fst (allow_all rd calls (new_limiter rd None limit))) =
         min (calls_in key b calls) (unat limit)"
proof -
  have "used [] key b = 0" "\<And>c. not_later [] key c" by (simp_all add: used_def not_later_def)
  then show ?thesis
    using allowed_window [OF assms(1), of "new_limiter rd None limit" "[]" key b rd] assms(2)
    by (simp add: new_limiter_def)
qed

definition demo_redis :: "unit redis_if" where
  "demo_redis = \<lparr>redis_connect = (\<lambda>u. None), redis_incr = (\<lambda>k r. (Inr 1, r)), redis_expire = (\<lambda>k n r. (Inr (), r))\<rparr>"

theorem rate_limit_exact_witness:
  "allowed_in ''ip'' 0 [(1, ''ip''), (2, ''other''), (3, ''ip''), (4, ''ip'')]
     (fst (allow_all demo_redis [(1, ''ip''), (2, ''other''), (3, ''ip''), (4, ''ip'')] (new_limiter demo_redis None 2))) = 2"
proof -
  let ?c = "[(1, ''ip''), (2, ''other''), (3, ''ip''), (4, ''ip'')] :: (u64 \<times> string) list"
  have "calls_in ''ip'' 0 ?c = 3" by code_simp
  then show ?thesis using rate_limit_exact [of ?c "''ip''" 0 demo_redis 2] by simp
qed

section \<open>State commitment\<close>




end
