(* ===== verification/Error_Middleware.thy ===== *)
theory Error_Middleware
  imports Node_Errors
begin

text \<open>
  Model of \<open>network-node/src/error_middleware.rs\<close>: error statistics and one circuit breaker
  per component. Each operation takes its lock and releases it before it returns, so it is a
  function on the state behind the locks. Clock readings, fresh identifiers and the rendering
  of \<open>{:?}\<close> are arguments; log output and the empty monitoring hook are left out.
\<close>

section \<open>Data\<close>

record ErrorMiddlewareConfig =
  enable_circuit_breaker :: bool
  enable_rate_limiting :: bool
  max_errors_per_minute :: usize
  circuit_breaker_threshold :: usize
  circuit_breaker_timeout :: int
  enable_error_aggregation :: bool
  log_internal_errors :: bool
  expose_error_details :: bool

text \<open>Durations and instants are in milliseconds.\<close>

definition default_config :: ErrorMiddlewareConfig where
  "default_config =
     \<lparr>enable_circuit_breaker = True, enable_rate_limiting = True, max_errors_per_minute = 100,
      circuit_breaker_threshold = 10, circuit_breaker_timeout = 60000, enable_error_aggregation = True,
      log_internal_errors = True, expose_error_details = False\<rparr>"

record ErrorRecord =
  rec_id :: string
  rec_error_type :: string
  rec_component :: string
  rec_operation :: string
  rec_message :: string
  rec_timestamp :: int
  rec_request_id :: "string option"
  rec_stack_trace :: "string option"

record ErrorStats =
  total_errors :: u64
  errors_by_type :: "(string, u64) hash_map"
  errors_by_component :: "(string, u64) hash_map"
  recent_errors :: "ErrorRecord list"
  last_updated :: int

definition default_stats :: ErrorStats where
  "default_stats =
     \<lparr>total_errors = 0, errors_by_type = [], errors_by_component = [], recent_errors = [], last_updated = 0\<rparr>"

datatype CircuitBreakerState = Closed | Open | HalfOpen

record CircuitBreaker =
  cb_state :: CircuitBreakerState
  failure_count :: usize
  last_failure_time :: "int option"
  success_count :: usize

definition closed_breaker :: CircuitBreaker where
  "closed_breaker = \<lparr>cb_state = Closed, failure_count = 0, last_failure_time = None, success_count = 0\<rparr>"

record ErrorMiddleware =
  config :: ErrorMiddlewareConfig
  error_stats :: ErrorStats
  circuit_breakers :: "(string, CircuitBreaker) hash_map"

datatype LogLevel = LogError | LogWarn | LogInfo | LogDebug

section \<open>Operations\<close>

definition new_middleware :: "ErrorMiddlewareConfig \<Rightarrow> ErrorMiddleware" where
  "new_middleware cfg = \<lparr>config = cfg, error_stats = default_stats, circuit_breakers = []\<rparr>"

definition get_stack_trace :: "(NetworkError \<Rightarrow> string) \<Rightarrow> NetworkError \<Rightarrow> ErrorMiddleware \<Rightarrow> string option" where
  "get_stack_trace debug err self = (if log_internal_errors (config self) then Some (debug err) else None)"

definition create_error_record ::
  "(NetworkError \<Rightarrow> string) \<Rightarrow> string \<Rightarrow> int \<Rightarrow> NetworkError \<Rightarrow> ErrorContext \<Rightarrow> ErrorMiddleware \<Rightarrow> ErrorRecord" where
  "create_error_record debug uuid now err ctx self =
     \<lparr>rec_id = uuid, rec_error_type = network_error_code err, rec_component = ctx_component ctx,
      rec_operation = ctx_operation ctx, rec_message = display_NetworkError err, rec_timestamp = now,
      rec_request_id = ctx_request_id ctx, rec_stack_trace = get_stack_trace debug err self\<rparr>"

definition record_error_stats :: "int \<Rightarrow> NetworkError \<Rightarrow> ErrorRecord \<Rightarrow> ErrorStats \<Rightarrow> ErrorStats" where
  "record_error_stats now err r stats =
    (let stats = stats\<lparr>total_errors := total_errors stats + 1\<rparr>;
         stats = stats\<lparr>last_updated := now\<rparr>;
         stats = stats\<lparr>errors_by_type := hm_entry (network_error_code err) 0 (\<lambda>n. n + 1) (errors_by_type stats)\<rparr>;
         stats = stats\<lparr>errors_by_component := hm_entry (rec_component r) 0 (\<lambda>n. n + 1) (errors_by_component stats)\<rparr>;
         stats = stats\<lparr>recent_errors := recent_errors stats @ [r]\<rparr>
     in if 100 < length (recent_errors stats) then stats\<lparr>recent_errors := tl (recent_errors stats)\<rparr> else stats)"

text \<open>The source matches half of the error variants only; \<open>None\<close> marks the missing arms.\<close>

fun determine_log_level :: "NetworkError \<Rightarrow> LogLevel option" where
  "determine_log_level (Database e) = Some LogError"
| "determine_log_level (Server m) = Some LogError"
| "determine_log_level (Connection m) = Some LogWarn"
| "determine_log_level (Validation m) = Some LogInfo"
| "determine_log_level (Config m) = Some LogError"
| "determine_log_level (Io m) = Some LogError"
| "determine_log_level (Serialization m) = Some LogWarn"
| "determine_log_level ShutdownTimeout = Some LogWarn"
| "determine_log_level Cancelled = Some LogInfo"
| "determine_log_level (Internal m) = Some LogError"
| "determine_log_level _ = None"

definition fail_breaker :: "usize \<Rightarrow> int \<Rightarrow> int \<Rightarrow> CircuitBreaker \<Rightarrow> CircuitBreaker" where
  "fail_breaker threshold timeout now b =
    (let b = b\<lparr>failure_count := failure_count b + 1\<rparr> in
     case cb_state b of
       Closed \<Rightarrow>
         if threshold \<le> failure_count b then b\<lparr>cb_state := Open, last_failure_time := Some now\<rparr> else b
     | Open \<Rightarrow>
         (case last_failure_time b of
            Some last_failure \<Rightarrow> if timeout < now - last_failure then b\<lparr>cb_state := HalfOpen\<rparr> else b
          | None \<Rightarrow> b)
     | HalfOpen \<Rightarrow> b\<lparr>cb_state := Open, last_failure_time := Some now\<rparr>)"

definition check_circuit_breaker :: "int \<Rightarrow> string \<Rightarrow> ErrorMiddleware \<Rightarrow> ErrorMiddleware" where
  "check_circuit_breaker now component self =
     self\<lparr>circuit_breakers := hm_entry component closed_breaker
       (fail_breaker (circuit_breaker_threshold (config self)) (circuit_breaker_timeout (config self)) now)
       (circuit_breakers self)\<rparr>"

definition succeed_breaker :: "CircuitBreaker \<Rightarrow> CircuitBreaker" where
  "succeed_breaker b =
    (let b = b\<lparr>success_count := success_count b + 1\<rparr> in
     case cb_state b of
       HalfOpen \<Rightarrow>
         if 3 \<le> success_count b then b\<lparr>cb_state := Closed, failure_count := 0, success_count := 0\<rparr> else b
     | _ \<Rightarrow> b)"

definition record_success :: "string \<Rightarrow> ErrorMiddleware \<Rightarrow> ErrorMiddleware" where
  "record_success component self =
    (if \<not> enable_circuit_breaker (config self) then self
     else self\<lparr>circuit_breakers := hm_modify component succeed_breaker (circuit_breakers self)\<rparr>)"

definition is_circuit_breaker_open :: "string \<Rightarrow> ErrorMiddleware \<Rightarrow> bool" where
  "is_circuit_breaker_open component self =
    (if \<not> enable_circuit_breaker (config self) then False
     else case hm_get (circuit_breakers self) component of
       Some b \<Rightarrow> cb_state b = Open | None \<Rightarrow> False)"

definition handle_error ::
  "(NetworkError \<Rightarrow> string) \<Rightarrow> string \<Rightarrow> int \<Rightarrow> NetworkError \<Rightarrow> ErrorContext \<Rightarrow> ErrorMiddleware \<Rightarrow>
     ContextualError \<times> ErrorMiddleware" where
  "handle_error debug uuid now err ctx self =
    (let r = create_error_record debug uuid now err ctx self;
         self = self\<lparr>error_stats := record_error_stats now err r (error_stats self)\<rparr>;
         self = (if enable_circuit_breaker (config self) then check_circuit_breaker now (ctx_component ctx) self else self)
     in (new_ContextualError err ctx, self))"

definition get_error_stats :: "ErrorMiddleware \<Rightarrow> ErrorStats" where
  "get_error_stats self = error_stats self"

definition get_circuit_breaker_status :: "ErrorMiddleware \<Rightarrow> (string, CircuitBreaker) hash_map" where
  "get_circuit_breaker_status self = circuit_breakers self"

definition reset_stats :: "ErrorMiddleware \<Rightarrow> ErrorMiddleware" where
  "reset_stats self = self\<lparr>error_stats := default_stats\<rparr>"

definition reset_circuit_breaker :: "string \<Rightarrow> ErrorMiddleware \<Rightarrow> ErrorMiddleware" where
  "reset_circuit_breaker component self =
     self\<lparr>circuit_breakers := hm_insert component closed_breaker (circuit_breakers self)\<rparr>"

section \<open>Statistics\<close>

definition hm_sum :: "('k, 'a::comm_monoid_add) hash_map \<Rightarrow> 'a" where
  "hm_sum m = sum_list (map snd m)"

lemma hm_sum_update:
  "distinct (map fst m) \<Longrightarrow> sum_list (map snd (AList.update k v m)) + unwrap_or 0 (map_of m k) = sum_list (map snd m) + v"
  for v :: "'a::comm_monoid_add"
  by (induction m) (auto simp: add_ac)

lemma hm_sum_entry:
  assumes "hm_ok m"
  shows "hm_sum (hm_entry k 0 (\<lambda>n. n + 1) m) = hm_sum m + (1 :: u64)"
proof -
  let ?x = "unwrap_or 0 (hm_get m k)"
  have "hm_sum (hm_entry k 0 (\<lambda>n. n + 1) m) + ?x = hm_sum m + (?x + 1)"
    using hm_sum_update [of m k "?x + 1"] assms by (simp add: hm_sum_def hm_entry_def hm_insert_def hm_ok_def)
  then have "hm_sum (hm_entry k 0 (\<lambda>n. n + 1) m) + ?x = (hm_sum m + 1) + ?x" by (simp only: ac_simps)
  then show ?thesis by (simp only: add_right_cancel)
qed

definition stats_ok :: "ErrorStats \<Rightarrow> bool" where
  "stats_ok st \<longleftrightarrow> hm_ok (errors_by_type st) \<and> hm_ok (errors_by_component st) \<and>
     hm_sum (errors_by_type st) = total_errors st \<and> hm_sum (errors_by_component st) = total_errors st \<and>
     length (recent_errors st) \<le> 100"

lemma stats_ok_default: "stats_ok default_stats"
  by (simp add: stats_ok_def default_stats_def hm_sum_def)

lemma stats_ok_record: "stats_ok st \<Longrightarrow> stats_ok (record_error_stats now err r st)"
  by (auto simp: stats_ok_def record_error_stats_def Let_def hm_sum_entry)

text \<open>The records kept are the last hundred.\<close>

lemma recent_errors_record:
  assumes "recent_errors st = drop (length all - 100) all"
  shows "recent_errors (record_error_stats now err r st) = drop (length (all @ [r]) - 100) (all @ [r])"
proof (cases "length all < 100")
  case True
  with assms show ?thesis by (simp add: record_error_stats_def Let_def)
next
  case False
  then have n: "length all + 1 - 100 = Suc (length all - 100)" by simp
  have "drop (length all - 100) all \<noteq> []" using False by simp
  then have "tl (drop (length all - 100) all @ [r]) = drop (length all - 100) (tl all) @ [r]"
    by (simp add: tl_append2 tl_drop)
  with n False assms show ?thesis by (simp add: record_error_stats_def Let_def drop_Suc)
qed

section \<open>Breakers\<close>

datatype breaker_event = Failure int | Success

fun breaker_run :: "usize \<Rightarrow> int \<Rightarrow> breaker_event list \<Rightarrow> CircuitBreaker \<Rightarrow> CircuitBreaker" where
  "breaker_run threshold timeout [] b = b"
| "breaker_run threshold timeout (Failure now # es) b =
     breaker_run threshold timeout es (fail_breaker threshold timeout now b)"
| "breaker_run threshold timeout (Success # es) b = breaker_run threshold timeout es (succeed_breaker b)"

definition failures :: "breaker_event list \<Rightarrow> nat" where
  "failures es = length (filter (\<lambda>e. e \<noteq> Success) es)"

lemma failures_simps [simp]:
  "failures [] = 0" "failures (Failure t # es) = Suc (failures es)" "failures (Success # es) = failures es"
  by (simp_all add: failures_def)

lemma open_stays:
  "failures es = 0 \<Longrightarrow> cb_state b = Open \<Longrightarrow> cb_state (breaker_run threshold timeout es b) = Open"
  by (induction threshold timeout es b rule: breaker_run.induct) (auto simp: succeed_breaker_def Let_def)

text \<open>A closed breaker counts failures only: successes in between do not help it.\<close>

lemma closed_run:
  assumes "cb_state b = Closed" "unat (failure_count b) + failures es \<le> unat threshold"
    "unat (failure_count b) < unat threshold"
  shows "cb_state (breaker_run threshold timeout es b) =
           (if unat (failure_count b) + failures es = unat threshold then Open else Closed)"
  using assms
proof (induction threshold timeout es b rule: breaker_run.induct)
  case (2 threshold timeout now es b)
  have "failure_count b \<noteq> - 1"
    using 2(4) unat_mono [of threshold] word_order.extremum [of threshold] by (metis leD word_less_nat_alt)
  then have c: "unat (failure_count b + 1) = Suc (unat (failure_count b))" by (rule unat_Suc)
  show ?case
  proof (cases "threshold \<le> failure_count b + 1")
    case True
    then have "failures es = 0" using 2(3) c by (simp add: word_le_nat_alt)
    with True 2(2-4) c show ?thesis
      by (simp add: fail_breaker_def Let_def open_stays word_le_nat_alt)
  next
    case False
    with 2 c show ?thesis by (simp add: fail_breaker_def Let_def word_le_nat_alt)
  qed
qed (auto simp: succeed_breaker_def Let_def)

end
