(* ===== verification/Node_Config.thy ===== *)
theory Node_Config
  imports Node_Errors
begin

text \<open>
  Model of \<open>network-node/src/config.rs\<close>: the configuration records, their defaults, the list
  of RPC endpoints and the reading of the environment. The environment is a partial map from
  names to values; decoding JSON and the random identifier are arguments.
\<close>

section \<open>Parsing of numbers and flags\<close>

definition is_digit :: "char \<Rightarrow> bool" where
  "is_digit c = (let n = of_char c :: nat in 48 \<le> n \<and> n \<le> 57)"

definition parse_digits :: "string \<Rightarrow> nat option" where
  "parse_digits s = (if s \<noteq> [] \<and> list_all is_digit s then Some (digits_value s) else None)"

text \<open>\<open>str::parse::<u64>\<close>, \<open>str::parse::<i64>\<close> and \<open>str::parse::<bool>\<close>.\<close>

definition parse_u64 :: "string \<Rightarrow> nat option" where
  "parse_u64 s =
    (let body = (case s of c # cs \<Rightarrow> if c = CHR ''+'' then cs else s | [] \<Rightarrow> [])
     in case parse_digits body of Some n \<Rightarrow> if n < 2 ^ 64 then Some n else None | None \<Rightarrow> None)"

definition parse_i64 :: "string \<Rightarrow> int option" where
  "parse_i64 s =
    (case s of
       [] \<Rightarrow> None
     | c # cs \<Rightarrow>
         if c = CHR ''-'' then
           (case parse_digits cs of Some n \<Rightarrow> if n \<le> 2 ^ 63 then Some (- int n) else None | None \<Rightarrow> None)
         else
           (case parse_digits (if c = CHR ''+'' then cs else s) of
              Some n \<Rightarrow> if n < 2 ^ 63 then Some (int n) else None | None \<Rightarrow> None))"

definition parse_bool :: "string \<Rightarrow> bool option" where
  "parse_bool s = (if s = ''true'' then Some True else if s = ''false'' then Some False else None)"

section \<open>Providers and endpoints\<close>

record HorizonProvider =
  url :: string
  provider_name :: string
  priority :: u8

record HorizonConfig =
  providers_config :: "HorizonProvider list"
  horizon_health_check_interval_seconds :: u64
  circuit_breaker_failure_threshold :: u8
  circuit_breaker_recovery_timeout_seconds :: u64

record SorobanConfig =
  rpc_url :: string
  rpc_urls :: "string list"
  network_passphrase :: string
  soroban_health_check_interval_seconds :: u64

definition default_soroban_rpc_url :: string where
  "default_soroban_rpc_url = ''https://soroban-testnet.stellar.org:443''"

definition add_endpoint :: "string list \<Rightarrow> string \<Rightarrow> string list" where
  "add_endpoint endpoints u =
     (if trim u \<noteq> [] \<and> \<not> list_ex (\<lambda>x. x = u) endpoints then endpoints @ [u] else endpoints)"

definition rpc_endpoints :: "SorobanConfig \<Rightarrow> string list" where
  "rpc_endpoints self =
    (let endpoints = (if trim (rpc_url self) \<noteq> [] then [rpc_url self] else []);
         endpoints = foldl add_endpoint endpoints (rpc_urls self)
     in if endpoints = [] then [default_soroban_rpc_url] else endpoints)"

definition default_SorobanConfig :: SorobanConfig where
  "default_SorobanConfig =
     \<lparr>rpc_url = default_soroban_rpc_url, rpc_urls = [],
      network_passphrase = ''Test SDF Testnet ; September 2015'',
      soroban_health_check_interval_seconds = 60\<rparr>"

definition default_HorizonConfig :: HorizonConfig where
  "default_HorizonConfig =
     \<lparr>providers_config =
        [\<lparr>url = ''https://horizon.stellar.org'', provider_name = ''Stellar Public'', priority = 1\<rparr>,
         \<lparr>url = ''https://horizon-blockdaemon.stellar.ovh'', provider_name = ''Blockdaemon'', priority = 2\<rparr>,
         \<lparr>url = ''https://stellar-horizon.infura.io'', provider_name = ''Infura'', priority = 3\<rparr>],
      horizon_health_check_interval_seconds = 60, circuit_breaker_failure_threshold = 3,
      circuit_breaker_recovery_timeout_seconds = 300\<rparr>"

section \<open>Node configuration\<close>

datatype TracingExporter = Otlp | Jaeger | XRay | NoExporter

datatype SignerConfig =
  LocalSigner (key_path: string)
| AwsKms (kms_key_id: string) (kms_region: string) (kms_profile: "string option")
| Hsm (slot_id: u32) (pin: string)

record DatabaseConfig =
  min_connections :: usize
  max_connections :: usize
  connection_timeout :: nat
  idle_timeout :: nat

definition default_DatabaseConfig :: DatabaseConfig where
  "default_DatabaseConfig =
     \<lparr>min_connections = 2, max_connections = 10, connection_timeout = 30, idle_timeout = 300\<rparr>"

definition from_url :: "string \<Rightarrow> DatabaseConfig node_result" where
  "from_url u = Inr default_DatabaseConfig"

record NetworkConfig =
  bind_address :: string
  grpc_bind_address :: string
  gateway_bind_address :: string
  database_url :: string
  database_config :: DatabaseConfig
  shutdown_grace_period :: nat
  log_level :: string
  bootstrap_peer :: "string option"
  tls_cert_path :: "string option"
  tls_key_path :: "string option"
  tls_client_ca_path :: "string option"
  tls_require_client_auth :: bool
  enable_gateway :: bool
  enable_reflection :: bool
  config_node_id :: string
  otlp_endpoint :: "string option"
  jaeger_endpoint :: "string option"
  xray_endpoint :: "string option"
  tracing_enabled :: bool
  tracing_exporter :: TracingExporter
  signing_config :: "SignerConfig option"
  cache_ttl_seconds :: int
  genesis_config_path :: "string option"
  horizon_config :: HorizonConfig
  soroban_config :: SorobanConfig
  vault_contract_address :: string

definition exporter_of :: "string \<Rightarrow> TracingExporter" where
  "exporter_of s =
    (let l = to_ascii_lowercase s in
     if l = ''jaeger'' then Jaeger else if l = ''xray'' then XRay else if l = ''none'' then NoExporter else Otlp)"

definition signer_of :: "(string \<Rightarrow> string option) \<Rightarrow> SignerConfig option" where
  "signer_of var =
    (case var ''AWS_KMS_KEY_ID'' of
       Some k \<Rightarrow> Some (AwsKms k (unwrap_or ''us-east-1'' (var ''AWS_REGION'')) (var ''AWS_PROFILE''))
     | None \<Rightarrow>
         (case var ''LOCAL_SIGNER_KEY_PATH'' of Some p \<Rightarrow> Some (LocalSigner p) | None \<Rightarrow> None))"

definition from_env ::
  "(string \<Rightarrow> HorizonConfig option) \<Rightarrow> (string \<Rightarrow> SorobanConfig option) \<Rightarrow> string \<Rightarrow>
     (string \<Rightarrow> string option) \<Rightarrow> NetworkConfig node_result" where
  "from_env parse_horizon parse_soroban uuid var =
     rbind (rok_or (Config ''Invalid SHUTDOWN_GRACE_PERIOD'')
              (parse_u64 (unwrap_or ''30'' (var ''SHUTDOWN_GRACE_PERIOD'')))) (\<lambda>grace.
     Inr \<lparr>bind_address = unwrap_or ''0.0.0.0:8080'' (var ''BIND_ADDRESS''),
       grpc_bind_address = unwrap_or ''0.0.0.0:50051'' (var ''GRPC_BIND_ADDRESS''),
       gateway_bind_address = unwrap_or ''0.0.0.0:8081'' (var ''GATEWAY_BIND_ADDRESS''),
       database_url = unwrap_or ''sqlite::memory:'' (var ''DATABASE_URL''),
       database_config = default_DatabaseConfig,
       shutdown_grace_period = grace,
       log_level = unwrap_or ''info'' (var ''LOG_LEVEL''),
       bootstrap_peer = var ''BOOTSTRAP_PEER'',
       tls_cert_path = var ''TLS_CERT_PATH'',
       tls_key_path = var ''TLS_KEY_PATH'',
       tls_client_ca_path = var ''TLS_CLIENT_CA_PATH'',
       tls_require_client_auth =
         unwrap_or True (case var ''TLS_REQUIRE_CLIENT_AUTH'' of Some s \<Rightarrow> parse_bool s | None \<Rightarrow> None),
       enable_gateway = unwrap_or True (parse_bool (unwrap_or ''true'' (var ''ENABLE_GATEWAY''))),
       enable_reflection = unwrap_or True (parse_bool (unwrap_or ''true'' (var ''ENABLE_REFLECTION''))),
       config_node_id = unwrap_or (''node-'' @ takeWhile (\<lambda>c. c \<noteq> CHR ''-'') uuid) (var ''NODE_ID''),
       otlp_endpoint = var ''OTLP_ENDPOINT'',
       jaeger_endpoint = var ''JAEGER_ENDPOINT'',
       xray_endpoint = var ''XRAY_ENDPOINT'',
       tracing_enabled = unwrap_or True (parse_bool (unwrap_or ''true'' (var ''TRACING_ENABLED''))),
       tracing_exporter = exporter_of (unwrap_or ''otlp'' (var ''TRACING_EXPORTER'')),
       signing_config = signer_of var,
       cache_ttl_seconds =
         unwrap_or 3600 (case var ''CACHE_TTL_SECONDS'' of Some s \<Rightarrow> parse_i64 s | None \<Rightarrow> None),
       genesis_config_path = var ''GENESIS_CONFIG_PATH'',
       horizon_config = (case var ''HORIZON_CONFIG'' of
           Some json \<Rightarrow> unwrap_or default_HorizonConfig (parse_horizon json) | None \<Rightarrow> default_HorizonConfig),
       soroban_config = (case var ''SOROBAN_CONFIG'' of
           Some json \<Rightarrow> unwrap_or default_SorobanConfig (parse_soroban json) | None \<Rightarrow> default_SorobanConfig),
       vault_contract_address = unwrap_or ''CCDRM2F5H7...'' (var ''VAULT_CONTRACT_ADDRESS'')\<rparr>)"

section \<open>Parsing what was printed\<close>

lemma is_digit_char_of: "n < 10 \<Longrightarrow> is_digit (char_of (48 + n))" for n :: nat
  by (simp add: is_digit_def Let_def)

lemma show_nat_digits: "show_nat n \<noteq> [] \<and> list_all is_digit (show_nat n)"
proof (induction n rule: show_nat.induct)
  case (1 n)
  then show ?case by (subst (1 2) show_nat.simps) (auto simp: is_digit_char_of)
qed

lemma parse_digits_show: "parse_digits (show_nat n) = Some n"
  using show_nat_digits [of n] by (simp add: parse_digits_def digits_value_show)

lemma digit_not_sign: "is_digit c \<Longrightarrow> c \<noteq> CHR ''+'' \<and> c \<noteq> CHR ''-''"
  by (auto simp: is_digit_def)

lemma parse_u64_show: "n < 2 ^ 64 \<Longrightarrow> parse_u64 (show_nat n) = Some n"
  using show_nat_digits [of n] digit_not_sign parse_digits_show [of n]
  by (cases "show_nat n") (auto simp: parse_u64_def Let_def)

section \<open>Endpoints\<close>

lemma add_endpoint_distinct: "distinct xs \<Longrightarrow> distinct (add_endpoint xs u)"
  by (auto simp: add_endpoint_def list_ex_iff)

lemma set_add_endpoint: "set (add_endpoint xs u) = set xs \<union> (if trim u \<noteq> [] then {u} else {})"
  by (auto simp: add_endpoint_def list_ex_iff)

lemma foldl_add_endpoint:
  "distinct xs \<Longrightarrow> distinct (foldl add_endpoint xs us) \<and>
     set (foldl add_endpoint xs us) = set xs \<union> {u \<in> set us. trim u \<noteq> []} \<and>
     (\<exists>ys. foldl add_endpoint xs us = xs @ ys)"
proof (induction us arbitrary: xs)
  case (Cons u us)
  have "\<exists>zs. add_endpoint xs u = xs @ zs" by (simp add: add_endpoint_def)
  with Cons.IH [OF add_endpoint_distinct [OF Cons.prems], of u] show ?case
    by (auto simp: set_add_endpoint)
qed simp

end
