(* ===== verification/Soroban_Rpc.thy ===== *)
theory Soroban_Rpc
  imports Node_Config
begin

text \<open>
  Model of \<open>network-node/src/soroban_rpc_client.rs\<close>: JSON-RPC calls with failover over a list
  of endpoints. The HTTP client, with its own retry policy, and the decoder of the response are
  parameters: what posting the request to an endpoint answers in the current state of the
  outside world, and the typed response the body decodes to.
\<close>

section \<open>Data\<close>

record 'p JsonRpcRequest =
  req_jsonrpc :: string
  req_id :: u64
  req_method :: string
  req_params :: 'p

record JsonRpcError =
  rpc_code :: int
  rpc_message :: string

record 'r JsonRpcResponse =
  resp_result :: "'r option"
  resp_error :: "JsonRpcError option"

text \<open>A response: status, body text if it can be read, and the decoded body or the decoder's error.\<close>

record 'r http_response =
  http_status :: nat
  http_status_text :: string
  http_text :: "string option"
  http_json :: "string + 'r JsonRpcResponse"

type_synonym ('p, 'r, 'w) post = "string \<Rightarrow> 'p JsonRpcRequest \<Rightarrow> 'w \<Rightarrow> (string + 'r http_response) \<times> 'w"

record SorobanRpcClient =
  client_rpc_urls :: "string list"

section \<open>Operations\<close>

definition new_rpc_client :: "SorobanConfig \<Rightarrow> SorobanRpcClient" where
  "new_rpc_client cfg = \<lparr>client_rpc_urls = rpc_endpoints cfg\<rparr>"

definition is_success :: "nat \<Rightarrow> bool" where
  "is_success status \<longleftrightarrow> 200 \<le> status \<and> status < 300"

text \<open>What one response means when it ends the call.\<close>

definition final_answer :: "'r http_response \<Rightarrow> 'r node_result" where
  "final_answer response =
    (if \<not> is_success (http_status response)
     then Inl (SorobanRpc (''HTTP error '' @ http_status_text response @ '': '' @ unwrap_or [] (http_text response)))
     else case http_json response of
       Inl e \<Rightarrow> Inl (Serialization e)
     | Inr j \<Rightarrow>
         (case resp_error j of
            Some err \<Rightarrow> Inl (SorobanRpc (''RPC error '' @ show_int (rpc_code err) @ '': '' @ rpc_message err))
          | None \<Rightarrow> rok_or (SorobanRpc ''Empty result in Soroban RPC response'') (resp_result j)))"

text \<open>
  The loop over the endpoints from index \<open>index\<close> on; the third component of the result counts
  the failovers reported by \<open>track_failover\<close>.
\<close>

fun call_loop ::
  "('p, 'r, 'w) post \<Rightarrow> 'p JsonRpcRequest \<Rightarrow> nat \<Rightarrow> NetworkError option \<Rightarrow> nat \<Rightarrow> string list \<Rightarrow> 'w \<Rightarrow>
     'r node_result \<times> nat \<times> 'w" where
  "call_loop post request len last_error failovers [] w =
     (Inl (unwrap_or (SorobanRpc ''No Soroban RPC endpoints available'') last_error), failovers, w)"
| "call_loop post request len last_error failovers (u # us) w =
    (let index = len - Suc (length us) in
     case post u request w of
       (Inl e, w') \<Rightarrow>
         let err = Connection (''Failed to send Soroban RPC request to '' @ u @ '': '' @ e) in
         if index + 1 < len then call_loop post request len (Some err) (failovers + 1) us w'
         else (Inl err, failovers, w')
     | (Inr response, w') \<Rightarrow>
         if http_status response = 503 \<and> index + 1 < len
         then call_loop post request len
           (Some (SorobanRpc (''HTTP error '' @ http_status_text response @ '' from '' @ u @ '': '' @
              unwrap_or [] (http_text response)))) (failovers + 1) us w'
         else (final_answer response, failovers, w'))"

definition call :: "('p, 'r, 'w) post \<Rightarrow> string \<Rightarrow> 'p \<Rightarrow> SorobanRpcClient \<Rightarrow> 'w \<Rightarrow> 'r node_result \<times> nat \<times> 'w" where
  "call post m params self w =
    (let request = \<lparr>req_jsonrpc = ''2.0'', req_id = 1, req_method = m, req_params = params\<rparr>
     in call_loop post request (length (client_rpc_urls self)) None 0 (client_rpc_urls self) w)"

definition get_health :: "(unit, 'r, 'w) post \<Rightarrow> SorobanRpcClient \<Rightarrow> 'w \<Rightarrow> 'r node_result \<times> nat \<times> 'w" where
  "get_health post self w = call post ''getHealth'' () self w"

record hash_params = param_hash :: string

record transaction_params = param_transaction :: string

definition get_transaction ::
  "(hash_params, 'r, 'w) post \<Rightarrow> string \<Rightarrow> SorobanRpcClient \<Rightarrow> 'w \<Rightarrow> 'r node_result \<times> nat \<times> 'w" where
  "get_transaction post h self w = call post ''getTransaction'' \<lparr>param_hash = h\<rparr> self w"

definition simulate_transaction ::
  "(transaction_params, 'r, 'w) post \<Rightarrow> string \<Rightarrow> SorobanRpcClient \<Rightarrow> 'w \<Rightarrow> 'r node_result \<times> nat \<times> 'w" where
  "simulate_transaction post xdr self w = call post ''simulateTransaction'' \<lparr>param_transaction = xdr\<rparr> self w"

definition send_transaction ::
  "(transaction_params, 'r, 'w) post \<Rightarrow> string \<Rightarrow> SorobanRpcClient \<Rightarrow> 'w \<Rightarrow> 'r node_result \<times> nat \<times> 'w" where
  "send_transaction post xdr self w = call post ''sendTransaction'' \<lparr>param_transaction = xdr\<rparr> self w"

section \<open>Failover\<close>

text \<open>An endpoint is passed over when it cannot be reached or answers 503.\<close>

definition unavailable :: "string + 'r http_response \<Rightarrow> bool" where
  "unavailable res = (case res of Inl e \<Rightarrow> True | Inr response \<Rightarrow> http_status response = 503)"

text \<open>The answer of the endpoint that ends the call.\<close>

definition answer_of :: "string \<Rightarrow> string + 'r http_response \<Rightarrow> 'r node_result" where
  "answer_of u res =
    (case res of
       Inl e \<Rightarrow> Inl (Connection (''Failed to send Soroban RPC request to '' @ u @ '': '' @ e))
     | Inr response \<Rightarrow> final_answer response)"

text \<open>The world after posting to a list of endpoints in turn.\<close>

fun world_after :: "('p, 'r, 'w) post \<Rightarrow> 'p JsonRpcRequest \<Rightarrow> string list \<Rightarrow> 'w \<Rightarrow> 'w" where
  "world_after post request [] w = w"
| "world_after post request (u # us) w = world_after post request us (snd (post u request w))"

text \<open>
  Reference: the endpoints before the one that answers are unavailable, and the one that
  answers is available or the last.
\<close>

definition answers :: "('p, 'r, 'w) post \<Rightarrow> 'p JsonRpcRequest \<Rightarrow> string list \<Rightarrow> 'w \<Rightarrow> nat \<Rightarrow> bool" where
  "answers post request us w i \<longleftrightarrow> i < length us \<and>
     (\<forall>j < i. unavailable (fst (post (us ! j) request (world_after post request (take j us) w)))) \<and>
     (\<not> unavailable (fst (post (us ! i) request (world_after post request (take i us) w))) \<or> Suc i = length us)"

lemma call_loop_answers:
  assumes "us \<noteq> []" "length us \<le> len"
  shows "\<exists>i. answers post request us w i \<and>
    call_loop post request len le n us w =
      (let res = post (us ! i) request (world_after post request (take i us) w)
       in (answer_of (us ! i) (fst res), n + i, snd res))"
  using assms
proof (induction us arbitrary: w n le)
  case (Cons u us)
  obtain res w' where p: "post u request w = (res, w')" by fastforce
  have idx: "len - Suc (length us) + 1 < len \<longleftrightarrow> us \<noteq> []" using Cons.prems by (cases us) auto
  show ?case
  proof (cases "unavailable res \<and> us \<noteq> []")
    case True
    then obtain le' where go: "call_loop post request len le n (u # us) w = call_loop post request len le' (Suc n) us w'"
      using p idx by (cases res) (auto simp: unavailable_def Let_def)
    obtain i where i: "answers post request us w' i" and eq: "call_loop post request len le' (Suc n) us w' =
        (let res = post (us ! i) request (world_after post request (take i us) w')
         in (answer_of (us ! i) (fst res), Suc n + i, snd res))"
      using Cons.IH [where w = w' and le = le' and n = "Suc n"] True Cons.prems by auto
    have "answers post request (u # us) w (Suc i)"
      using i p True by (auto simp: answers_def less_Suc_eq_0_disj)
    then show ?thesis using go eq p by (intro exI [of _ "Suc i"]) (simp add: Let_def)
  next
    case False
    then have "answers post request (u # us) w 0" using p by (auto simp: answers_def)
    moreover have "call_loop post request len le n (u # us) w = (answer_of u res, n, w')"
      using False p idx by (cases res) (auto simp: unavailable_def answer_of_def Let_def)
    ultimately show ?thesis using p by (intro exI [of _ 0]) (simp add: Let_def)
  qed
qed simp

lemma answers_unique:
  assumes "answers post request us w i" "answers post request us w j"
  shows "i = j"
proof -
  have "\<not> a < b" if "answers post request us w a" "answers post request us w b" for a b
    using that by (auto simp: answers_def)
  with assms show ?thesis by (meson linorder_neqE_nat)
qed

section \<open>Endpoints of a client\<close>

definition given_urls :: "SorobanConfig \<Rightarrow> string set" where
  "given_urls c = {u \<in> insert (rpc_url c) (set (rpc_urls c)). trim u \<noteq> []}"

lemma collected_endpoints:
  defines "start c \<equiv> if trim (rpc_url c) \<noteq> [] then [rpc_url c] else []"
  shows "distinct (foldl add_endpoint (start c) (rpc_urls c))"
    and "set (foldl add_endpoint (start c) (rpc_urls c)) = given_urls c"
    and "trim (rpc_url c) \<noteq> [] \<Longrightarrow> \<exists>ys. foldl add_endpoint (start c) (rpc_urls c) = rpc_url c # ys"
  using foldl_add_endpoint [of "start c" "rpc_urls c"] by (auto simp: start_def given_urls_def)

lemma rpc_endpoints_spec:
  "rpc_endpoints c \<noteq> [] \<and> distinct (rpc_endpoints c) \<and>
   (trim (rpc_url c) \<noteq> [] \<longrightarrow> hd (rpc_endpoints c) = rpc_url c) \<and>
   set (rpc_endpoints c) = (if given_urls c = {} then {default_soroban_rpc_url} else given_urls c)"
proof -
  let ?e = "foldl add_endpoint (if trim (rpc_url c) \<noteq> [] then [rpc_url c] else []) (rpc_urls c)"
  have r: "rpc_endpoints c = (if ?e = [] then [default_soroban_rpc_url] else ?e)"
    by (simp only: rpc_endpoints_def Let_def)
  show ?thesis
  proof (cases "?e = []")
    case True
    then have none: "given_urls c = {}" using collected_endpoints(2) [of c] by simp
    moreover have "trim (rpc_url c) = []" using none by (auto simp: given_urls_def)
    ultimately show ?thesis using r True by simp
  next
    case False
    then have "rpc_endpoints c = ?e" using r by (simp only: if_False)
    then have "distinct (rpc_endpoints c)" "set (rpc_endpoints c) = given_urls c" "rpc_endpoints c \<noteq> []"
      "trim (rpc_url c) \<noteq> [] \<Longrightarrow> \<exists>ys. rpc_endpoints c = rpc_url c # ys"
      using collected_endpoints [of c] False by (simp_all only: not_False_eq_True)
    then show ?thesis by (metis list.sel(1) set_empty)
  qed
qed

end
