(* ===== verification/Resilience_Properties.thy ===== *)
theory Resilience_Properties
  imports Error_Middleware Soroban_Rpc
begin

text \<open>
  Properties of the fault handling of the node: the circuit breakers of the error middleware
  and the failover of RPC calls.
\<close>

section \<open>Error middleware\<close>

text \<open>
  C36. The breaker of a component opens exactly at the threshold: a new breaker is closed
  while fewer failures than the threshold were recorded and open once that many were, no matter
  how many successes were recorded in between and how long ago the failures were. While no
  further failure comes an open breaker stays open, whatever time passes.
\<close>

theorem breaker_opens_at_threshold:
  assumes "failures es \<le> unat threshold" "0 < threshold" "failures es' = 0"
  shows "cb_state (breaker_run threshold timeout es closed_breaker) =
           (if failures es = unat threshold then Open else Closed) \<and>
         (failures es = unat threshold \<longrightarrow>
            cb_state (breaker_run threshold timeout es' (breaker_run threshold timeout es closed_breaker)) = Open)"
proof -
  have "0 < unat threshold" using assms(2) by (simp add: word_less_nat_alt)
  then show ?thesis
    using closed_run [of closed_breaker es threshold timeout] assms(1) open_stays [OF assms(3)]
    by (simp add: closed_breaker_def)
qed

theorem breaker_opens_at_threshold_witness:
  "cb_state (breaker_run 2 60 [Failure 0, Success, Success, Failure 1000000] closed_breaker) = Open"
proof -
  have "failures [Failure 0, Success, Success, Failure 1000000] = 2" by simp
  then show ?thesis
    using breaker_opens_at_threshold [of "[Failure 0, Success, Success, Failure 1000000]" 2 "[]" 60] by simp
qed

section \<open>RPC calls\<close>

text \<open>
  C37. A call is answered by the first endpoint that can be reached and does not answer 503,
  or by the last one if there is none; endpoints are tried in the configured order, each at
  most once, and the failovers counted are the endpoints passed over. The list of endpoints of
  a client is never empty and has no duplicates, so there is always exactly one such endpoint.
\<close>

theorem call_fails_over:
  assumes "c = new_rpc_client cfg" "us = client_rpc_urls c"
    "request = \<lparr>req_jsonrpc = ''2.0'', req_id = 1, req_method = m, req_params = params\<rparr>"
  shows "us \<noteq> [] \<and> distinct us \<and>
     (\<exists>!i. answers post request us w i) \<and>
     (\<exists>i. answers post request us w i \<and>
        call post m params c w =
          (let res = post (us ! i) request (world_after post request (take i us) w)
           in (answer_of (us ! i) (fst res), i, snd res)))"
proof -
  have u: "us \<noteq> []" "distinct us" using rpc_endpoints_spec [of cfg] assms(1,2) by (simp_all add: new_rpc_client_def)
  have run: "call post m params c w = call_loop post request (length us) None 0 us w"
    by (simp only: call_def Let_def assms(2,3))
  from call_loop_answers [OF u(1) order_refl, where n = 0 and le = None and post = post and request = request and w = w]
  obtain i where i: "answers post request us w i" and eq: "call_loop post request (length us) None 0 us w =
          (let res = post (us ! i) request (world_after post request (take i us) w)
           in (answer_of (us ! i) (fst res), 0 + i, snd res))"
    by (elim exE conjE)
  have "\<exists>!i. answers post request us w i"
    using i by (rule ex1I) (rule answers_unique [OF _ i])
  with u i eq show ?thesis unfolding run by (intro conjI exI [of _ i]) simp_all
qed

definition demo_post :: "(unit, nat, nat) post" where
  "demo_post u r w = (if u = ''a'' then (Inl ''refused'', Suc w)
     else (Inr \<lparr>http_status = 200, http_status_text = ''OK'', http_text = None,
                http_json = Inr \<lparr>resp_result = Some 42, resp_error = None\<rparr>\<rparr>, Suc w))"

definition demo_soroban :: SorobanConfig where
  "demo_soroban = default_SorobanConfig\<lparr>rpc_url := ''a'', rpc_urls := [''b'', ''a'']\<rparr>"

theorem call_fails_over_witness:
  "call demo_post ''getHealth'' () (new_rpc_client demo_soroban) 0 = (Inr 42, 1, 2) \<and>
   (\<exists>!i. answers demo_post \<lparr>req_jsonrpc = ''2.0'', req_id = 1, req_method = ''getHealth'', req_params = ()\<rparr>
      (client_rpc_urls (new_rpc_client demo_soroban)) 0 i)"
proof
  show "call demo_post ''getHealth'' () (new_rpc_client demo_soroban) 0 = (Inr 42, 1, 2)" by code_simp
  show "\<exists>!i. answers demo_post \<lparr>req_jsonrpc = ''2.0'', req_id = 1, req_method = ''getHealth'', req_params = ()\<rparr>
      (client_rpc_urls (new_rpc_client demo_soroban)) 0 i"
    by (rule call_fails_over [OF refl refl refl, THEN conjunct2, THEN conjunct2, THEN conjunct1])
qed

end
