(* ===== verification/Horizon_Client.thy ===== *)
theory Horizon_Client
  imports Node_Config Rust_Async
begin

text \<open>
  Model of \<open>network-node/src/horizon_client.rs\<close>: requests to the first usable of several
  Horizon providers, with a circuit breaker per provider. The request itself is a parameter, a
  function of the provider and the outside world; the clock is read off the world. Every
  operation of the client runs under the lock of the provider list, which is explicit here: a
  request, a switch and a health check wait when they cannot get it. The lock of the current
  index is always the inner one and nothing is awaited while it is held, so it is left out.
\<close>

section \<open>Provider status\<close>

datatype CircuitBreakerState = Closed | Open | HalfOpen

record ProviderStatus =
  provider :: HorizonProvider
  failure_count :: u8
  last_failure_time :: "int option"
  circuit_state :: CircuitBreakerState
  is_healthy :: bool
  last_health_check :: "int option"

definition new_status :: "HorizonProvider \<Rightarrow> ProviderStatus" where
  "new_status p =
     \<lparr>provider = p, failure_count = 0, last_failure_time = None, circuit_state = Closed,
      is_healthy = True, last_health_check = None\<rparr>"

definition record_failure :: "u8 \<Rightarrow> int \<Rightarrow> ProviderStatus \<Rightarrow> ProviderStatus" where
  "record_failure threshold now self =
    (let self = self\<lparr>failure_count := failure_count self + 1, last_failure_time := Some now\<rparr>
     in if threshold \<le> failure_count self then self\<lparr>circuit_state := Open\<rparr> else self)"

definition status_success :: "int \<Rightarrow> ProviderStatus \<Rightarrow> ProviderStatus" where
  "status_success now self =
    (let self = self\<lparr>failure_count := 0, last_failure_time := None, is_healthy := True,
                     last_health_check := Some now\<rparr>
     in if circuit_state self = HalfOpen then self\<lparr>circuit_state := Closed\<rparr> else self)"

definition should_attempt_reset :: "int \<Rightarrow> int \<Rightarrow> ProviderStatus \<Rightarrow> bool" where
  "should_attempt_reset now recovery_timeout self =
    (if circuit_state self = Open
     then (case last_failure_time self of Some t \<Rightarrow> recovery_timeout < now - t | None \<Rightarrow> True)
     else False)"

definition can_execute_request :: "ProviderStatus \<Rightarrow> bool" where
  "can_execute_request self =
    (case circuit_state self of Closed \<Rightarrow> is_healthy self | Open \<Rightarrow> False | HalfOpen \<Rightarrow> True)"

section \<open>Client\<close>

record HorizonClient =
  client_config :: HorizonConfig
  providers :: "ProviderStatus list"
  providers_lock :: rwlock
  current_provider_index :: nat

definition new_client :: "HorizonConfig \<Rightarrow> HorizonClient" where
  "new_client cfg =
     \<lparr>client_config = cfg,
      providers = sort_key (\<lambda>s. priority (provider s)) (map new_status (providers_config cfg)),
      providers_lock = unlocked, current_provider_index = 0\<rparr>"

definition get_current_provider :: "HorizonClient \<Rightarrow> HorizonProvider node_result" where
  "get_current_provider self =
    (let i = current_provider_index self; ps = providers self in
     if i < length ps \<and> can_execute_request (ps ! i) then Inr (provider (ps ! i))
     else case find (\<lambda>(j, s). j \<noteq> i \<and> can_execute_request s) (enumerate 0 ps) of
       Some (j, s) \<Rightarrow> Inr (provider s)
     | None \<Rightarrow> Inl (HorizonClient ''No healthy Horizon providers available''))"

definition switch_provider :: "HorizonClient \<Rightarrow> HorizonProvider node_result \<times> HorizonClient" where
  "switch_provider self =
    (let ps = providers self; n = length ps in
     case find (\<lambda>i. can_execute_request (ps ! ((current_provider_index self + i + 1) mod n))) [0..<n] of
       Some i \<Rightarrow>
         let next_index = (current_provider_index self + i + 1) mod n
         in (Inr (provider (ps ! next_index)), self\<lparr>current_provider_index := next_index\<rparr>)
     | None \<Rightarrow> (Inl (HorizonClient ''No healthy fallback providers available''), self))"

text \<open>The update of the first status whose provider has a given URL.\<close>

fun update_by_url :: "string \<Rightarrow> (ProviderStatus \<Rightarrow> ProviderStatus) \<Rightarrow> ProviderStatus list \<Rightarrow> ProviderStatus list" where
  "update_by_url u f [] = []"
| "update_by_url u f (s # ss) = (if url (provider s) = u then f s # ss else s # update_by_url u f ss)"

definition record_provider_success :: "int \<Rightarrow> HorizonProvider \<Rightarrow> HorizonClient \<Rightarrow> HorizonClient" where
  "record_provider_success now p self =
     self\<lparr>providers := update_by_url (url p) (status_success now) (providers self)\<rparr>"

definition record_provider_failure :: "int \<Rightarrow> HorizonProvider \<Rightarrow> HorizonClient \<Rightarrow> bool \<times> HorizonClient" where
  "record_provider_failure now p self =
    (let threshold = circuit_breaker_failure_threshold (client_config self);
         ps = update_by_url (url p) (record_failure threshold now) (providers self)
     in (case find (\<lambda>s. url (provider s) = url p) ps of Some s \<Rightarrow> circuit_state s = Open | None \<Rightarrow> False,
         self\<lparr>providers := ps\<rparr>))"

text \<open>A body that runs under the read or the write lock of the providers, on the client and a world.\<close>

abbreviation set_providers_lock :: "rwlock \<Rightarrow> HorizonClient \<times> 'w \<Rightarrow> HorizonClient \<times> 'w" where
  "set_providers_lock l s \<equiv> ((fst s)\<lparr>providers_lock := l\<rparr>, snd s)"

definition on_client :: "(HorizonClient \<Rightarrow> 'a \<times> HorizonClient) \<Rightarrow> (NetworkError, 'a, HorizonClient \<times> 'w) task" where
  "on_client body s = Done (fst (body (fst s))) (snd (body (fst s)), snd s)"

definition read_providers :: "(HorizonClient \<Rightarrow> 'a \<times> HorizonClient) \<Rightarrow> (NetworkError, 'a, HorizonClient \<times> 'w) task" where
  "read_providers body = with_read (\<lambda>s. providers_lock (fst s)) set_providers_lock (on_client body)"

definition write_providers :: "(HorizonClient \<Rightarrow> 'a \<times> HorizonClient) \<Rightarrow> (NetworkError, 'a, HorizonClient \<times> 'w) task" where
  "write_providers body = with_write (\<lambda>s. providers_lock (fst s)) set_providers_lock (on_client body)"

text \<open>One call of the operation changes the world only, and takes no lock.\<close>

definition run_operation :: "('w \<Rightarrow> 'a \<times> 'w) \<Rightarrow> (NetworkError, 'a, HorizonClient \<times> 'w) task" where
  "run_operation f s = Done (fst (f (snd s))) (fst s, snd (f (snd s)))"

text \<open>The body of the loop, after the increment of \<open>attempts\<close>: a result, or \<open>None\<close> to go on.\<close>

definition execute_attempt ::
  "('w \<Rightarrow> int) \<Rightarrow> (HorizonProvider \<Rightarrow> 'w \<Rightarrow> (string + 'a) \<times> 'w) \<Rightarrow> nat \<Rightarrow> nat \<Rightarrow>
     (NetworkError, 'a option, HorizonClient \<times> 'w) task" where
  "execute_attempt clock operation max_attempts attempts =
     t_bind (read_providers (\<lambda>self. (get_current_provider self, self))) (\<lambda>current.
     case current of
       Inl e \<Rightarrow>
         if max_attempts \<le> attempts then t_fail e
         else t_bind (read_providers switch_provider) (\<lambda>switched.
           case switched of Inl e' \<Rightarrow> t_fail e' | Inr _ \<Rightarrow> t_ret None)
     | Inr p \<Rightarrow>
         t_bind (run_operation (operation p)) (\<lambda>outcome.
         t_bind (t_gets (\<lambda>s. clock (snd s))) (\<lambda>now.
         case outcome of
           Inr result \<Rightarrow>
             t_bind (write_providers (\<lambda>self. ((), record_provider_success now p self))) (\<lambda>_. t_ret (Some result))
         | Inl e \<Rightarrow>
             t_bind (write_providers (record_provider_failure now p)) (\<lambda>should_switch.
             if should_switch \<and> attempts < max_attempts
             then t_bind (read_providers switch_provider) (\<lambda>switched.
               case switched of
                 Inl e' \<Rightarrow> t_fail (HorizonClient (''Failed to switch provider: '' @ display_NetworkError e'))
               | Inr _ \<Rightarrow> t_ret None)
             else t_fail (HorizonClient (''All Horizon providers failed: '' @ e))))))"

lemma execute_attempt_last:
  "execute_attempt clock operation m n s = Done None s' \<Longrightarrow> n < m"
  by (auto simp: execute_attempt_def t_bind_def task_simps
      split: run.splits sum.splits if_splits)

function execute_loop ::
  "('w \<Rightarrow> int) \<Rightarrow> (HorizonProvider \<Rightarrow> 'w \<Rightarrow> (string + 'a) \<times> 'w) \<Rightarrow> nat \<Rightarrow> nat \<Rightarrow>
     (NetworkError, 'a, HorizonClient \<times> 'w) task" where
  "execute_loop clock operation max_attempts attempts s =
    (case execute_attempt clock operation max_attempts (attempts + 1) s of
       Done (Some result) s' \<Rightarrow> Done result s'
     | Done None s' \<Rightarrow> execute_loop clock operation max_attempts (attempts + 1) s'
     | Fail e s' \<Rightarrow> Fail e s'
     | Blocked s' \<Rightarrow> Blocked s')"
  by pat_completeness auto
termination
  by (relation "measure (\<lambda>(clock, operation, max_attempts, attempts, s). max_attempts - attempts)")
    (auto dest: execute_attempt_last)

declare execute_loop.simps [simp del]

definition execute_request ::
  "('w \<Rightarrow> int) \<Rightarrow> (HorizonProvider \<Rightarrow> 'w \<Rightarrow> (string + 'a) \<times> 'w) \<Rightarrow>
     (NetworkError, 'a, HorizonClient \<times> 'w) task" where
  "execute_request clock operation s =
     execute_loop clock operation (length (providers_config (client_config (fst s)))) 0 s"

text \<open>The health check: the read guard of the first line is still alive at the write lock.\<close>

definition apply_health :: "int \<Rightarrow> HorizonProvider \<times> bool \<Rightarrow> ProviderStatus list \<Rightarrow> ProviderStatus list" where
  "apply_health now r ps =
     update_by_url (url (fst r)) (\<lambda>s. s\<lparr>is_healthy := snd r, last_health_check := Some now\<rparr>) ps"

definition health_check_all ::
  "(HorizonProvider \<Rightarrow> bool) \<Rightarrow> int \<Rightarrow> (NetworkError, unit, HorizonClient) task" where
  "health_check_all probe now =
     with_read providers_lock (\<lambda>l s. s\<lparr>providers_lock := l\<rparr>)
       (t_bind (t_gets (\<lambda>s. map (\<lambda>st. (provider st, probe (provider st))) (providers s))) (\<lambda>results.
        with_write providers_lock (\<lambda>l s. s\<lparr>providers_lock := l\<rparr>)
          (t_modify (\<lambda>s. s\<lparr>providers := foldl (\<lambda>ps r. apply_health now r ps) (providers s) results\<rparr>))))"

definition get_provider_statuses :: "HorizonClient \<Rightarrow> ProviderStatus list" where
  "get_provider_statuses self = providers self"

section \<open>Choice of a provider\<close>

lemma get_current_Inl_iff:
  "(\<exists>e. get_current_provider c = Inl e) \<longleftrightarrow> (\<forall>s \<in> set (providers c). \<not> can_execute_request s)"
proof -
  let ?i = "current_provider_index c" let ?ps = "providers c"
  let ?f = "find (\<lambda>(j, s). j \<noteq> ?i \<and> can_execute_request s) (enumerate 0 ?ps)"
  have none: "?f = None \<longleftrightarrow> (\<forall>j < length ?ps. j \<noteq> ?i \<longrightarrow> \<not> can_execute_request (?ps ! j))"
    by (auto simp: find_None_iff in_set_enumerate_eq)
  have all: "(\<forall>s \<in> set ?ps. \<not> can_execute_request s) \<longleftrightarrow> (\<forall>j < length ?ps. \<not> can_execute_request (?ps ! j))"
    by (auto simp: all_set_conv_all_nth)
  show ?thesis
  proof (cases "?i < length ?ps \<and> can_execute_request (?ps ! ?i)")
    case True
    then show ?thesis unfolding all by (auto simp: get_current_provider_def Let_def)
  next
    case False
    then have "(\<exists>e. get_current_provider c = Inl e) \<longleftrightarrow> ?f = None"
      by (auto simp: get_current_provider_def Let_def split: option.splits)
    with False show ?thesis unfolding none all by blast
  qed
qed

lemma get_current_Inr:
  "get_current_provider c = Inr p \<Longrightarrow> \<exists>s \<in> set (providers c). can_execute_request s \<and> provider s = p"
  by (auto simp: get_current_provider_def Let_def find_Some_iff in_set_enumerate_eq nth_enumerate_eq
      split: if_splits option.splits)

lemma rotate_index:
  fixes k n j :: nat
  assumes j: "j < n"
  shows "\<exists>i < n. (k + i + 1) mod n = j"
proof -
  let ?d = "j + n * (k + 1) - (k + 1)"
  have "k + 1 \<le> n * (k + 1)" using j by (cases n) auto
  then have "(k + 1 + ?d) mod n = (j + n * (k + 1)) mod n" by (intro arg_cong [where f = "\<lambda>x. x mod n"]) linarith
  also have "\<dots> = j" using j by (simp del: mult_Suc_right)
  finally have "(k + 1 + ?d mod n) mod n = j" by (simp only: mod_add_right_eq)
  then have "(k + ?d mod n + 1) mod n = j" by (simp only: add.assoc add.commute add.left_commute)
  moreover have "?d mod n < n" using j by simp
  ultimately show ?thesis by blast
qed

lemma switch_Inl_iff:
  "(\<exists>e c'. switch_provider c = (Inl e, c')) \<longleftrightarrow> (\<forall>s \<in> set (providers c). \<not> can_execute_request s)"
proof -
  let ?n = "length (providers c)"
  let ?P = "\<lambda>i. can_execute_request (providers c ! ((current_provider_index c + i + 1) mod ?n))"
  have "(\<exists>e c'. switch_provider c = (Inl e, c')) \<longleftrightarrow> find ?P [0..<?n] = None"
    by (cases "find ?P [0..<?n]") (simp_all add: switch_provider_def Let_def)
  also have "\<dots> \<longleftrightarrow> (\<forall>i < ?n. \<not> ?P i)" by (auto simp: find_None_iff)
  also have "\<dots> \<longleftrightarrow> (\<forall>j < ?n. \<not> can_execute_request (providers c ! j))"
  proof
    assume none: "\<forall>i < ?n. \<not> ?P i"
    show "\<forall>j < ?n. \<not> can_execute_request (providers c ! j)"
    proof (intro allI impI)
      fix j assume "j < ?n"
      from rotate_index [OF this, of "current_provider_index c"] none
      show "\<not> can_execute_request (providers c ! j)" by metis
    qed
  next
    assume none: "\<forall>j < ?n. \<not> can_execute_request (providers c ! j)"
    then show "\<forall>i < ?n. \<not> ?P i" by (metis mod_less_divisor not_gr_zero not_less_zero)
  qed
  finally show ?thesis by (simp add: all_set_conv_all_nth)
qed

section \<open>Circuits\<close>

text \<open>What every operation does to the circuits: an open one stays open, none is half open.\<close>

definition circuits_le :: "HorizonClient \<Rightarrow> HorizonClient \<Rightarrow> bool" where
  "circuits_le c c' \<longleftrightarrow> map provider (providers c') = map provider (providers c) \<and>
     client_config c' = client_config c \<and>
     (\<forall>i < length (providers c).
        (circuit_state (providers c ! i) = Open \<longrightarrow> circuit_state (providers c' ! i) = Open) \<and>
        (circuit_state (providers c ! i) \<noteq> HalfOpen \<longrightarrow> circuit_state (providers c' ! i) \<noteq> HalfOpen))"

lemma circuits_le_refl [simp]: "circuits_le c c"
  by (simp add: circuits_le_def)

lemma circuits_le_trans: "circuits_le a b \<Longrightarrow> circuits_le b c \<Longrightarrow> circuits_le a c"
  unfolding circuits_le_def by (metis length_map)

lemma nth_update_by_url:
  "length (update_by_url u f ps) = length ps \<and>
     (\<forall>i < length ps. update_by_url u f ps ! i \<in> {ps ! i, f (ps ! i)})"
  by (induction ps) (auto simp: nth_Cons split: nat.split)

lemma circuits_le_update:
  assumes "\<And>s. provider (f s) = provider s \<and> (circuit_state s = Open \<longrightarrow> circuit_state (f s) = Open) \<and>
      (circuit_state s \<noteq> HalfOpen \<longrightarrow> circuit_state (f s) \<noteq> HalfOpen)"
  shows "circuits_le c (c\<lparr>providers := update_by_url u f (providers c)\<rparr>)"
proof -
  note n = nth_update_by_url [of u f "providers c"]
  have "map provider (update_by_url u f (providers c)) = map provider (providers c)"
    using n assms by (intro nth_equalityI) auto
  moreover have "(circuit_state (providers c ! i) = Open \<longrightarrow> circuit_state (update_by_url u f (providers c) ! i) = Open) \<and>
     (circuit_state (providers c ! i) \<noteq> HalfOpen \<longrightarrow> circuit_state (update_by_url u f (providers c) ! i) \<noteq> HalfOpen)"
    if "i < length (providers c)" for i
    using n that assms by auto
  ultimately show ?thesis by (simp add: circuits_le_def)
qed

lemma circuits_le_success: "circuits_le c (record_provider_success now p c)"
  unfolding record_provider_success_def
  by (rule circuits_le_update) (simp add: status_success_def Let_def)

lemma circuits_le_failure: "circuits_le c (snd (record_provider_failure now p c))"
  using circuits_le_update [of "record_failure (circuit_breaker_failure_threshold (client_config c)) now" c "url p"]
  by (simp add: record_provider_failure_def Let_def record_failure_def)

lemma circuits_le_switch: "circuits_le c (snd (switch_provider c))"
  by (auto simp: switch_provider_def Let_def circuits_le_def list_all2_refl split: option.split)

text \<open>With the lock free, a body runs at once and leaves the lock free.\<close>

lemma read_current:
  assumes "providers_lock c = unlocked"
  shows "read_providers (\<lambda>self. (get_current_provider self, self)) (c, w) = Done (get_current_provider c) (c, w)"
proof -
  have "c\<lparr>providers_lock := unlocked\<rparr> = c" using assms by (metis HorizonClient.surjective HorizonClient.update_convs(3))
  then show ?thesis
    using assms by (simp add: read_providers_def with_read_def on_client_def get_current_provider_def Let_def)
qed

lemma read_switch:
  assumes "providers_lock c = unlocked" "switch_provider c = (r, c')"
  shows "read_providers switch_provider (c, w) = Done r (c', w)" "providers_lock c' = unlocked"
proof -
  have "c\<lparr>providers_lock := unlocked\<rparr> = c" using assms by (metis HorizonClient.surjective HorizonClient.update_convs(3))
  then show "read_providers switch_provider (c, w) = Done r (c', w)" "providers_lock c' = unlocked"
    using assms by (auto simp: read_providers_def with_read_def on_client_def switch_provider_def Let_def split: option.splits)
qed

lemma write_success:
  assumes "providers_lock c = unlocked"
  shows "write_providers (\<lambda>self. ((), record_provider_success now p self)) (c, w) =
           Done () (record_provider_success now p c, w)"
    "providers_lock (record_provider_success now p c) = unlocked"
  using assms by (simp_all add: write_providers_def with_write_def on_client_def record_provider_success_def)

lemma write_failure:
  assumes "providers_lock c = unlocked" "record_provider_failure now p c = (b, c')"
  shows "write_providers (record_provider_failure now p) (c, w) = Done b (c', w)" "providers_lock c' = unlocked"
  using assms by (auto simp: write_providers_def with_write_def on_client_def record_provider_failure_def Let_def)

text \<open>
  What a request does to a client whose lock is free: it does not wait, and open circuits stay
  open.
\<close>

definition kept_open :: "HorizonClient \<Rightarrow> HorizonClient \<Rightarrow> bool" where
  "kept_open c c' \<longleftrightarrow> circuits_le c c' \<and> providers_lock c' = unlocked"

lemma kept_open_trans: "kept_open a b \<Longrightarrow> kept_open b c \<Longrightarrow> kept_open a c"
  unfolding kept_open_def using circuits_le_trans by blast

lemma switch_kept_open:
  "providers_lock c = unlocked \<Longrightarrow> switch_provider c = (r, c') \<Longrightarrow>
     read_providers switch_provider (c, w) = Done r (c', w) \<and> kept_open c c'"
  unfolding kept_open_def using read_switch(1) [of c r c' w] read_switch(2) [of c r c'] circuits_le_switch [of c] by simp

lemma attempt_kept_open:
  assumes free: "providers_lock c = unlocked"
  shows "\<not> blocked (execute_attempt clock op m n (c, w)) \<and>
     kept_open c (fst (run_state (execute_attempt clock op m n (c, w))))"
proof (cases "get_current_provider c")
  case (Inl e)
  obtain r c1 where sw: "switch_provider c = (r, c1)" by fastforce
  have "kept_open c c" using free by (simp add: kept_open_def)
  with Inl switch_kept_open [OF free sw, of w] show ?thesis
    by (cases r) (simp_all add: execute_attempt_def read_current [OF free] task_simps)
next
  case (Inr p)
  obtain res w1 where op: "op p w = (res, w1)" by fastforce
  have run: "run_operation (op p) (c, w) = Done res (c, w1)" by (simp add: run_operation_def op)
  show ?thesis
  proof (cases res)
    case (Inr x)
    with write_success(1) [OF free, of "clock w1" p w1] write_success(2) [OF free, of "clock w1" p] circuits_le_success [of c "clock w1" p] run
      \<open>get_current_provider c = Inr p\<close>
    show ?thesis by (simp add: execute_attempt_def read_current [OF free] task_simps kept_open_def)
  next
    case (Inl e)
    obtain b c1 where f: "record_provider_failure (clock w1) p c = (b, c1)" by fastforce
    note wf = write_failure [OF free f]
    have k1: "kept_open c c1" using wf(2) circuits_le_failure [of c "clock w1" p] f by (simp add: kept_open_def)
    obtain r c2 where sw: "switch_provider c1 = (r, c2)" by fastforce
    have "read_providers switch_provider (c1, w1) = Done r (c2, w1) \<and> kept_open c c2"
      using switch_kept_open [OF wf(2) sw, of w1] kept_open_trans [OF k1] by blast
    with Inl wf(1) [of w1] k1 run \<open>get_current_provider c = Inr p\<close> show ?thesis
      by (cases r) (simp_all add: execute_attempt_def read_current [OF free] task_simps)
  qed
qed

lemma loop_kept_open:
  "providers_lock (fst s) = unlocked \<Longrightarrow> \<not> blocked (execute_loop clock op m n s) \<and>
     kept_open (fst s) (fst (run_state (execute_loop clock op m n s)))"
proof (induction clock op m n s rule: execute_loop.induct)
  case (1 clock op m n s)
  obtain c w where s: "s = (c, w)" by fastforce
  let ?r = "execute_attempt clock op m (n + 1) s"
  have a: "\<not> blocked ?r" "kept_open (fst s) (fst (run_state ?r))"
    using attempt_kept_open [of c clock op m "n + 1" w] 1(2) s by simp_all
  show ?case
  proof (cases ?r)
    case (Done x s')
    then have k: "kept_open (fst s) (fst s')" using a(2) by simp
    show ?thesis
    proof (cases x)
      case None
      from Done None have "execute_loop clock op m n s = execute_loop clock op m (n + 1) s'"
        by (simp add: execute_loop.simps [of clock op m n s])
      moreover have "providers_lock (fst s') = unlocked" using k by (simp add: kept_open_def)
      ultimately show ?thesis using 1(1) [OF Done None] kept_open_trans [OF k] by simp
    qed (use Done k in \<open>simp add: execute_loop.simps [of clock op m n s]\<close>)
  qed (use a in \<open>simp_all add: execute_loop.simps [of clock op m n s]\<close>)
qed

text \<open>While a writer waits for the lock or holds it, every request waits.\<close>

lemma read_providers_waits:
  "providers_lock (fst s) \<in> {Writer, Awaited n} \<Longrightarrow> read_providers body s = Blocked s"
  unfolding read_providers_def by (rule with_read_blocked)

lemma request_waits:
  "providers_lock (fst s) \<in> {Writer, Awaited n} \<Longrightarrow> execute_request clock op s = Blocked s"
  by (simp add: execute_request_def execute_loop.simps [of clock op _ _ s] execute_attempt_def
      read_providers_waits del: insert_iff)

end
