(* ===== verification/Horizon_Properties.thy ===== *)
theory Horizon_Properties
  imports Horizon_Client
begin











end
