(* ===== verification/Grpc_Auth.thy ===== *)
theory Grpc_Auth
  imports Rust_Std
begin

text \<open>
  Model of the administrative authentication of \<open>network-node/src/grpc/server.rs\<close>: the
  interceptor in front of the network and gateway services. The metadata of a request is a
  function from keys to the text of the first value, if there is one and it is text; SHA-256
  in hexadecimal is a parameter.
\<close>

section \<open>Statuses\<close>

datatype grpc_code = InvalidArgument | PermissionDeniedCode | Unauthenticated | InternalCode | NotFoundCode

datatype Status = Status (status_code: grpc_code) (status_message: string)

type_synonym 'a grpc_result = "Status + 'a"

section \<open>Interceptor\<close>

definition ADMIN_GRPC_PATHS :: "string list" where
  "ADMIN_GRPC_PATHS =
     [''/axionvera.network.NetworkService/DistributeRewards'',
      ''/axionvera.network.NetworkService/ParameterUpgrade'',
      ''/axionvera.gateway.GatewayService/DistributeRewards'',
      ''/axionvera.gateway.GatewayService/ParameterUpgrade'']"

definition is_admin_grpc_route :: "string \<Rightarrow> bool" where
  "is_admin_grpc_route path \<longleftrightarrow> path \<in> set ADMIN_GRPC_PATHS"

definition split_once :: "char \<Rightarrow> string \<Rightarrow> (string \<times> string) option" where
  "split_once c s =
    (if c \<in> set s then Some (takeWhile (\<lambda>x. x \<noteq> c) s, tl (dropWhile (\<lambda>x. x \<noteq> c) s)) else None)"

type_synonym metadata = "string \<Rightarrow> string option"

definition bearer_token :: "metadata \<Rightarrow> string option" where
  "bearer_token md =
    (case md ''authorization'' of
       None \<Rightarrow> None
     | Some raw \<Rightarrow>
         (case split_once (CHR '' '') (trim raw) of
            None \<Rightarrow> None
          | Some (scheme, token) \<Rightarrow>
              if to_ascii_lowercase scheme = ''bearer'' \<and> trim token \<noteq> [] then Some (trim token) else None))"

fun first_api_key :: "string list \<Rightarrow> metadata \<Rightarrow> string option" where
  "first_api_key [] md = None"
| "first_api_key (key # keys) md =
    (case md key of
       Some raw \<Rightarrow> if trim raw \<noteq> [] then Some (trim raw) else first_api_key keys md
     | None \<Rightarrow> first_api_key keys md)"

definition extract_admin_token :: "metadata \<Rightarrow> string option" where
  "extract_admin_token md =
    (case bearer_token md of Some t \<Rightarrow> Some t | None \<Rightarrow> first_api_key [''x-api-key'', ''api-key''] md)"

record AdminAuthInterceptor =
  expected_token_hash :: "string option"

definition new_interceptor :: "string option \<Rightarrow> AdminAuthInterceptor" where
  "new_interceptor given =
     \<lparr>expected_token_hash =
        (case map_option (\<lambda>hash. to_ascii_lowercase (trim hash)) given of
           Some hash \<Rightarrow> if hash \<noteq> [] then Some hash else None
         | None \<Rightarrow> None)\<rparr>"

definition interceptor_from_env :: "(string \<Rightarrow> string option) \<Rightarrow> AdminAuthInterceptor" where
  "interceptor_from_env env = new_interceptor (env ''GRPC_ADMIN_AUTH_TOKEN_HASH'')"

definition is_configured :: "AdminAuthInterceptor \<Rightarrow> bool" where
  "is_configured self \<longleftrightarrow> expected_token_hash self \<noteq> None"

definition intercept :: "(string \<Rightarrow> string) \<Rightarrow> AdminAuthInterceptor \<Rightarrow> string \<Rightarrow> metadata \<Rightarrow> unit grpc_result" where
  "intercept sha256_hex self path md =
    (if \<not> is_admin_grpc_route path then Inr ()
     else case expected_token_hash self of
       None \<Rightarrow> Inl (Status Unauthenticated ''admin authentication is not configured'')
     | Some expected_hash \<Rightarrow>
         (case extract_admin_token md of
            None \<Rightarrow> Inl (Status Unauthenticated ''missing authorization token'')
          | Some provided_token \<Rightarrow>
              if sha256_hex provided_token \<noteq> expected_hash
              then Inl (Status Unauthenticated ''invalid authorization token'')
              else Inr ()))"

section \<open>What passes\<close>

lemma intercept_Inr_iff:
  "intercept h self path md = Inr () \<longleftrightarrow>
     is_admin_grpc_route path \<longrightarrow> (\<exists>t. extract_admin_token md = Some t \<and> expected_token_hash self = Some (h t))"
  by (auto simp: intercept_def split: option.splits)

lemma intercept_Inl: "intercept h self path md = Inl s \<Longrightarrow> status_code s = Unauthenticated"
  by (auto simp: intercept_def split: option.splits if_splits)

text \<open>A token is never empty and carries no surrounding white space.\<close>

lemma first_api_key_trimmed: "first_api_key keys md = Some t \<Longrightarrow> t \<noteq> [] \<and> trim t = t"
  by (induction keys) (auto split: option.splits if_splits)

lemma extracted_trimmed: "extract_admin_token md = Some t \<Longrightarrow> t \<noteq> [] \<and> trim t = t"
  by (auto simp: extract_admin_token_def bearer_token_def dest: first_api_key_trimmed split: option.splits if_splits)

lemma configured_trimmed:
  "expected_token_hash (new_interceptor g) = Some h \<Longrightarrow> h \<noteq> [] \<and> trim h = h \<and> to_ascii_lowercase h = h"
  by (auto simp: new_interceptor_def trim_lower split: option.splits if_splits) (simp_all add: to_ascii_lowercase_def)

end
