(* ===== verification/Network_Service.thy ===== *)
theory Network_Service
  imports Chain_Params P2p Grpc_Auth Complex_Main
begin

text \<open>
  Model of \<open>network-node/src/grpc/network_service.rs\<close>: the handlers of the network service.
  Only \<open>parameter_upgrade\<close> changes state, the shared parameter registry; the others answer
  with placeholders, which are modelled as the values they are. The clock, which may stand
  before the epoch, and random numbers are arguments. The requests and responses have the
  fields of \<open>proto/network.proto\<close>.
\<close>

section \<open>Messages\<close>

record Timestamp =
  seconds :: int
  nanos :: int

datatype TransactionStatus = TransactionStatusUnspecified | TxPending | TxConfirmed | TxFailed

datatype TransactionType = TransactionTypeUnspecified | TxDeposit | TxWithdraw | TxDistribution | TxClaim | TxParameterUpgrade

record DepositRequest =
  dep_user_address :: string
  dep_token_address :: string
  dep_amount :: string
  dep_signature :: "u8 list"
  dep_nonce :: u64
  dep_timestamp :: "Timestamp option"

record WithdrawRequest =
  wd_user_address :: string
  wd_token_address :: string
  wd_amount :: string
  wd_signature :: "u8 list"
  wd_nonce :: u64
  wd_timestamp :: "Timestamp option"

record DistributeRewardsRequest =
  dis_reward_token :: string
  dis_total_amount :: string
  dis_signature :: "u8 list"
  dis_nonce :: u64
  dis_timestamp :: "Timestamp option"

record ClaimRewardsRequest =
  clm_user_address :: string
  clm_signature :: "u8 list"
  clm_nonce :: u64
  clm_timestamp :: "Timestamp option"

record TransactionResponse =
  success :: bool
  transaction_hash :: string
  error_message :: string
  gas_used :: u64
  tx_timestamp :: "Timestamp option"
  events :: "(string, string) hash_map"

record BalanceResponse =
  bal_user_address :: string
  bal_token_address :: string
  bal_balance :: string
  bal_reward_index :: string
  bal_pending_rewards :: string

record RewardsResponse =
  rew_user_address :: string
  rew_total_rewards :: string
  rew_claimable_rewards :: string
  rew_user_reward_index :: string
  rew_global_reward_index :: string

record ContractStateResponse =
  cs_contract_address :: string
  cs_total_deposits :: string
  cs_reward_index :: string
  cs_total_users :: u64
  cs_last_updated :: "Timestamp option"
  cs_custom_state :: "(string, string) hash_map"

record NetworkStatusResponse =
  ns_is_healthy :: bool
  ns_block_height :: u64
  ns_connected_peers :: u64
  ns_network_hash_rate :: real
  ns_last_block_time :: "Timestamp option"
  ns_network_version :: string

record NodeInfoResponse =
  ni_node_id :: string
  ni_address :: string
  ni_version :: string
  ni_is_syncing :: bool
  ni_sync_progress :: u64
  ni_uptime :: "Timestamp option"
  ni_metadata :: "(string, string) hash_map"

record TransactionInfo =
  ti_transaction_hash :: string
  ti_transaction_type :: TransactionType
  ti_user_address :: string
  ti_amount :: string
  ti_token_address :: string
  ti_status :: TransactionStatus
  ti_timestamp :: "Timestamp option"
  ti_block_number :: u64
  ti_gas_used :: u64

record TransactionHistoryResponse =
  transactions :: "TransactionInfo list"
  total_count :: u64
  has_more :: bool

record ParameterUpgradeRequest =
  parameter_patch :: "NetworkParametersPatch option"
  req_activation_epoch_height :: u64
  proposer_address :: string
  proposer_signature :: "u8 list"
  upgrade_nonce :: u64
  upgrade_timestamp :: "Timestamp option"
  dao_voter_addresses :: "string list"

record ChainParametersView =
  view_chain_id :: string
  current_block_height :: u64
  view_active_parameters :: "NetworkParameters option"
  view_min_activation_delay_blocks :: u64
  view_genesis_parameters :: "NetworkParameters option"

record PendingParameterUpgrade =
  pending_transaction_id :: string
  pending_announced_at_height :: u64
  pending_activation_epoch_height :: u64
  pending_patch :: "NetworkParametersPatch option"

record TVLResponse =
  total_value_locked :: string
  tvl_token_address :: string
  tvl_timestamp :: "Timestamp option"

section \<open>Service\<close>

record NetworkServiceImpl =
  chain_parameters :: ChainParameterRegistry
  svc_p2p_manager :: P2PManager

text \<open>
  The clock: seconds and nanoseconds since the epoch, or the error of a clock before it.
\<close>

type_synonym epoch_clock = "string + u64 \<times> u32"

definition read_clock :: "epoch_clock \<Rightarrow> string + Timestamp" where
  "read_clock c =
    (case c of
       Inl e \<Rightarrow> Inl (''Timestamp error: '' @ e)
     | Inr (s, n) \<Rightarrow> Inr \<lparr>seconds = sint s, nanos = sint n\<rparr>)"

definition internal :: "string \<Rightarrow> string + 'a \<Rightarrow> 'a grpc_result" where
  "internal prefix r = (case r of Inl e \<Rightarrow> Inl (Status InternalCode (prefix @ e)) | Inr x \<Rightarrow> Inr x)"

fun show_hex :: "nat \<Rightarrow> string" where
  "show_hex n =
    (let d = n mod 16; c = char_of (if d < 10 then 48 + d else 87 + d)
     in if n < 16 then [c] else show_hex (n div 16) @ [c])"

declare show_hex.simps [simp del]

definition hex64 :: "nat \<Rightarrow> string" where
  "hex64 n = ''0x'' @ replicate (64 - length (show_hex n)) (CHR ''0'') @ show_hex n"

definition core_params_to_proto :: "NetworkParameters \<Rightarrow> NetworkParameters" where
  "core_params_to_proto p =
     \<lparr>max_block_body_bytes = max_block_body_bytes p, min_base_fee = min_base_fee p,
      max_transactions_per_block = max_transactions_per_block p\<rparr>"

definition proto_patch_to_core :: "NetworkParametersPatch \<Rightarrow> NetworkParametersPatch" where
  "proto_patch_to_core p =
     \<lparr>patch_max_block_body_bytes = patch_max_block_body_bytes p, patch_min_base_fee = patch_min_base_fee p,
      patch_max_transactions_per_block = patch_max_transactions_per_block p\<rparr>"

definition core_patch_to_proto :: "NetworkParametersPatch \<Rightarrow> NetworkParametersPatch" where
  "core_patch_to_proto p =
     \<lparr>patch_max_block_body_bytes = patch_max_block_body_bytes p, patch_min_base_fee = patch_min_base_fee p,
      patch_max_transactions_per_block = patch_max_transactions_per_block p\<rparr>"

definition pending_record_to_proto :: "ScheduledUpgradeRecord \<Rightarrow> PendingParameterUpgrade" where
  "pending_record_to_proto r =
     \<lparr>pending_transaction_id = transaction_id r, pending_announced_at_height = announced_at_height r,
      pending_activation_epoch_height = activation_epoch_height r,
      pending_patch = Some (core_patch_to_proto (upgrade_patch r))\<rparr>"

definition validate_signature :: "string \<Rightarrow> u8 list \<Rightarrow> u64 \<Rightarrow> string + bool" where
  "validate_signature user sig nonce = Inr True"

text \<open>
  The source wraps the clock's message in \<open>NetworkError::Database\<close>, whose argument is not a
  string; the text is the one that variant displays.
\<close>

definition process_transaction :: "u64 \<Rightarrow> epoch_clock \<Rightarrow> TransactionType \<Rightarrow> string + TransactionResponse" where
  "process_transaction random clock tx_type =
    (case read_clock clock of
       Inl e \<Rightarrow> Inl (''Database error: '' @ e)
     | Inr ts \<Rightarrow>
         Inr \<lparr>success = True, transaction_hash = hex64 (unat random), error_message = [], gas_used = 21000,
              tx_timestamp = Some ts, events = []\<rparr>)"

text \<open>The shape the four contract calls share: the signature check, then the transaction.\<close>

definition signed_transaction ::
  "u64 \<Rightarrow> epoch_clock \<Rightarrow> TransactionType \<Rightarrow> string \<Rightarrow> u8 list \<Rightarrow> u64 \<Rightarrow> TransactionResponse grpc_result" where
  "signed_transaction random clock tx_type user sig nonce =
     rbind (internal ''Validation error: '' (validate_signature user sig nonce)) (\<lambda>ok.
       if \<not> ok then Inl (Status InvalidArgument ''Invalid signature'')
       else internal ''Transaction processing error: '' (process_transaction random clock tx_type))"

definition grpc_deposit :: "u64 \<Rightarrow> epoch_clock \<Rightarrow> DepositRequest \<Rightarrow> TransactionResponse grpc_result" where
  "grpc_deposit random clock req =
     signed_transaction random clock TxDeposit (dep_user_address req) (dep_signature req) (dep_nonce req)"

definition grpc_withdraw :: "u64 \<Rightarrow> epoch_clock \<Rightarrow> WithdrawRequest \<Rightarrow> TransactionResponse grpc_result" where
  "grpc_withdraw random clock req =
     signed_transaction random clock TxWithdraw (wd_user_address req) (wd_signature req) (wd_nonce req)"

definition grpc_distribute_rewards ::
  "u64 \<Rightarrow> epoch_clock \<Rightarrow> DistributeRewardsRequest \<Rightarrow> TransactionResponse grpc_result" where
  "grpc_distribute_rewards random clock req =
     signed_transaction random clock TxDistribution ''system'' (dis_signature req) (dis_nonce req)"

definition grpc_claim_rewards :: "u64 \<Rightarrow> epoch_clock \<Rightarrow> ClaimRewardsRequest \<Rightarrow> TransactionResponse grpc_result" where
  "grpc_claim_rewards random clock req =
     signed_transaction random clock TxClaim (clm_user_address req) (clm_signature req) (clm_nonce req)"

definition grpc_get_balance :: "epoch_clock \<Rightarrow> string \<Rightarrow> string \<Rightarrow> BalanceResponse grpc_result" where
  "grpc_get_balance clock user token =
     rbind (internal [] (read_clock clock)) (\<lambda>_.
       Inr \<lparr>bal_user_address = user, bal_token_address = token, bal_balance = ''1000000'',
            bal_reward_index = ''1500000000000000000'', bal_pending_rewards = ''50000''\<rparr>)"

definition grpc_get_rewards :: "string \<Rightarrow> RewardsResponse grpc_result" where
  "grpc_get_rewards user =
     Inr \<lparr>rew_user_address = user, rew_total_rewards = ''100000'', rew_claimable_rewards = ''50000'',
          rew_user_reward_index = ''1500000000000000000'', rew_global_reward_index = ''1600000000000000000''\<rparr>"

definition grpc_get_contract_state :: "epoch_clock \<Rightarrow> string \<Rightarrow> ContractStateResponse grpc_result" where
  "grpc_get_contract_state clock contract =
     rbind (internal [] (read_clock clock)) (\<lambda>ts.
       Inr \<lparr>cs_contract_address = contract, cs_total_deposits = ''1000000000'',
            cs_reward_index = ''1600000000000000000'', cs_total_users = 100, cs_last_updated = Some ts,
            cs_custom_state =
              hm_insert ''owner'' ''0x1234567890123456789012345678901234567890''
                (hm_insert ''version'' ''1.0.0'' [])\<rparr>)"

definition grpc_get_network_status :: "epoch_clock \<Rightarrow> NetworkServiceImpl \<Rightarrow> NetworkStatusResponse grpc_result" where
  "grpc_get_network_status clock self =
     rbind (internal [] (read_clock clock)) (\<lambda>ts.
       Inr \<lparr>ns_is_healthy = True, ns_block_height = current_height (chain_parameters self),
            ns_connected_peers = get_connected_peers_count (svc_p2p_manager self),
            ns_network_hash_rate = 1500000000, ns_last_block_time = Some ts, ns_network_version = ''1.0.0''\<rparr>)"

definition grpc_get_node_info :: "epoch_clock \<Rightarrow> string \<Rightarrow> NodeInfoResponse grpc_result" where
  "grpc_get_node_info clock nid =
     rbind (internal [] (read_clock clock)) (\<lambda>ts.
       Inr \<lparr>ni_node_id = nid, ni_address = ''127.0.0.1:8080'', ni_version = ''1.0.0'', ni_is_syncing = False,
            ni_sync_progress = 100, ni_uptime = Some ts,
            ni_metadata =
              hm_insert ''datacenter'' ''aws-us-east-1a'' (hm_insert ''region'' ''us-east-1'' [])\<rparr>)"

definition grpc_get_transaction :: "epoch_clock \<Rightarrow> string \<Rightarrow> TransactionResponse grpc_result" where
  "grpc_get_transaction clock hash =
     rbind (internal [] (read_clock clock)) (\<lambda>ts.
       Inr \<lparr>success = True, transaction_hash = hash, error_message = [], gas_used = 21000,
            tx_timestamp = Some ts, events = hm_insert ''Transfer'' ''1000000'' []\<rparr>)"

definition grpc_get_transaction_history :: "epoch_clock \<Rightarrow> string \<Rightarrow> TransactionHistoryResponse grpc_result" where
  "grpc_get_transaction_history clock user =
     rbind (internal [] (read_clock clock)) (\<lambda>ts.
       Inr \<lparr>transactions =
              [\<lparr>ti_transaction_hash = ''0x1234567890123456789012345678901234567890123456789012345678901234'',
                ti_transaction_type = TxDeposit, ti_user_address = user, ti_amount = ''1000000'',
                ti_token_address = ''0xtokenaddress'', ti_status = TxConfirmed, ti_timestamp = Some ts,
                ti_block_number = 12345, ti_gas_used = 21000\<rparr>],
            total_count = 1, has_more = False\<rparr>)"

text \<open>The messages of the registry's errors.\<close>

fun display_RegistryError :: "RegistryError \<Rightarrow> string" where
  "display_RegistryError EmptyPatch = ''parameter patch must set at least one field''"
| "display_RegistryError (NoPermissionedRole a) = ''Address '' @ a @ '' has no permissioned roles''"
| "display_RegistryError OperatorInsufficient = ''Operator role insufficient for admin action''"
| "display_RegistryError RoleNotFound = ''Role not found for target''"
| "display_RegistryError (PermissionDenied e) = ''Permission denied: '' @ display_RegistryError e"
| "display_RegistryError DaoVotersNotEmpty = ''dao_voter_addresses must be empty for admin_keys governance''"
| "display_RegistryError ProposerRequired = ''proposer_address is required for admin_keys governance''"
| "display_RegistryError NotAnAdminKey = ''proposer is not an authorized admin key''"
| "display_RegistryError ZeroMinApprovals = ''dao min_approvals must be > 0''"
| "display_RegistryError (UnknownDaoVoter v) = ''unknown dao voter: '' @ v"
| "display_RegistryError (MissingApprovals m n) =
     ''dao consensus requires '' @ show_nat (unat m) @ '' distinct member approvals, got '' @ show_nat (unat n)"
| "display_RegistryError (ActivationTooEarly a m t d) =
     ''activation_epoch_height '' @ show_nat (unat a) @ '' must be >= '' @ show_nat (unat m) @
     '' (tip '' @ show_nat (unat t) @ '' + min_delay '' @ show_nat (unat d) @ '')''"

text \<open>
  The clock is read after the upgrade has been scheduled: a clock error is reported although
  the registry has changed, which is why the state is part of both results.
\<close>

definition grpc_parameter_upgrade ::
  "string \<Rightarrow> epoch_clock \<Rightarrow> ParameterUpgradeRequest \<Rightarrow> NetworkServiceImpl \<Rightarrow>
     TransactionResponse grpc_result \<times> NetworkServiceImpl" where
  "grpc_parameter_upgrade tx_id clock req self =
    (case parameter_patch req of
       None \<Rightarrow> (Inl (Status InvalidArgument ''parameter_patch is required''), self)
     | Some patch_msg \<Rightarrow>
         let core_patch = proto_patch_to_core patch_msg;
             checked = (if trim (proposer_address req) \<noteq> []
               then rbind (internal ''Validation error: ''
                      (validate_signature (proposer_address req) (proposer_signature req) (upgrade_nonce req)))
                 (\<lambda>ok. if \<not> ok then Inl (Status InvalidArgument ''Invalid proposer signature'') else Inr ())
               else Inr ())
         in case checked of
           Inl s \<Rightarrow> (Inl s, self)
         | Inr _ \<Rightarrow>
             (case submit_parameter_upgrade tx_id core_patch (req_activation_epoch_height req) (proposer_address req)
                     (dao_voter_addresses req) (chain_parameters self) of
                Inl e \<Rightarrow> (Inl (Status PermissionDeniedCode (display_RegistryError e)), self)
              | Inr (tx, chain) \<Rightarrow>
                  (rbind (internal [] (read_clock clock)) (\<lambda>ts.
                     Inr \<lparr>success = True, transaction_hash = tx, error_message = [], gas_used = 0,
                          tx_timestamp = Some ts,
                          events = hm_insert ''tx_type'' ''PARAMETER_UPGRADE''
                            (hm_insert ''activation_epoch_height'' (show_nat (unat (req_activation_epoch_height req))) [])\<rparr>),
                   self\<lparr>chain_parameters := chain\<rparr>)))"

definition grpc_get_chain_parameters :: "NetworkServiceImpl \<Rightarrow> ChainParametersView" where
  "grpc_get_chain_parameters self =
    (let chain = chain_parameters self in
     \<lparr>view_chain_id = chain_id chain, current_block_height = current_height chain,
      view_active_parameters = Some (core_params_to_proto (active_parameters chain)),
      view_min_activation_delay_blocks = min_activation_delay_blocks chain,
      view_genesis_parameters = Some (core_params_to_proto (genesis_parameters chain))\<rparr>)"

definition grpc_list_pending :: "NetworkServiceImpl \<Rightarrow> PendingParameterUpgrade list" where
  "grpc_list_pending self = map pending_record_to_proto (pending_upgrades (chain_parameters self))"

definition grpc_get_tvl :: "epoch_clock \<Rightarrow> string \<Rightarrow> TVLResponse grpc_result" where
  "grpc_get_tvl clock token =
     rbind (internal [] (read_clock clock)) (\<lambda>ts.
       Inr \<lparr>total_value_locked = ''5000000000'', tvl_token_address = token, tvl_timestamp = Some ts\<rparr>)"

section \<open>Conversions\<close>

lemma conversions_id [simp]:
  "core_params_to_proto p = p" "proto_patch_to_core q = q" "core_patch_to_proto q = q"
  by (simp_all add: core_params_to_proto_def proto_patch_to_core_def core_patch_to_proto_def)

section \<open>Upgrades through the service\<close>

lemmas upgrade_defs = grpc_parameter_upgrade_def validate_signature_def internal_def Let_def

lemma grpc_upgrade_change:
  assumes "grpc_parameter_upgrade tx clock req self = (r, self')" "chain_parameters self' \<noteq> chain_parameters self"
  shows "\<exists>p tx'. parameter_patch req = Some p \<and>
     submit_parameter_upgrade tx p (req_activation_epoch_height req) (proposer_address req)
       (dao_voter_addresses req) (chain_parameters self) = Inr (tx', chain_parameters self')"
  using assms by (auto simp: upgrade_defs split: option.splits sum.splits if_splits prod.splits)

lemma grpc_upgrade_signature_ignored:
  "grpc_parameter_upgrade tx clock (req\<lparr>proposer_signature := s, upgrade_nonce := n\<rparr>) self =
     grpc_parameter_upgrade tx clock req self"
  by (cases "parameter_patch req") (auto simp: upgrade_defs split: sum.splits)

end
