(* ===== verification/Gateway_Service.thy ===== *)
theory Gateway_Service
  imports Network_Service
begin

text \<open>
  Model of \<open>network-node/src/grpc/gateway_service.rs\<close>: the gateway forwards each call to the
  network service and adds its own fields to the answer, which is why its messages extend those
  of the network service. The source assigns these fields to the network service's own types,
  which lack them; the model gives the answer the type that \<open>proto/gateway.proto\<close> declares.
  Logging and timing are left out: a request identifier not given and the milliseconds spent are
  arguments. A panic is the value \<open>None\<close>.

  The second part puts the administrative interceptor in front of both services, as
  \<open>GrpcServer::start\<close> does.
\<close>

section \<open>Messages\<close>

record GwDepositRequest = DepositRequest +
  dep_request_id :: string
  dep_callback_url :: string

record GwWithdrawRequest = WithdrawRequest +
  wd_request_id :: string
  wd_callback_url :: string

record GwDistributeRewardsRequest = DistributeRewardsRequest +
  dis_request_id :: string
  dis_callback_url :: string

record GwClaimRewardsRequest = ClaimRewardsRequest +
  clm_request_id :: string
  clm_callback_url :: string

record GwTransactionResponse = TransactionResponse +
  request_id :: string
  processing_time_ms :: u64
  status_url :: string

record GwBalanceResponse = BalanceResponse +
  bal_last_updated :: "Timestamp option"
  bal_currency :: string

record GwRewardsResponse = RewardsResponse +
  rew_last_claimed :: "Timestamp option"
  rew_reward_token :: string

record GwContractStateResponse = ContractStateResponse +
  cs_contract_version :: string
  cs_supported_tokens :: "string list"

record GwNetworkStatusResponse = NetworkStatusResponse +
  ns_pending_transactions :: u64
  ns_average_block_time :: real
  ns_supported_networks :: "string list"

record GwNodeInfoResponse = NodeInfoResponse +
  ni_region :: string
  ni_datacenter :: string
  ni_capabilities :: "string list"

record PaginationInfo =
  current_page :: u64
  total_pages :: u64
  page_size :: u64
  has_next :: bool
  has_previous :: bool

record GwTransactionInfo = TransactionInfo +
  confirmation_count :: u64
  fee_paid :: string
  ti_metadata :: "(string, string) hash_map"

record GwTransactionHistoryResponse =
  gw_transactions :: "GwTransactionInfo list"
  gw_total_count :: u64
  gw_has_more :: bool
  pagination :: "PaginationInfo option"

record ServiceHealth =
  service_name :: string
  sh_status :: string
  sh_message :: string
  last_check :: "Timestamp option"
  sh_metrics :: "(string, string) hash_map"

record GwHealthCheckResponse =
  hc_status :: string
  hc_message :: string
  hc_timestamp :: "Timestamp option"
  hc_details :: "(string, string) hash_map"
  hc_services :: "ServiceHealth list"
  uptime_percentage :: real

record GwParameterUpgradeRequest = ParameterUpgradeRequest +
  upgrade_request_id :: string
  upgrade_callback_url :: string

section \<open>Contract calls\<close>

definition generate_request_id :: "u64 \<Rightarrow> string" where
  "generate_request_id random = ''req_'' @ show_nat (unat random)"

definition request_id_or :: "u64 \<Rightarrow> string \<Rightarrow> string" where
  "request_id_or random given = (if given = [] then generate_request_id random else given)"

definition gateway_fields :: "string \<Rightarrow> u64 \<Rightarrow> TransactionResponse \<Rightarrow> GwTransactionResponse" where
  "gateway_fields rid elapsed nr =
     TransactionResponse.extend nr
       (GwTransactionResponse.fields rid elapsed (''/v1/transaction/'' @ transaction_hash nr @ ''/status''))"

definition gw_deposit ::
  "u64 \<Rightarrow> u64 \<Rightarrow> u64 \<Rightarrow> epoch_clock \<Rightarrow> epoch_clock \<Rightarrow> GwDepositRequest \<Rightarrow> GwTransactionResponse grpc_result" where
  "gw_deposit rid random elapsed clock clock' req =
     rbind (grpc_deposit random clock (DepositRequest.truncate req)) (\<lambda>nr.
     rbind (internal [] (read_clock clock')) (\<lambda>_.
       Inr (gateway_fields (request_id_or rid (dep_request_id req)) elapsed nr)))"

definition gw_withdraw ::
  "u64 \<Rightarrow> u64 \<Rightarrow> u64 \<Rightarrow> epoch_clock \<Rightarrow> GwWithdrawRequest \<Rightarrow> GwTransactionResponse grpc_result" where
  "gw_withdraw rid random elapsed clock req =
     rbind (grpc_withdraw random clock (WithdrawRequest.truncate req)) (\<lambda>nr.
       Inr (gateway_fields (request_id_or rid (wd_request_id req)) elapsed nr))"

definition gw_distribute_rewards ::
  "u64 \<Rightarrow> u64 \<Rightarrow> u64 \<Rightarrow> epoch_clock \<Rightarrow> GwDistributeRewardsRequest \<Rightarrow> GwTransactionResponse grpc_result" where
  "gw_distribute_rewards rid random elapsed clock req =
     rbind (grpc_distribute_rewards random clock (DistributeRewardsRequest.truncate req)) (\<lambda>nr.
       Inr (gateway_fields (request_id_or rid (dis_request_id req)) elapsed nr))"

definition gw_claim_rewards ::
  "u64 \<Rightarrow> u64 \<Rightarrow> u64 \<Rightarrow> epoch_clock \<Rightarrow> GwClaimRewardsRequest \<Rightarrow> GwTransactionResponse grpc_result" where
  "gw_claim_rewards rid random elapsed clock req =
     rbind (grpc_claim_rewards random clock (ClaimRewardsRequest.truncate req)) (\<lambda>nr.
       Inr (gateway_fields (request_id_or rid (clm_request_id req)) elapsed nr))"

section \<open>Views\<close>

definition gw_get_balance ::
  "epoch_clock \<Rightarrow> epoch_clock \<Rightarrow> string \<Rightarrow> string \<Rightarrow> GwBalanceResponse grpc_result" where
  "gw_get_balance clock clock' user token =
     rbind (grpc_get_balance clock user token) (\<lambda>r.
     rbind (internal [] (read_clock clock')) (\<lambda>ts.
       Inr (BalanceResponse.extend r (GwBalanceResponse.fields (Some ts) ''USD''))))"

text \<open>The clock is unwrapped here: a clock before the epoch panics.\<close>

definition gw_get_rewards :: "epoch_clock \<Rightarrow> string \<Rightarrow> GwRewardsResponse grpc_result option" where
  "gw_get_rewards clock user =
    (case grpc_get_rewards user of
       Inl s \<Rightarrow> Some (Inl s)
     | Inr r \<Rightarrow>
         (case clock of
            Inl _ \<Rightarrow> None
          | Inr (s, _) \<Rightarrow>
              Some (Inr (RewardsResponse.extend r
                (GwRewardsResponse.fields (Some \<lparr>seconds = sint (s - 86400), nanos = 0\<rparr>) ''0xrewardtoken'')))))"

definition gw_get_contract_state :: "epoch_clock \<Rightarrow> string \<Rightarrow> GwContractStateResponse grpc_result" where
  "gw_get_contract_state clock contract =
     rbind (grpc_get_contract_state clock contract) (\<lambda>r.
       Inr (ContractStateResponse.extend r
         (GwContractStateResponse.fields ''1.0.0'' [''0xtoken1'', ''0xtoken2'', ''0xrewardtoken''])))"

definition gw_get_network_status :: "epoch_clock \<Rightarrow> NetworkServiceImpl \<Rightarrow> GwNetworkStatusResponse grpc_result" where
  "gw_get_network_status clock self =
     rbind (grpc_get_network_status clock self) (\<lambda>r.
       Inr (NetworkStatusResponse.extend r
         (GwNetworkStatusResponse.fields 25 (25 / 2) [''mainnet'', ''testnet'', ''futurenet''])))"

definition gw_get_node_info :: "epoch_clock \<Rightarrow> string \<Rightarrow> GwNodeInfoResponse grpc_result" where
  "gw_get_node_info clock nid =
     rbind (grpc_get_node_info clock nid) (\<lambda>r.
       Inr (NodeInfoResponse.extend r
         (GwNodeInfoResponse.fields ''us-east-1'' ''aws-us-east-1a'' [''grpc'', ''http'', ''websocket'', ''p2p''])))"

definition gw_get_transaction :: "u64 \<Rightarrow> epoch_clock \<Rightarrow> string \<Rightarrow> GwTransactionResponse grpc_result" where
  "gw_get_transaction rid clock hash =
     rbind (grpc_get_transaction clock hash) (\<lambda>nr. Inr (gateway_fields (generate_request_id rid) 50 nr))"

text \<open>
  The page arithmetic of the history: a limit of zero divides by zero, which panics; the sum
  before the second division wraps.
\<close>

definition paginate :: "u64 option \<Rightarrow> u64 option \<Rightarrow> u64 \<Rightarrow> bool \<Rightarrow> PaginationInfo option" where
  "paginate limit offset n further =
    (let size = unwrap_or 10 limit in
     if size = 0 then None
     else let page = unwrap_or 0 offset div size + 1 in
       Some \<lparr>current_page = page, total_pages = (n + size - 1) div size, page_size = size,
             has_next = further, has_previous = 1 < page\<rparr>)"

definition gw_get_transaction_history ::
  "epoch_clock \<Rightarrow> string \<Rightarrow> u64 option \<Rightarrow> u64 option \<Rightarrow> GwTransactionHistoryResponse grpc_result option" where
  "gw_get_transaction_history clock user limit offset =
    (case grpc_get_transaction_history clock user of
       Inl s \<Rightarrow> Some (Inl s)
     | Inr r \<Rightarrow>
         (case paginate limit offset (total_count r) (has_more r) of
            None \<Rightarrow> None
          | Some info \<Rightarrow>
              Some (Inr
                \<lparr>gw_transactions =
                   map (\<lambda>t. TransactionInfo.extend t
                     (GwTransactionInfo.fields 12 ''21000'' (hm_insert ''gateway_processed'' ''true'' []))) (transactions r),
                 gw_total_count = total_count r, gw_has_more = has_more r, pagination = Some info\<rparr>)))"

section \<open>Chain parameters\<close>

definition gw_params_from_network :: "NetworkParameters option \<Rightarrow> NetworkParameters option" where
  "gw_params_from_network = map_option core_params_to_proto"

definition gw_patch_from_network :: "NetworkParametersPatch option \<Rightarrow> NetworkParametersPatch option" where
  "gw_patch_from_network = map_option core_patch_to_proto"

definition gw_parameter_upgrade ::
  "u64 \<Rightarrow> u64 \<Rightarrow> string \<Rightarrow> epoch_clock \<Rightarrow> GwParameterUpgradeRequest \<Rightarrow> NetworkServiceImpl \<Rightarrow>
     GwTransactionResponse grpc_result \<times> NetworkServiceImpl" where
  "gw_parameter_upgrade rid elapsed tx_id clock req self =
    (let network_req = ParameterUpgradeRequest.truncate
           (req\<lparr>parameter_patch := map_option proto_patch_to_core (parameter_patch req)\<rparr>);
         (r, self') = grpc_parameter_upgrade tx_id clock network_req self
     in (rbind r (\<lambda>nr. Inr (gateway_fields (request_id_or rid (upgrade_request_id req)) elapsed nr)), self'))"

definition gw_get_chain_parameters :: "NetworkServiceImpl \<Rightarrow> ChainParametersView" where
  "gw_get_chain_parameters self =
    (let nv = grpc_get_chain_parameters self in
     nv\<lparr>view_active_parameters := gw_params_from_network (view_active_parameters nv),
        view_genesis_parameters := gw_params_from_network (view_genesis_parameters nv)\<rparr>)"

definition gw_list_pending :: "NetworkServiceImpl \<Rightarrow> PendingParameterUpgrade list" where
  "gw_list_pending self =
     map (\<lambda>p. p\<lparr>pending_patch := gw_patch_from_network (pending_patch p)\<rparr>) (grpc_list_pending self)"

definition gw_get_tvl :: "epoch_clock \<Rightarrow> string \<Rightarrow> TVLResponse grpc_result" where
  "gw_get_tvl clock token = grpc_get_tvl clock token"

definition check_health :: "epoch_clock \<Rightarrow> GwHealthCheckResponse grpc_result" where
  "check_health clock =
     rbind (internal [] (read_clock clock)) (\<lambda>ts.
       Inr \<lparr>hc_status = ''SERVING'', hc_message = ''All systems operational'', hc_timestamp = Some ts,
            hc_details = hm_insert ''uptime'' ''2d 14h 32m'' (hm_insert ''version'' ''1.0.0'' []),
            hc_services =
              [\<lparr>service_name = ''database'', sh_status = ''healthy'', sh_message = ''Connection pool active'',
                last_check = Some ts,
                sh_metrics = hm_insert ''idle_connections'' ''15'' (hm_insert ''active_connections'' ''5'' [])\<rparr>,
               \<lparr>service_name = ''grpc'', sh_status = ''healthy'', sh_message = ''gRPC server running'',
                last_check = Some ts,
                sh_metrics = hm_insert ''total_requests'' ''1250'' (hm_insert ''active_requests'' ''3'' [])\<rparr>],
            uptime_percentage = 1999 / 20\<rparr>)"

section \<open>Pages\<close>

lemma paginate_None_iff: "paginate limit offset n further = None \<longleftrightarrow> limit = Some 0"
  by (cases limit) (auto simp: paginate_def Let_def)

section \<open>Upgrades behind the interceptor\<close>

text \<open>
  A remote request for an upgrade: the service it is sent to, its metadata, and what the node
  draws or reads while serving it.
\<close>

datatype upgrade_message = ToNetwork ParameterUpgradeRequest | ToGateway GwParameterUpgradeRequest

fun upgrade_path :: "upgrade_message \<Rightarrow> string" where
  "upgrade_path (ToNetwork _) = ''/axionvera.network.NetworkService/ParameterUpgrade''"
| "upgrade_path (ToGateway _) = ''/axionvera.gateway.GatewayService/ParameterUpgrade''"

fun upgrade_body :: "upgrade_message \<Rightarrow> ParameterUpgradeRequest" where
  "upgrade_body (ToNetwork req) = req"
| "upgrade_body (ToGateway req) = ParameterUpgradeRequest.truncate req"

record remote_upgrade =
  call_message :: upgrade_message
  call_metadata :: metadata
  call_tx_id :: string
  call_clock :: epoch_clock

definition serve_upgrade ::
  "(string \<Rightarrow> string) \<Rightarrow> AdminAuthInterceptor \<Rightarrow> remote_upgrade \<Rightarrow> NetworkServiceImpl \<Rightarrow>
     unit grpc_result \<times> NetworkServiceImpl" where
  "serve_upgrade sha256_hex icpt c self =
    (case intercept sha256_hex icpt (upgrade_path (call_message c)) (call_metadata c) of
       Inl s \<Rightarrow> (Inl s, self)
     | Inr _ \<Rightarrow>
         (case call_message c of
            ToNetwork req \<Rightarrow>
              apfst (\<lambda>r. rbind r (\<lambda>_. Inr ())) (grpc_parameter_upgrade (call_tx_id c) (call_clock c) req self)
          | ToGateway req \<Rightarrow>
              apfst (\<lambda>r. rbind r (\<lambda>_. Inr ())) (gw_parameter_upgrade 0 0 (call_tx_id c) (call_clock c) req self)))"

definition serve_upgrades ::
  "(string \<Rightarrow> string) \<Rightarrow> AdminAuthInterceptor \<Rightarrow> remote_upgrade list \<Rightarrow> NetworkServiceImpl \<Rightarrow> NetworkServiceImpl" where
  "serve_upgrades sha256_hex icpt = fold (\<lambda>c self. snd (serve_upgrade sha256_hex icpt c self))"

lemma upgrade_path_admin [simp]: "is_admin_grpc_route (upgrade_path m)"
  by (cases m) (simp_all add: is_admin_grpc_route_def ADMIN_GRPC_PATHS_def)

text \<open>Both services run the same upgrade.\<close>

lemma snd_gw_parameter_upgrade:
  "snd (gw_parameter_upgrade rid elapsed tx clock req self) =
     snd (grpc_parameter_upgrade tx clock (ParameterUpgradeRequest.truncate req) self)"
  by (cases "parameter_patch req")
    (simp_all add: gw_parameter_upgrade_def ParameterUpgradeRequest.truncate_def Let_def case_prod_beta)

lemma snd_serve_upgrade:
  "snd (serve_upgrade h icpt c self) =
    (if intercept h icpt (upgrade_path (call_message c)) (call_metadata c) = Inr ()
     then snd (grpc_parameter_upgrade (call_tx_id c) (call_clock c) (upgrade_body (call_message c)) self)
     else self)"
  by (simp add: serve_upgrade_def snd_gw_parameter_upgrade split: sum.splits upgrade_message.splits)

definition authorised ::
  "(string \<Rightarrow> string) \<Rightarrow> AdminAuthInterceptor \<Rightarrow> ChainParameterRegistry \<Rightarrow> remote_upgrade \<Rightarrow> ScheduledUpgradeRecord \<Rightarrow> bool" where
  "authorised h icpt chain c u \<longleftrightarrow>
    (case extract_admin_token (call_metadata c) of
       None \<Rightarrow> False
     | Some t \<Rightarrow> expected_token_hash icpt = Some (h t)) \<and>
    check_role chain (proposer_address (upgrade_body (call_message c))) Operator = Inr () \<and>
    parameter_patch (upgrade_body (call_message c)) = Some (upgrade_patch u) \<and>
    req_activation_epoch_height (upgrade_body (call_message c)) = activation_epoch_height u"

lemma serve_upgrade_history:
  "\<exists>new. upgrade_history (chain_parameters (snd (serve_upgrade h icpt c self))) =
       upgrade_history (chain_parameters self) @ new \<and>
     (\<forall>u \<in> set new. authorised h icpt (chain_parameters self) c u) \<and>
     roles (chain_parameters (snd (serve_upgrade h icpt c self))) = roles (chain_parameters self)"
proof (cases "chain_parameters (snd (serve_upgrade h icpt c self)) = chain_parameters self")
  case False
  let ?req = "upgrade_body (call_message c)"
  let ?r = "grpc_parameter_upgrade (call_tx_id c) (call_clock c) ?req self"
  from False have i: "intercept h icpt (upgrade_path (call_message c)) (call_metadata c) = Inr ()"
    and s: "snd (serve_upgrade h icpt c self) = snd ?r"
    by (auto simp: snd_serve_upgrade split: if_splits)
  from i obtain t where t: "extract_admin_token (call_metadata c) = Some t" "expected_token_hash icpt = Some (h t)"
    by (auto simp: intercept_Inr_iff)
  have "\<exists>p tx'. parameter_patch ?req = Some p \<and>
     submit_parameter_upgrade (call_tx_id c) p (req_activation_epoch_height ?req) (proposer_address ?req)
       (dao_voter_addresses ?req) (chain_parameters self) = Inr (tx', chain_parameters (snd ?r))"
    by (rule grpc_upgrade_change [OF surjective_pairing]) (use False s in simp)
  then show ?thesis unfolding s by (auto simp: submit_Inr_iff authorised_def t)
qed simp

lemma authorised_roles: "roles r = roles r' \<Longrightarrow> authorised h icpt r c u = authorised h icpt r' c u"
  by (simp add: authorised_def check_role_def)

lemma serve_upgrades_history:
  "\<exists>new. upgrade_history (chain_parameters (serve_upgrades h icpt calls self)) =
       upgrade_history (chain_parameters self) @ new \<and>
     (\<forall>u \<in> set new. \<exists>c \<in> set calls. authorised h icpt (chain_parameters self) c u)"
proof (induction calls arbitrary: self)
  case (Cons c calls)
  let ?self = "snd (serve_upgrade h icpt c self)"
  obtain n1 where n1: "upgrade_history (chain_parameters ?self) = upgrade_history (chain_parameters self) @ n1"
      "\<forall>u \<in> set n1. authorised h icpt (chain_parameters self) c u"
      "roles (chain_parameters ?self) = roles (chain_parameters self)"
    using serve_upgrade_history [of h icpt c self] by blast
  obtain n2 where n2: "upgrade_history (chain_parameters (serve_upgrades h icpt calls ?self)) =
        upgrade_history (chain_parameters ?self) @ n2"
      "\<forall>u \<in> set n2. \<exists>c \<in> set calls. authorised h icpt (chain_parameters ?self) c u"
    using Cons.IH [of ?self] by blast
  show ?case
    by (rule exI [of _ "n1 @ n2"]) (use n1 n2 authorised_roles [OF n1(3)] in \<open>auto simp: serve_upgrades_def\<close>)
qed (simp add: serve_upgrades_def)

end
