(* ===== verification/Signing.thy ===== *)
theory Signing
  imports Node_Config
begin

text \<open>
  Model of \<open>network-node/src/signing.rs\<close>: signers behind a common interface, a cache of
  their public keys with a time to live, and the service that keeps signers by key id.
  A signer is a record of operations on the outside world, from which the clock is read as
  well; Ed25519 and the KMS signer are parameters. Instants are in nanoseconds. The locks are
  held within one call each, so an operation is a function on the state behind them. A time to
  live beyond the range of chrono's durations, which panics, is left out.
\<close>

section \<open>Signers\<close>

record ('k, 'w) Signer_if =
  sg_get_public_key :: "'w \<Rightarrow> 'k node_result \<times> 'w"
  sg_sign :: "u8 list \<Rightarrow> 'w \<Rightarrow> u8 list node_result \<times> 'w"
  sg_get_key_id :: "'w \<Rightarrow> string node_result \<times> 'w"
  sg_health_check :: "'w \<Rightarrow> bool node_result \<times> 'w"

record ('p, 'k, 'w) ed25519_if =
  kp_generate :: "'w \<Rightarrow> 'p \<times> 'w"
  kp_public :: "'p \<Rightarrow> 'k"
  kp_sign :: "'p \<Rightarrow> u8 list \<Rightarrow> u8 list"

record 'p LocalSigner =
  key_pair :: 'p
  local_key_id :: string

definition new_LocalSigner :: "('p, 'k, 'w) ed25519_if \<Rightarrow> string \<Rightarrow> 'w \<Rightarrow> 'p LocalSigner \<times> 'w" where
  "new_LocalSigner ed path w =
    (let (kp, w') = kp_generate ed w in (\<lparr>key_pair = kp, local_key_id = ''local:'' @ path\<rparr>, w'))"

definition local_signer :: "('p, 'k, 'w) ed25519_if \<Rightarrow> 'p LocalSigner \<Rightarrow> ('k, 'w) Signer_if" where
  "local_signer ed s =
     \<lparr>sg_get_public_key = Pair (Inr (kp_public ed (key_pair s))),
      sg_sign = (\<lambda>message. Pair (Inr (kp_sign ed (key_pair s) message))),
      sg_get_key_id = Pair (Inr (local_key_id s)),
      sg_health_check = Pair (Inr True)\<rparr>"

record HsmSigner =
  hsm_slot_id :: u32
  hsm_key_id :: string

definition new_HsmSigner :: "u32 \<Rightarrow> string \<Rightarrow> HsmSigner" where
  "new_HsmSigner slot code = \<lparr>hsm_slot_id = slot, hsm_key_id = ''hsm:'' @ show_nat (unat slot)\<rparr>"

definition hsm_signer :: "HsmSigner \<Rightarrow> ('k, 'w) Signer_if" where
  "hsm_signer s =
     \<lparr>sg_get_public_key = Pair (Inl (NotImplemented ''HSM public key retrieval not implemented'')),
      sg_sign = (\<lambda>message. Pair (Inl (NotImplemented ''HSM signing not implemented''))),
      sg_get_key_id = Pair (Inr (hsm_key_id s)),
      sg_health_check = Pair (Inr False)\<rparr>"

type_synonym ('k, 'w) kms_new = "string \<Rightarrow> string \<Rightarrow> string option \<Rightarrow> 'w \<Rightarrow> ('k, 'w) Signer_if node_result \<times> 'w"

fun create_signer ::
  "('p, 'k, 'w) ed25519_if \<Rightarrow> ('k, 'w) kms_new \<Rightarrow> SignerConfig \<Rightarrow> 'w \<Rightarrow> ('k, 'w) Signer_if node_result \<times> 'w" where
  "create_signer ed kms_new (LocalSigner path) w =
     (let (s, w') = new_LocalSigner ed path w in (Inr (local_signer ed s), w'))"
| "create_signer ed kms_new (AwsKms kid reg prof) w = kms_new kid reg prof w"
| "create_signer ed kms_new (Hsm slot code) w = (Inr (hsm_signer (new_HsmSigner slot code)), w)"

section \<open>Public key cache\<close>

record 'k CacheEntry =
  public_key :: 'k
  cached_at :: int
  entry_ttl :: int

definition new_CacheEntry :: "int \<Rightarrow> 'k \<Rightarrow> int \<Rightarrow> 'k CacheEntry" where
  "new_CacheEntry now k ttl_seconds = \<lparr>public_key = k, cached_at = now, entry_ttl = ttl_seconds * 1000000000\<rparr>"

definition entry_expired :: "int \<Rightarrow> 'k CacheEntry \<Rightarrow> bool" where
  "entry_expired now self \<longleftrightarrow> cached_at self + entry_ttl self < now"

record 'k PublicKeyCache =
  key_cache :: "(string, 'k CacheEntry) hash_map"
  default_ttl_seconds :: int

definition new_cache :: "int \<Rightarrow> 'k PublicKeyCache" where
  "new_cache ttl_seconds = \<lparr>key_cache = [], default_ttl_seconds = ttl_seconds\<rparr>"

definition fetch_fresh ::
  "('w \<Rightarrow> int) \<Rightarrow> string \<Rightarrow> ('w \<Rightarrow> 'k node_result \<times> 'w) \<Rightarrow> 'k PublicKeyCache \<Rightarrow> 'w \<Rightarrow>
     'k node_result \<times> 'k PublicKeyCache \<times> 'w" where
  "fetch_fresh clock kid fetch self w =
    (case fetch w of
       (Inl e, w') \<Rightarrow> (Inl e, self, w')
     | (Inr k, w') \<Rightarrow>
         (Inr k, self\<lparr>key_cache := hm_insert kid (new_CacheEntry (clock w') k (default_ttl_seconds self)) (key_cache self)\<rparr>, w'))"

definition get_or_fetch ::
  "('w \<Rightarrow> int) \<Rightarrow> string \<Rightarrow> ('w \<Rightarrow> 'k node_result \<times> 'w) \<Rightarrow> 'k PublicKeyCache \<Rightarrow> 'w \<Rightarrow>
     'k node_result \<times> 'k PublicKeyCache \<times> 'w" where
  "get_or_fetch clock kid fetch self w =
    (case hm_get (key_cache self) kid of
       Some entry \<Rightarrow>
         if \<not> entry_expired (clock w) entry then (Inr (public_key entry), self, w)
         else fetch_fresh clock kid fetch self w
     | None \<Rightarrow> fetch_fresh clock kid fetch self w)"

definition invalidate :: "string \<Rightarrow> 'k PublicKeyCache \<Rightarrow> 'k PublicKeyCache" where
  "invalidate kid self = self\<lparr>key_cache := hm_remove kid (key_cache self)\<rparr>"

definition clear_cache :: "'k PublicKeyCache \<Rightarrow> 'k PublicKeyCache" where
  "clear_cache self = self\<lparr>key_cache := []\<rparr>"

record CacheStats =
  total_entries :: nat
  expired_entries :: nat
  valid_entries :: nat

definition cache_stats :: "int \<Rightarrow> 'k PublicKeyCache \<Rightarrow> CacheStats" where
  "cache_stats now self =
    (let total_entries = length (key_cache self);
         expired_entries = length (filter (entry_expired now) (map snd (key_cache self)))
     in \<lparr>total_entries = total_entries, expired_entries = expired_entries,
         valid_entries = total_entries - expired_entries\<rparr>)"

section \<open>Service\<close>

record ('k, 'w) SigningService =
  signers :: "(string, ('k, 'w) Signer_if) hash_map"
  public_key_cache :: "'k PublicKeyCache"
  default_signer_key :: "string option"

definition new_service :: "int \<Rightarrow> ('k, 'w) SigningService" where
  "new_service ttl_seconds =
     \<lparr>signers = [], public_key_cache = new_cache ttl_seconds, default_signer_key = None\<rparr>"

definition add_signer ::
  "string \<Rightarrow> ('k, 'w) Signer_if \<Rightarrow> ('k, 'w) SigningService \<Rightarrow> 'w \<Rightarrow> unit node_result \<times> ('k, 'w) SigningService \<times> 'w" where
  "add_signer kid signer self w =
    (case sg_health_check signer w of
       (Inl e, w') \<Rightarrow> (Inl e, self, w')
     | (Inr healthy, w') \<Rightarrow>
         if \<not> healthy then (Inl (Signer (''Signer health check failed for key_id: '' @ kid)), self, w')
         else
           let self = self\<lparr>signers := hm_insert kid signer (signers self)\<rparr>;
               self = (if default_signer_key self = None then self\<lparr>default_signer_key := Some kid\<rparr> else self)
           in (Inr (), self, w'))"

definition get_signer :: "string \<Rightarrow> ('k, 'w) SigningService \<Rightarrow> ('k, 'w) Signer_if node_result" where
  "get_signer kid self = rok_or (Signer (''Signer not found for key_id: '' @ kid)) (hm_get (signers self) kid)"

definition get_default_signer :: "('k, 'w) SigningService \<Rightarrow> ('k, 'w) Signer_if node_result" where
  "get_default_signer self =
     rbind (rok_or (Signer ''No default signer configured'') (default_signer_key self)) (\<lambda>kid. get_signer kid self)"

definition set_default_signer :: "string \<Rightarrow> ('k, 'w) SigningService \<Rightarrow> unit node_result \<times> ('k, 'w) SigningService" where
  "set_default_signer kid self =
    (if hm_get (signers self) kid = None
     then (Inl (Signer (''Signer not found for key_id: '' @ kid)), self)
     else (Inr (), self\<lparr>default_signer_key := Some kid\<rparr>))"

definition service_sign :: "u8 list \<Rightarrow> ('k, 'w) SigningService \<Rightarrow> 'w \<Rightarrow> u8 list node_result \<times> 'w" where
  "service_sign message self w =
     (case get_default_signer self of Inl e \<Rightarrow> (Inl e, w) | Inr signer \<Rightarrow> sg_sign signer message w)"

definition sign_with :: "string \<Rightarrow> u8 list \<Rightarrow> ('k, 'w) SigningService \<Rightarrow> 'w \<Rightarrow> u8 list node_result \<times> 'w" where
  "sign_with kid message self w =
     (case get_signer kid self of Inl e \<Rightarrow> (Inl e, w) | Inr signer \<Rightarrow> sg_sign signer message w)"

definition get_public_key ::
  "('w \<Rightarrow> int) \<Rightarrow> string \<Rightarrow> ('k, 'w) SigningService \<Rightarrow> 'w \<Rightarrow> 'k node_result \<times> ('k, 'w) SigningService \<times> 'w" where
  "get_public_key clock kid self w =
    (case get_signer kid self of
       Inl e \<Rightarrow> (Inl e, self, w)
     | Inr signer \<Rightarrow>
         let (r, pc, w') = get_or_fetch clock kid (sg_get_public_key signer) (public_key_cache self) w
         in (r, self\<lparr>public_key_cache := pc\<rparr>, w'))"

definition get_default_public_key ::
  "('w \<Rightarrow> int) \<Rightarrow> ('k, 'w) SigningService \<Rightarrow> 'w \<Rightarrow> 'k node_result \<times> ('k, 'w) SigningService \<times> 'w" where
  "get_default_public_key clock self w =
    (case default_signer_key self of
       None \<Rightarrow> (Inl (Signer ''No default signer configured''), self, w)
     | Some kid \<Rightarrow> get_public_key clock kid self w)"

definition invalidate_cache :: "string \<Rightarrow> ('k, 'w) SigningService \<Rightarrow> ('k, 'w) SigningService" where
  "invalidate_cache kid self = self\<lparr>public_key_cache := invalidate kid (public_key_cache self)\<rparr>"

definition get_cache_stats :: "int \<Rightarrow> ('k, 'w) SigningService \<Rightarrow> CacheStats" where
  "get_cache_stats now self = cache_stats now (public_key_cache self)"

definition list_signers :: "('k, 'w) SigningService \<Rightarrow> string list" where
  "list_signers self = map fst (signers self)"

text \<open>The loop of \<open>health_check_all\<close>: an error counts as unhealthy.\<close>

fun health_results ::
  "(string \<times> ('k, 'w) Signer_if) list \<Rightarrow> (string, bool) hash_map \<Rightarrow> 'w \<Rightarrow> (string, bool) hash_map \<times> 'w" where
  "health_results [] results w = (results, w)"
| "health_results ((kid, signer) # ss) results w =
    (case sg_health_check signer w of
       (Inr healthy, w') \<Rightarrow> health_results ss (hm_insert kid healthy results) w'
     | (Inl e, w') \<Rightarrow> health_results ss (hm_insert kid False results) w')"

definition signers_health :: "('k, 'w) SigningService \<Rightarrow> 'w \<Rightarrow> (string, bool) hash_map \<times> 'w" where
  "signers_health self w = health_results (signers self) [] w"

section \<open>Freshness of cached keys\<close>

datatype ('k, 'w) cache_event =
  Fetched string "'w \<Rightarrow> 'k node_result \<times> 'w" 'w
| Invalidated string
| Cleared

fun cache_run :: "('w \<Rightarrow> int) \<Rightarrow> ('k, 'w) cache_event list \<Rightarrow> 'k PublicKeyCache \<Rightarrow> 'k PublicKeyCache" where
  "cache_run clock [] pc = pc"
| "cache_run clock (Fetched kid f w # es) pc = cache_run clock es (fst (snd (get_or_fetch clock kid f pc w)))"
| "cache_run clock (Invalidated kid # es) pc = cache_run clock es (invalidate kid pc)"
| "cache_run clock (Cleared # es) pc = cache_run clock es (clear_cache pc)"

text \<open>Every entry stems from an answer to a fetch of its key, stamped with the time of the answer.\<close>

definition stems_from :: "('w \<Rightarrow> int) \<Rightarrow> ('k, 'w) cache_event set \<Rightarrow> string \<Rightarrow> 'k CacheEntry \<Rightarrow> int \<Rightarrow> bool" where
  "stems_from clock E kid e ttl \<longleftrightarrow>
     (\<exists>f w w'. Fetched kid f w \<in> E \<and> f w = (Inr (public_key e), w') \<and> cached_at e = clock w') \<and>
     entry_ttl e = ttl * 1000000000"

definition cache_ok :: "('w \<Rightarrow> int) \<Rightarrow> ('k, 'w) cache_event set \<Rightarrow> int \<Rightarrow> 'k PublicKeyCache \<Rightarrow> bool" where
  "cache_ok clock E ttl pc \<longleftrightarrow> hm_ok (key_cache pc) \<and> default_ttl_seconds pc = ttl \<and>
     (\<forall>kid e. hm_get (key_cache pc) kid = Some e \<longrightarrow> stems_from clock E kid e ttl)"

lemma cache_ok_mono: "cache_ok clock E ttl pc \<Longrightarrow> E \<subseteq> E' \<Longrightarrow> cache_ok clock E' ttl pc"
  unfolding cache_ok_def stems_from_def by blast

lemma cache_ok_get:
  assumes ok: "cache_ok clock E ttl pc" and run: "get_or_fetch clock kid f pc w = (r, pc', w')"
  shows "cache_ok clock (insert (Fetched kid f w) E) ttl pc'"
proof -
  let ?E = "insert (Fetched kid f w) E"
  have ok': "cache_ok clock ?E ttl pc" by (rule cache_ok_mono [OF ok]) auto
  have "pc' = pc \<or> (\<exists>k. f w = (Inr k, w') \<and>
      pc' = pc\<lparr>key_cache := hm_insert kid (new_CacheEntry (clock w') k ttl) (key_cache pc)\<rparr>)"
    using run ok by (auto simp: get_or_fetch_def fetch_fresh_def cache_ok_def split: option.splits if_splits sum.splits prod.splits)
  then show ?thesis
  proof
    assume "\<exists>k. f w = (Inr k, w') \<and>
      pc' = pc\<lparr>key_cache := hm_insert kid (new_CacheEntry (clock w') k ttl) (key_cache pc)\<rparr>"
    then obtain k where k: "f w = (Inr k, w')"
      and pc': "pc' = pc\<lparr>key_cache := hm_insert kid (new_CacheEntry (clock w') k ttl) (key_cache pc)\<rparr>" by blast
    have "stems_from clock ?E kid (new_CacheEntry (clock w') k ttl) ttl"
      using k by (auto simp: stems_from_def new_CacheEntry_def)
    with ok' pc' show ?thesis by (auto simp: cache_ok_def)
  qed (use ok' in simp)
qed

lemma cache_ok_run: "cache_ok clock E ttl pc \<Longrightarrow> cache_ok clock (E \<union> set es) ttl (cache_run clock es pc)"
proof (induction clock es pc arbitrary: E rule: cache_run.induct)
  case (2 clock kid f w es pc)
  obtain r pc' w' where run: "get_or_fetch clock kid f pc w = (r, pc', w')" by (cases "get_or_fetch clock kid f pc w") auto
  with 2 cache_ok_get [OF 2(2) run] show ?case by fastforce
next
  case (3 clock kid es pc)
  then have "cache_ok clock E ttl (invalidate kid pc)" by (auto simp: cache_ok_def invalidate_def)
  then show ?case unfolding cache_run.simps by (intro cache_ok_mono [OF 3(1)]) auto
next
  case (4 clock es pc)
  then have "cache_ok clock E ttl (clear_cache pc)" by (auto simp: cache_ok_def clear_cache_def)
  then show ?case unfolding cache_run.simps by (intro cache_ok_mono [OF 4(1)]) auto
qed simp

lemma new_cache_ok: "cache_ok clock {} ttl (new_cache ttl)"
  by (simp add: cache_ok_def new_cache_def)

section \<open>Default signer\<close>

text \<open>Signers are never removed, so the default signer always exists once it is set.\<close>

definition service_ok :: "('k, 'w) SigningService \<Rightarrow> bool" where
  "service_ok s \<longleftrightarrow> hm_ok (signers s) \<and>
     (case default_signer_key s of None \<Rightarrow> signers s = [] | Some kid \<Rightarrow> hm_get (signers s) kid \<noteq> None)"

lemma service_ok_new: "service_ok (new_service ttl)"
  by (simp add: service_ok_def new_service_def)

lemma service_ok_add: "service_ok s \<Longrightarrow> add_signer kid sg s w = (r, s', w') \<Longrightarrow> service_ok s'"
  by (auto simp: add_signer_def service_ok_def Let_def split: sum.splits prod.splits if_splits option.splits)

lemma service_ok_default: "service_ok s \<Longrightarrow> set_default_signer kid s = (r, s') \<Longrightarrow> service_ok s'"
  by (auto simp: set_default_signer_def service_ok_def split: if_splits option.splits)

lemma default_signer_found:
  "service_ok s \<Longrightarrow> signers s \<noteq> [] \<Longrightarrow> \<exists>signer. get_default_signer s = Inr signer"
  by (auto simp: service_ok_def get_default_signer_def get_signer_def split: option.splits)

lemma hsm_never_added:
  "create_signer ed kms (Hsm slot code) w = (Inr sg, w') \<Longrightarrow>
     add_signer kid sg s w' = (Inl (Signer (''Signer health check failed for key_id: '' @ kid)), s, w')"
  by (auto simp: add_signer_def hsm_signer_def)

end
