(* ===== verification/Service_Properties.thy ===== *)
theory Service_Properties
  imports Chain_Properties Gateway_Service Signing
begin

text \<open>
  What the remote interface guarantees of the parameter registry, and how old a public key
  handed out by the signing service can be.
\<close>

section \<open>Remote upgrades\<close>

text \<open>
  C39. Whatever upgrade requests arrive at the network and the gateway service, in whatever
  order, the history of the registry is only extended, and every record that was added comes
  from a request that carried a token with the configured hash and named a proposer holding a
  role; it schedules the patch and the height of that request. In particular, while no hash is
  configured nothing is added. The signature of the proposer is not among the conditions.
\<close>

theorem remote_upgrades_authenticated:
  "\<exists>new. upgrade_history (chain_parameters (serve_upgrades sha icpt calls self)) =
       upgrade_history (chain_parameters self) @ new \<and>
     (\<forall>u \<in> set new. \<exists>c \<in> set calls. authorised sha icpt (chain_parameters self) c u) \<and>
     (expected_token_hash icpt = None \<longrightarrow> new = [])"
proof -
  obtain new where new: "upgrade_history (chain_parameters (serve_upgrades sha icpt calls self)) =
        upgrade_history (chain_parameters self) @ new"
      "\<forall>u \<in> set new. \<exists>c \<in> set calls. authorised sha icpt (chain_parameters self) c u"
    using serve_upgrades_history [of sha icpt calls self] by blast
  moreover have "new = []" if "expected_token_hash icpt = None"
    using new(2) that by (cases new) (auto simp: authorised_def split: option.splits)
  ultimately show ?thesis by (intro exI [of _ new] conjI impI)
qed

definition demo_request :: ParameterUpgradeRequest where
  "demo_request = \<lparr>parameter_patch = Some demo_patch, req_activation_epoch_height = 20, proposer_address = ''a'',
     proposer_signature = [], upgrade_nonce = 0, upgrade_timestamp = None, dao_voter_addresses = []\<rparr>"

definition demo_call :: "string \<Rightarrow> remote_upgrade" where
  "demo_call token = \<lparr>call_message = ToNetwork demo_request,
     call_metadata = (\<lambda>k. if k = ''authorization'' then Some (''Bearer '' @ token) else None),
     call_tx_id = ''t'', call_clock = Inr (1, 2)\<rparr>"

definition demo_icpt :: AdminAuthInterceptor where
  "demo_icpt = new_interceptor (Some '' SESAME '')"

definition demo_service :: NetworkServiceImpl where
  "demo_service = \<lparr>chain_parameters = from_genesis_document (demo_doc (AdminKeys [''A''])),
     svc_p2p_manager = new_manager []\<rparr>"

theorem remote_upgrades_authenticated_witness:
  "length (upgrade_history (chain_parameters
     (serve_upgrades (\<lambda>s. s) demo_icpt [demo_call ''guess'', demo_call ''sesame''] demo_service))) = 1 \<and>
   (\<exists>u. authorised (\<lambda>s. s) demo_icpt (chain_parameters demo_service) (demo_call ''sesame'') u)"
proof -
  let ?after = "serve_upgrades (\<lambda>s. s) demo_icpt [demo_call ''guess'', demo_call ''sesame''] demo_service"
  have one: "length (upgrade_history (chain_parameters ?after)) = 1"
    and none: "upgrade_history (chain_parameters demo_service) = []" by code_simp+
  obtain new where new: "upgrade_history (chain_parameters ?after) = upgrade_history (chain_parameters demo_service) @ new"
      "\<forall>u \<in> set new. \<exists>c \<in> set [demo_call ''guess'', demo_call ''sesame''].
         authorised (\<lambda>s. s) demo_icpt (chain_parameters demo_service) c u"
    using remote_upgrades_authenticated [of "\<lambda>s. s" demo_icpt "[demo_call ''guess'', demo_call ''sesame'']" demo_service]
    by (elim exE conjE)
  from new(1) one none obtain u where u: "u \<in> set new" by (cases new) simp_all
  have token: "extract_admin_token (call_metadata (demo_call ''guess'')) = Some ''guess''"
    "expected_token_hash demo_icpt = Some ''sesame''" by code_simp+
  then have "\<not> authorised (\<lambda>s. s) demo_icpt (chain_parameters demo_service) (demo_call ''guess'') u"
    by (simp add: authorised_def)
  with bspec [OF new(2) u] have "authorised (\<lambda>s. s) demo_icpt (chain_parameters demo_service) (demo_call ''sesame'') u" by simp
  then show ?thesis using one by (intro conjI exI [of _ u])
qed

section \<open>Cached keys\<close>

text \<open>
  C40. Whatever fetches, invalidations and clearings the cache has gone through, a public key it
  returns is either the answer the signer gives now, or the answer to an earlier fetch of the
  same key whose age does not exceed the time to live; in the second case nothing is called.
\<close>

theorem cached_key_fresh:
  assumes "get_or_fetch clock kid f (cache_run clock evs (new_cache ttl)) w = (Inr k, pc', w1)"
  shows "f w = (Inr k, w1) \<or>
    (\<exists>g v v'. Fetched kid g v \<in> set evs \<and> g v = (Inr k, v') \<and>
       clock w \<le> clock v' + ttl * 1000000000 \<and> w1 = w)"
proof -
  let ?pc = "cache_run clock evs (new_cache ttl)"
  have ok: "cache_ok clock (set evs) ttl ?pc" using cache_ok_run [OF new_cache_ok] by simp
  have "f w = (Inr k, w1) \<or>
    (\<exists>e. hm_get (key_cache ?pc) kid = Some e \<and> \<not> entry_expired (clock w) e \<and> k = public_key e \<and> w1 = w)"
    using assms by (auto simp: get_or_fetch_def fetch_fresh_def split: option.splits if_splits sum.splits prod.splits)
  with ok show ?thesis unfolding cache_ok_def stems_from_def entry_expired_def by (force simp: not_less)
qed

theorem cached_key_fresh_witness:
  "get_or_fetch id ''k'' (\<lambda>w. (Inr True, w + 5))
     (cache_run id [Fetched ''k'' (\<lambda>w. (Inr False, w + 5)) 1] (new_cache 1)) (1000000006 :: int) =
     (Inr False, cache_run id [Fetched ''k'' (\<lambda>w. (Inr False, w + 5)) 1] (new_cache 1), 1000000006) \<and>
   (\<exists>g v v'. Fetched ''k'' g v \<in> set [Fetched ''k'' (\<lambda>w. (Inr False, w + 5)) 1] \<and> g v = (Inr False :: bool node_result, v') \<and>
      id (1000000006 :: int) \<le> id v' + 1 * 1000000000 \<and> (1000000006 :: int) = 1000000006)"
proof -
  let ?es = "[Fetched ''k'' (\<lambda>w. (Inr False :: bool node_result, w + 5)) (1 :: int)]"
  let ?f = "\<lambda>w. (Inr True :: bool node_result, w + 5 :: int)"
  have run: "get_or_fetch id ''k'' ?f (cache_run id ?es (new_cache 1)) 1000000006 =
      (Inr False, cache_run id ?es (new_cache 1), 1000000006)"
    by (simp add: get_or_fetch_def fetch_fresh_def new_cache_def new_CacheEntry_def entry_expired_def)
  then show ?thesis using cached_key_fresh [OF run] by simp
qed

end
