(* ===== verification/Http_Server.thy ===== *)
theory Http_Server
  imports Rate_Limiter Error_Middleware Node_Config
begin

text \<open>
  Model of \<open>network-node/src/enhanced_server.rs\<close>: the middleware stack around the handlers of
  the HTTP server, its probes, and the two steps of its shutdown. A layer added later is further
  outside, so a request passes the connection tracker, the rate limiter, the connection limiter
  and the error handler before it reaches its handler. The handlers are a parameter: what a
  request answers in a state of the services behind them. Requests interleave at the borders of
  the layers, and a request whose client disconnects is dropped where it stands. The framework's
  router, sockets and TLS are left out; a time stamp of a response body is kept as a number.
\<close>

section \<open>Data\<close>

text \<open>A header is present if it exists and its value is a string.\<close>

record 'q http_request =
  x_forwarded_for :: "string option"
  x_real_ip :: "string option"
  payload :: 'q

record error_json =
  json_code :: string
  json_message :: string
  json_request_id :: "string option"
  json_timestamp :: int

datatype 'b reply_body = PlainText string | JsonError string | ErrorResponse error_json | HandlerBody 'b

record 'b http_reply =
  reply_status :: nat
  reply_body :: "'b reply_body"

datatype handler_error = NetworkErr NetworkError | OtherErr string

type_synonym ('q, 'b, 'h) handler = "'q http_request \<Rightarrow> 'h \<Rightarrow> (handler_error + 'b http_reply) \<times> 'h"

text \<open>
  The running application shares the flags, counters and services of the server, so its state
  extends the server's record by what \<open>start\<close> creates; \<open>services\<close> is everything the handlers use
  besides. The sender of the shutdown channel is there after a start and gone once it is used.
\<close>

record 'h EnhancedHttpServer =
  is_accepting_connections :: bool
  active_connections :: usize
  error_middleware :: ErrorMiddleware
  services :: 'h
  shutdown_tx :: bool
  shutdown_signalled :: bool

record ('r, 'h) AppState = "'h EnhancedHttpServer" +
  rate_limiter :: "'r RateLimiter"

text \<open>What a request reads from its surroundings: the clocks, fresh identifiers, the rendering of \<open>{:?}\<close>.\<close>

record http_env =
  env_secs :: u64
  env_request_id :: string
  env_record_id :: string
  env_context_time :: int
  env_error_time :: int
  env_debug :: "NetworkError \<Rightarrow> string"

section \<open>Construction and shutdown\<close>

definition new_http_server :: "ErrorMiddleware \<Rightarrow> 'h \<Rightarrow> 'h EnhancedHttpServer" where
  "new_http_server em h =
     \<lparr>is_accepting_connections = True, active_connections = 0, error_middleware = em, services = h,
      shutdown_tx = False, shutdown_signalled = False\<rparr>"

text \<open>The part of \<open>start\<close> before the listener task; \<open>parse_addr\<close> is the parser of socket addresses.\<close>

definition http_start ::
  "'r redis_if \<Rightarrow> (string \<Rightarrow> string option) \<Rightarrow> (string \<Rightarrow> string + unit) \<Rightarrow> string \<Rightarrow>
     'h EnhancedHttpServer \<Rightarrow> unit node_result \<times> ('r, 'h) AppState" where
  "http_start rd var parse_addr bind_addr self =
    (let redis_url = var ''REDIS_URL'';
         rate_limit_per_minute = unwrap_or 100 (Option.bind (var ''RATE_LIMIT_PER_MINUTE'') parse_u64);
         limiter = new_limiter rd redis_url (of_nat rate_limit_per_minute);
         self = self\<lparr>shutdown_tx := True\<rparr>;
         app = EnhancedHttpServer.extend self (AppState.fields limiter)
     in case parse_addr bind_addr of
          Inl e \<Rightarrow> (Inl (Config (''Invalid bind address: '' @ e)), app)
        | Inr _ \<Rightarrow> (Inr (), app))"

definition stop_accepting_new_connections ::
  "('h, 'x) EnhancedHttpServer_scheme \<Rightarrow> ('h, 'x) EnhancedHttpServer_scheme" where
  "stop_accepting_new_connections self = self\<lparr>is_accepting_connections := False\<rparr>"

text \<open>
  The loop of \<open>wait_for_connections_to_complete\<close> from a given number of attempts on; \<open>active i\<close> is
  the number of active connections read in attempt \<open>i\<close>. The result is the number of attempts at
  the end of the loop, which is the number of seconds slept.
\<close>

function wait_loop :: "nat \<Rightarrow> (nat \<Rightarrow> 'a::zero) \<Rightarrow> nat \<Rightarrow> nat" where
  "wait_loop max_attempts active attempts =
     (if attempts < max_attempts
      then if active attempts = 0 then attempts else wait_loop max_attempts active (attempts + 1)
      else attempts)"
  by auto
termination by (relation "measure (\<lambda>(m, _, a). m - a)") auto

declare wait_loop.simps [simp del]

text \<open>Whether the connections completed within the timeout period.\<close>

definition wait_for_connections_to_complete :: "(nat \<Rightarrow> usize) \<Rightarrow> bool" where
  "wait_for_connections_to_complete active =
     (let max_attempts = 60; attempts = wait_loop max_attempts active 0 in \<not> max_attempts \<le> attempts)"

definition http_stop :: "('h, 'x) EnhancedHttpServer_scheme \<Rightarrow> ('h, 'x) EnhancedHttpServer_scheme" where
  "http_stop self =
     (if shutdown_tx self then self\<lparr>shutdown_tx := False, shutdown_signalled := True\<rparr> else self)"

section \<open>Middleware\<close>

definition status_from_u16 :: "nat \<Rightarrow> nat" where
  "status_from_u16 n = (if 100 \<le> n \<and> n < 1000 then n else 500)"

definition create_error_response :: "ContextualError \<Rightarrow> 'b http_reply" where
  "create_error_response e =
    (let err = contextual_error e; ctx = contextual_context e in
     \<lparr>reply_status = status_from_u16 (http_status_code err),
      reply_body = ErrorResponse
        \<lparr>json_code = network_error_code err, json_message = display_NetworkError err,
         json_request_id = ctx_request_id ctx, json_timestamp = ctx_timestamp ctx\<rparr>\<rparr>)"

definition error_handler_middleware ::
  "('q, 'b, 'h) handler \<Rightarrow> http_env \<Rightarrow> 'q http_request \<Rightarrow> ('r, 'h) AppState \<Rightarrow>
     'b http_reply \<times> ('r, 'h) AppState" where
  "error_handler_middleware next env request s =
    (let context = with_request_id (env_request_id env)
           (new_ErrorContext (env_context_time env) ''http_request'' ''http_server'') in
     case next request (services s) of
       (Inr response, h) \<Rightarrow> (response, s\<lparr>services := h\<rparr>)
     | (Inl err, h) \<Rightarrow>
         let s = s\<lparr>services := h\<rparr>;
             network_error = (case err of NetworkErr e \<Rightarrow> e
               | OtherErr t \<Rightarrow> Server (''Internal server error: '' @ t));
             (contextual, em) = handle_error (env_debug env) (env_record_id env) (env_error_time env)
               network_error context (error_middleware s)
         in (create_error_response contextual, s\<lparr>error_middleware := em\<rparr>))"

text \<open>
  A layer in front of the handler either answers itself or passes the request on: \<open>Some\<close> answer,
  or \<open>None\<close>.
\<close>

definition connection_limiter_middleware :: "('h, 'x) EnhancedHttpServer_scheme \<Rightarrow> 'b http_reply option" where
  "connection_limiter_middleware s =
    (let accepting = is_accepting_connections s in
     if \<not> accepting then Some \<lparr>reply_status = 503, reply_body = PlainText ''Server is shutting down''\<rparr>
     else None)"

definition rate_limit_middleware ::
  "'r redis_if \<Rightarrow> http_env \<Rightarrow> 'q http_request \<Rightarrow> ('r, 'h) AppState \<Rightarrow>
     'b http_reply option \<times> ('r, 'h) AppState" where
  "rate_limit_middleware rd env request s =
    (let ip = (case map_option (\<lambda>v. trim (takeWhile (\<lambda>c. c \<noteq> CHR '','') v)) (x_forwarded_for request) of
           Some ip \<Rightarrow> ip
         | None \<Rightarrow> unwrap_or ''unknown'' (x_real_ip request));
         (answer, limiter) = allow rd (env_secs env) ip (rate_limiter s);
         s = s\<lparr>rate_limiter := limiter\<rparr>
     in case answer of
          Inr True \<Rightarrow> (None, s)
        | Inr False \<Rightarrow> (Some \<lparr>reply_status = 429, reply_body = JsonError ''rate limit exceeded''\<rparr>, s)
        | Inl e \<Rightarrow> (Some \<lparr>reply_status = 500, reply_body = PlainText ''rate limiter error''\<rparr>, s))"

definition track_enter :: "('h, 'x) EnhancedHttpServer_scheme \<Rightarrow> ('h, 'x) EnhancedHttpServer_scheme" where
  "track_enter s = s\<lparr>active_connections := active_connections s + 1\<rparr>"

definition track_leave :: "('h, 'x) EnhancedHttpServer_scheme \<Rightarrow> ('h, 'x) EnhancedHttpServer_scheme" where
  "track_leave s = s\<lparr>active_connections := active_connections s - 1\<rparr>"

text \<open>
  The stack that \<open>start\<close> builds of the layers, for a request that is not interleaved with others.
  The connection tracker counts the request in, runs the rest, and counts it out.
\<close>

definition app_layers ::
  "'r redis_if \<Rightarrow> ('q, 'b, 'h) handler \<Rightarrow> http_env \<Rightarrow> 'q http_request \<Rightarrow> ('r, 'h) AppState \<Rightarrow>
     'b http_reply \<times> ('r, 'h) AppState" where
  "app_layers rd handler env request s =
    (let (response, s) =
       (case rate_limit_middleware rd env request (track_enter s) of
          (Some response, s) \<Rightarrow> (response, s)
        | (None, s) \<Rightarrow>
            (case connection_limiter_middleware s of
               Some response \<Rightarrow> (response, s)
             | None \<Rightarrow> error_handler_middleware handler env request s))
     in (response, track_leave s))"

section \<open>Probes and reports\<close>

text \<open>Bodies without their time stamp; \<open>db\<close> is the answer of the pool's health check.\<close>

record readiness_json =
  ready_status :: string
  ready_reasons :: "string list"
  ready_database :: string
  ready_accepting :: bool

definition health_readiness ::
  "string + bool \<Rightarrow> ('h, 'x) EnhancedHttpServer_scheme \<Rightarrow> nat \<times> readiness_json" where
  "health_readiness db s =
    (let database_ready = (case db of Inr b \<Rightarrow> b | Inl _ \<Rightarrow> False);
         accepting_connections = is_accepting_connections s in
     if database_ready \<and> accepting_connections
     then (200, \<lparr>ready_status = ''ready'', ready_reasons = [], ready_database = ''connected'', ready_accepting = True\<rparr>)
     else
       (503, \<lparr>ready_status = ''not ready'',
              ready_reasons = (if \<not> database_ready then [''database not connected''] else []) @
                (if \<not> accepting_connections then [''not accepting connections''] else []),
              ready_database = (if database_ready then ''connected'' else ''disconnected''),
              ready_accepting = accepting_connections\<rparr>))"

record ready_json =
  json_ready :: bool
  json_database_healthy :: bool
  json_active_connections :: u32

text \<open>\<open>pool_size\<close> and \<open>num_idle\<close> are the counters of the connection pool; the left result is a status.\<close>

definition ready_check :: "string + bool \<Rightarrow> u32 \<Rightarrow> u32 \<Rightarrow> nat + ready_json" where
  "ready_check db pool_size num_idle =
    (case db of
       Inl _ \<Rightarrow> Inl 500
     | Inr database_healthy \<Rightarrow>
         let n = pool_size - num_idle; ready = database_healthy \<and> 0 < n
         in Inr \<lparr>json_ready = ready, json_database_healthy = database_healthy, json_active_connections = n\<rparr>)"

definition circuit_breaker_status :: "('h, 'x) EnhancedHttpServer_scheme \<Rightarrow> (string \<times> string) list" where
  "circuit_breaker_status s =
     map (\<lambda>(component, breaker).
       (component, case cb_state breaker of Closed \<Rightarrow> ''closed'' | Open \<Rightarrow> ''open'' | HalfOpen \<Rightarrow> ''half_open''))
       (get_circuit_breaker_status (error_middleware s))"

section \<open>Interleaved requests\<close>

text \<open>
  A request in flight is in front of the rate limiter, in front of the connection limiter, in
  front of its handler, or answered and about to leave the connection tracker. The world records
  which requests have reached a handler, the answers given, and how many requests were dropped.
\<close>

datatype 'b phase = Limiting | Admitting | Handling | Answered "'b http_reply"

record ('q, 'b, 'r, 'h) http_world =
  app :: "('r, 'h) AppState"
  flight :: "(nat, http_env \<times> 'q http_request \<times> 'b phase) hash_map"
  reached :: "nat list"
  replies :: "(nat \<times> 'b http_reply) list"
  dropped :: nat

datatype 'q http_event = Arrive nat http_env "'q http_request" | Advance nat | Disconnect nat | StopAccepting

definition put_phase ::
  "nat \<Rightarrow> http_env \<Rightarrow> 'q http_request \<Rightarrow> 'b phase \<Rightarrow> ('q, 'b, 'r, 'h) http_world \<Rightarrow> ('q, 'b, 'r, 'h) http_world" where
  "put_phase i env request ph w = w\<lparr>flight := hm_insert i (env, request, ph) (flight w)\<rparr>"

fun advance_phase ::
  "'r redis_if \<Rightarrow> ('q, 'b, 'h) handler \<Rightarrow> nat \<Rightarrow> http_env \<Rightarrow> 'q http_request \<Rightarrow> 'b phase \<Rightarrow>
     ('q, 'b, 'r, 'h) http_world \<Rightarrow> ('q, 'b, 'r, 'h) http_world" where
  "advance_phase rd handler i env request Limiting w =
    (case rate_limit_middleware rd env request (app w) of
       (Some response, s) \<Rightarrow> put_phase i env request (Answered response) (w\<lparr>app := s\<rparr>)
     | (None, s) \<Rightarrow> put_phase i env request Admitting (w\<lparr>app := s\<rparr>))"
| "advance_phase rd handler i env request Admitting w =
    (case connection_limiter_middleware (app w) of
       Some response \<Rightarrow> put_phase i env request (Answered response) w
     | None \<Rightarrow> put_phase i env request Handling (w\<lparr>reached := reached w @ [i]\<rparr>))"
| "advance_phase rd handler i env request Handling w =
    (let (response, s) = error_handler_middleware handler env request (app w)
     in put_phase i env request (Answered response) (w\<lparr>app := s\<rparr>))"
| "advance_phase rd handler i env request (Answered response) w =
     w\<lparr>app := track_leave (app w), flight := hm_remove i (flight w), replies := replies w @ [(i, response)]\<rparr>"

fun http_step ::
  "'r redis_if \<Rightarrow> ('q, 'b, 'h) handler \<Rightarrow> 'q http_event \<Rightarrow> ('q, 'b, 'r, 'h) http_world \<Rightarrow> ('q, 'b, 'r, 'h) http_world" where
  "http_step rd handler (Arrive i env request) w =
    (if hm_get (flight w) i = None then put_phase i env request Limiting (w\<lparr>app := track_enter (app w)\<rparr>) else w)"
| "http_step rd handler (Advance i) w =
    (case hm_get (flight w) i of None \<Rightarrow> w | Some (env, request, ph) \<Rightarrow> advance_phase rd handler i env request ph w)"
| "http_step rd handler (Disconnect i) w =
    (if hm_get (flight w) i = None then w else w\<lparr>flight := hm_remove i (flight w), dropped := dropped w + 1\<rparr>)"
| "http_step rd handler StopAccepting w = w\<lparr>app := stop_accepting_new_connections (app w)\<rparr>"

definition http_run ::
  "'r redis_if \<Rightarrow> ('q, 'b, 'h) handler \<Rightarrow> 'q http_event list \<Rightarrow> ('q, 'b, 'r, 'h) http_world \<Rightarrow> ('q, 'b, 'r, 'h) http_world" where
  "http_run rd handler es w = fold (http_step rd handler) es w"

definition http_world_of :: "('r, 'h) AppState \<Rightarrow> ('q, 'b, 'r, 'h) http_world" where
  "http_world_of s = \<lparr>app = s, flight = [], reached = [], replies = [], dropped = 0\<rparr>"

section \<open>What the probes say\<close>

lemma readiness_iff:
  "fst (health_readiness db s) = 200 \<longleftrightarrow> db = Inr True \<and> is_accepting_connections s"
  by (auto simp: health_readiness_def Let_def split: sum.splits)

lemma readiness_while_stopping: "fst (health_readiness db (stop_accepting_new_connections s)) = 503"
  by (simp add: health_readiness_def stop_accepting_new_connections_def Let_def)

text \<open>A healthy server whose pooled connections are all idle is reported as not ready.\<close>

lemma idle_pool_not_ready: "\<exists>j. ready_check (Inr True) n n = Inr j \<and> \<not> json_ready j \<and> json_database_healthy j"
  by (simp add: ready_check_def Let_def)

section \<open>The loop that waits\<close>

lemma wait_loop_bounds: "a \<le> wait_loop m f a \<and> wait_loop m f a \<le> max a m"
proof (induction m f a rule: wait_loop.induct)
  case (1 m f a)
  then show ?case by (subst (1 2) wait_loop.simps) auto
qed

lemma wait_loop_early:
  "wait_loop m f a < m \<longleftrightarrow> (\<exists>i. a \<le> i \<and> i < m \<and> f i = 0)"
proof (induction m f a rule: wait_loop.induct)
  case (1 m f a)
  show ?case
  proof (cases "a < m \<and> f a \<noteq> 0")
    case True
    then have "wait_loop m f a < m \<longleftrightarrow> (\<exists>i. a + 1 \<le> i \<and> i < m \<and> f i = 0)"
      using 1 by (subst wait_loop.simps) simp
    also have "\<dots> \<longleftrightarrow> (\<exists>i. a \<le> i \<and> i < m \<and> f i = 0)"
      using True by (metis Suc_eq_plus1 Suc_leD le_antisym not_less_eq_eq)
    finally show ?thesis .
  next
    case False
    then show ?thesis by (subst wait_loop.simps) auto
  qed
qed

lemma wait_completes_iff: "wait_for_connections_to_complete f \<longleftrightarrow> (\<exists>i < 60. f i = 0)"
  using wait_loop_early [of 60 f 0] by (simp add: wait_for_connections_to_complete_def Let_def not_le)

section \<open>The connection counter\<close>

lemma rate_limit_middleware_frame:
  assumes "rate_limit_middleware rd env request s = (answer, s')"
  shows "active_connections s' = active_connections s"
    and "is_accepting_connections s' = is_accepting_connections s"
  using assms by (auto simp: rate_limit_middleware_def Let_def split: prod.splits sum.splits bool.splits)

lemma error_handler_frame:
  assumes "error_handler_middleware handler env request s = (response, s')"
  shows "active_connections s' = active_connections s"
    and "is_accepting_connections s' = is_accepting_connections s"
  using assms by (auto simp: error_handler_middleware_def Let_def split: prod.splits sum.splits)

text \<open>
  The counter is the number of requests in flight and of those dropped: a dropped request has
  entered the tracker and never leaves it.
\<close>

definition tracked :: "('q, 'b, 'r, 'h) http_world \<Rightarrow> bool" where
  "tracked w \<longleftrightarrow> hm_ok (flight w) \<and> active_connections (app w) = of_nat (length (flight w) + dropped w)"

lemma length_flight_insert:
  assumes "hm_ok m"
  shows "length (hm_insert k v m) = (if hm_get m k = None then Suc (length m) else length m)"
  using hm.length_put [OF assms, of k v] by simp

lemma length_flight_remove:
  fixes m :: "('k, 'v) hash_map"
  assumes "hm_ok m" "hm_get m k \<noteq> None"
  shows "Suc (length (hm_remove k m)) = length m"
proof -
  have "length (filter (\<lambda>(k', _). k \<noteq> k') xs) + (if map_of xs k = None then 0 else 1) = length xs"
    if "distinct (map fst xs)" for xs :: "('k \<times> 'v) list"
    using that by (induction xs) (auto simp: map_of_eq_None_iff split: if_split_asm, force)
  from this [of m] show ?thesis
    using assms by (simp add: hm_ok_def hm_remove_def AList.delete_eq del: map_of_eq_None_iff not_None_eq)
qed

lemma tracked_put:
  assumes "tracked w" "hm_get (flight w) i \<noteq> None" "active_connections s = active_connections (app w)"
  shows "tracked (put_phase i env request ph (w\<lparr>app := s, reached := xs\<rparr>))"
  using assms by (auto simp: tracked_def put_phase_def length_flight_insert)

lemma tracked_remove:
  assumes "tracked w" "hm_get (flight w) i \<noteq> None" "s = track_leave (app w) \<and> d = dropped w \<or> s = app w \<and> d = Suc (dropped w)"
  shows "tracked (w\<lparr>app := s, flight := hm_remove i (flight w), replies := rs, dropped := d\<rparr>)"
proof -
  have "length (flight w) = Suc (length (hm_remove i (flight w)))"
    using assms by (intro length_flight_remove [symmetric]) (auto simp: tracked_def)
  with assms show ?thesis by (auto simp: tracked_def track_leave_def)
qed

lemma tracked_advance:
  fixes w :: "('q, 'b, 'r, 'h) http_world"
  assumes w: "tracked w" and i: "hm_get (flight w) i = Some (env, request, ph)"
  shows "tracked (advance_phase rd handler i env request ph w)"
proof -
  have i': "hm_get (flight w) i \<noteq> None" using i by simp
  note put = tracked_put [OF w i']
  show ?thesis
  proof (cases ph)
    case Limiting
    obtain answer s where g: "rate_limit_middleware rd env request (app w) = (answer :: 'b http_reply option, s)" by fastforce
    show ?thesis
      using put [OF rate_limit_middleware_frame(1) [OF g], of env request _ "reached w"] g Limiting
      by (cases answer) simp_all
  next
    case Admitting
    then show ?thesis
      using put [of "app w" env request _ "reached w"] put [of "app w" env request _ "reached w @ [i]"]
      by (cases "connection_limiter_middleware (app w) :: 'b http_reply option") simp_all
  next
    case Handling
    obtain r s where g: "error_handler_middleware handler env request (app w) = (r, s)" by fastforce
    show ?thesis
      using put [OF error_handler_frame(1) [OF g], of env request _ "reached w"] g Handling by simp
  next
    case (Answered response)
    then show ?thesis using tracked_remove [OF w i', of "track_leave (app w)" "dropped w"] by simp
  qed
qed

lemma tracked_step:
  assumes "tracked w"
  shows "tracked (http_step rd handler e w)"
proof (cases e)
  case (Arrive i env request)
  with assms show ?thesis by (auto simp: tracked_def put_phase_def track_enter_def length_flight_insert)
next
  case (Advance i)
  with assms tracked_advance [OF assms] show ?thesis by (auto split: option.split)
next
  case (Disconnect i)
  with assms show ?thesis
    using tracked_remove [OF assms, of i "app w" "Suc (dropped w)" "replies w"] by simp
next
  case StopAccepting
  with assms show ?thesis by (simp add: tracked_def stop_accepting_new_connections_def)
qed

lemma http_run_simps [simp]:
  "http_run rd handler [] w = w"
  "http_run rd handler (e # es) w = http_run rd handler es (http_step rd handler e w)"
  "http_run rd handler (es @ es') w = http_run rd handler es' (http_run rd handler es w)"
  by (simp_all add: http_run_def)

lemma tracked_run: "tracked w \<Longrightarrow> tracked (http_run rd handler es w)"
  by (induction es arbitrary: w) (simp_all add: tracked_step)

lemma tracked_start: "active_connections s = 0 \<Longrightarrow> tracked (http_world_of s)"
  by (simp add: tracked_def http_world_of_def)

section \<open>After the server stopped accepting\<close>

lemma refused_advance:
  fixes w :: "('q, 'b, 'r, 'h) http_world"
  assumes "\<not> is_accepting_connections (app w)"
  shows "\<not> is_accepting_connections (app (advance_phase rd handler i env request ph w)) \<and>
    reached (advance_phase rd handler i env request ph w) = reached w"
proof (cases ph)
  case Limiting
  obtain answer s where g: "rate_limit_middleware rd env request (app w) = (answer :: 'b http_reply option, s)" by fastforce
  show ?thesis using rate_limit_middleware_frame(2) [OF g] g Limiting assms by (cases answer) (simp_all add: put_phase_def)
next
  case Admitting
  with assms show ?thesis by (simp add: put_phase_def connection_limiter_middleware_def)
next
  case Handling
  obtain r s where g: "error_handler_middleware handler env request (app w) = (r, s)" by fastforce
  show ?thesis using error_handler_frame(2) [OF g] g Handling assms by (simp add: put_phase_def)
next
  case (Answered response)
  with assms show ?thesis by (simp add: track_leave_def)
qed

lemma refused_step:
  assumes "\<not> is_accepting_connections (app w)"
  shows "\<not> is_accepting_connections (app (http_step rd handler e w)) \<and>
    reached (http_step rd handler e w) = reached w"
  using assms refused_advance [OF assms]
  by (cases e) (auto simp: put_phase_def track_enter_def stop_accepting_new_connections_def split: option.split)

lemma refused_run:
  "\<not> is_accepting_connections (app w) \<Longrightarrow> reached (http_run rd handler es w) = reached w"
  by (induction es arbitrary: w) (simp_all add: refused_step)

section \<open>A request on its own\<close>

text \<open>
  A request that is not interleaved with others passes through the stack of layers: what the
  steps make of it is what the composed middleware functions answer.
\<close>

lemma put_phase_simps [simp]:
  "app (put_phase i env request ph w) = app w" "reached (put_phase i env request ph w) = reached w"
  "replies (put_phase i env request ph w) = replies w" "dropped (put_phase i env request ph w) = dropped w"
  "hm_get (flight (put_phase i env request ph w)) i = Some (env, request, ph)"
  by (simp_all add: put_phase_def)

lemma uninterrupted_request:
  fixes w :: "('q, 'b, 'r, 'h) http_world"
  assumes i: "hm_get (flight w) i = None"
    and w'_def: "w' = http_run rd handler (Arrive i env request # replicate 4 (Advance i)) w"
    and a: "app_layers rd handler env request (app w) = (response, s0)"
  shows "app w' = s0 \<and> replies w' = replies w @ [(i, response)]"
proof -
  obtain answer s where g: "rate_limit_middleware rd env request (track_enter (app w)) = (answer :: 'b http_reply option, s)"
    by fastforce
  obtain r s' where h: "error_handler_middleware handler env request s = (r, s')" by fastforce
  show ?thesis
  proof (cases answer)
    case (Some x)
    with i g a show ?thesis by (simp add: w'_def app_layers_def numeral_eq_Suc)
  next
    case None
    then show ?thesis
      using i g h a
      by (cases "connection_limiter_middleware s :: 'b http_reply option") (simp_all add: w'_def app_layers_def numeral_eq_Suc)
  qed
qed

end
