(* ===== verification/Http_Properties.thy ===== *)
theory Http_Properties
  imports Http_Server
begin

text \<open>
  Property of the HTTP server: what its shutdown waits for, over every interleaving of requests.
\<close>

text \<open>
  C33. Take any interleaving of requests, then the call that stops the server from accepting, then
  any further interleaving, which the waiting loop of the shutdown observes at its attempts. From
  the stop on no request reaches a handler any more, in whatever layer it was. The connection
  counter the loop reads is at every moment the number of requests in flight plus the number of
  requests whose client disconnected, since a dropped request never leaves the tracker. The wait
  therefore ends before its timeout exactly if at one of its sixty attempts no request is in
  flight and no client has ever disconnected.
\<close>

theorem http_drain_exact:
  assumes "active_connections s = 0"
    and "w = http_run rd handler es (http_world_of s)"
    and "later = (\<lambda>i. http_run rd handler (es' i) (http_step rd handler StopAccepting w))"
  shows "reached (later i) = reached w \<and>
    active_connections (app (later i)) = of_nat (length (flight (later i)) + dropped (later i)) \<and>
    ((\<forall>j < 60. length (flight (later j)) + dropped (later j) < 2 ^ 64) \<longrightarrow>
      (wait_for_connections_to_complete (\<lambda>j. active_connections (app (later j))) \<longleftrightarrow>
        (\<exists>j < 60. flight (later j) = [] \<and> dropped (later j) = 0)))"
proof -
  let ?w = "http_step rd handler StopAccepting w"
  have "tracked ?w" using assms by (intro tracked_step) (simp only: tracked_run tracked_start)
  then have active: "active_connections (app (later j)) = of_nat (length (flight (later j)) + dropped (later j))" for j
    using tracked_run [of ?w] assms(3) by (simp add: tracked_def)
  have "reached (later i) = reached w"
    using refused_run [of ?w] assms(3) by (simp add: stop_accepting_new_connections_def)
  moreover have "active_connections (app (later j)) = 0 \<longleftrightarrow> flight (later j) = [] \<and> dropped (later j) = 0"
    if "length (flight (later j)) + dropped (later j) < 2 ^ 64" for j
  proof -
    have "unat (active_connections (app (later j))) = length (flight (later j)) + dropped (later j)"
      unfolding active using that by (intro unat_of_nat_small) simp
    then show ?thesis by (metis add_is_0 length_0_conv unat_eq_zero)
  qed
  ultimately show ?thesis using active by (auto simp only: wait_completes_iff)
qed

text \<open>
  The instance: a request has been admitted when the server stops accepting, another is in front of the
  limiter; both leave before the second attempt, the second one turned away.
\<close>

definition http_demo_redis :: "unit redis_if" where
  "http_demo_redis = \<lparr>redis_connect = (\<lambda>_. None), redis_incr = (\<lambda>_ c. (Inl [], c)), redis_expire = (\<lambda>_ _ c. (Inl [], c))\<rparr>"

definition http_demo_env :: http_env where
  "http_demo_env = \<lparr>env_secs = 0, env_request_id = ''r'', env_record_id = ''e'', env_context_time = 0, env_error_time = 0, env_debug = (\<lambda>_. [])\<rparr>"

definition http_demo_request :: "unit http_request" where
  "http_demo_request = \<lparr>x_forwarded_for = None, x_real_ip = Some ''10.0.0.1'', payload = ()\<rparr>"

definition http_demo_handler :: "(unit, unit, unit) handler" where
  "http_demo_handler request h = (Inr \<lparr>reply_status = 200, reply_body = HandlerBody ()\<rparr>, h)"

definition http_demo_app :: "(unit, unit) AppState" where
  "http_demo_app = snd (http_start http_demo_redis (\<lambda>_. None) (\<lambda>_. Inr ()) ''127.0.0.1:80'' (new_http_server (new_middleware default_config) ()))"

definition http_demo_before :: "unit http_event list" where
  "http_demo_before = [Arrive 0 http_demo_env http_demo_request, Arrive 1 http_demo_env http_demo_request, Advance 0, Advance 0, Advance 1]"

definition http_demo_after :: "nat \<Rightarrow> unit http_event list" where
  "http_demo_after i = (if i = 0 then [] else [Advance 1, Advance 0, Advance 1, Advance 0])"

definition http_demo_later :: "nat \<Rightarrow> (unit, unit, unit, unit) http_world" where
  "http_demo_later i = http_run http_demo_redis http_demo_handler (http_demo_after i)
     (http_step http_demo_redis http_demo_handler StopAccepting (http_run http_demo_redis http_demo_handler http_demo_before (http_world_of http_demo_app)))"

lemma http_demo_app_start: "active_connections http_demo_app = 0"
  by code_simp

lemma http_demo_later_ends: "map (\<lambda>i. (map fst (flight (http_demo_later i)), dropped (http_demo_later i))) [0, 1] = [([0, 1], 0), ([], 0)]"
  by code_simp

lemma http_demo_later_cases: "http_demo_later i = http_demo_later (if i = 0 then 0 else 1)"
  by (simp add: http_demo_later_def http_demo_after_def)

lemma http_demo_reached: "reached (http_run http_demo_redis http_demo_handler http_demo_before (http_world_of http_demo_app)) = [0]"
  by code_simp

theorem http_drain_exact_witness:
  "active_connections http_demo_app = 0 \<and> wait_for_connections_to_complete (\<lambda>j. active_connections (app (http_demo_later j))) \<and>
   reached (http_demo_later 1) = [0]"
proof -
  have later: "http_demo_later = (\<lambda>i. http_run http_demo_redis http_demo_handler (http_demo_after i)
      (http_step http_demo_redis http_demo_handler StopAccepting (http_run http_demo_redis http_demo_handler http_demo_before (http_world_of http_demo_app))))"
    by (rule ext) (rule http_demo_later_def)
  have at: "flight (http_demo_later 1) = []" "dropped (http_demo_later 1) = 0"
    "length (flight (http_demo_later 0)) = 2" "dropped (http_demo_later 0) = 0"
    using http_demo_later_ends by (auto dest: arg_cong [of _ _ length])
  have "length (flight (http_demo_later j)) + dropped (http_demo_later j) < 2 ^ 64" for j
    using at by (subst (1 2) http_demo_later_cases) simp
  with http_drain_exact [OF http_demo_app_start refl later, of 1] at http_demo_app_start http_demo_reached
  show ?thesis by (auto intro: exI [of _ 1])
qed

end
