(* ===== verification/Stellar_Service.thy ===== *)
theory Stellar_Service
  imports Horizon_Client Soroban_Rpc
begin

text \<open>
  Model of \<open>network-node/src/stellar_service.rs\<close>, \<open>soroban_service.rs\<close> and \<open>indexer.rs\<close>, and of
  the handlers of \<open>enhanced_server.rs\<close> over the first: queries to Horizon through the client
  that fails over between providers, the submission of Soroban transactions, and the polling of
  contract events. One HTTP exchange and the decoders of its body are parameters. The gauge and
  the counter the services update are part of their result.
\<close>

section \<open>Horizon queries\<close>

datatype json_value = JsonObject "(string \<times> json_value) list" | JsonArray "json_value list" | JsonAtom string

record 'j horizon_response =
  hz_status :: nat
  hz_status_text :: string
  hz_text :: "string option"
  hz_json :: "string + 'j"

datatype horizon_request = HttpGet string | HttpPostForm string "(string \<times> string) list"

type_synonym ('j, 'w) exchange = "horizon_request \<Rightarrow> 'w \<Rightarrow> (string + 'j horizon_response) \<times> 'w"

record Ledger =
  ledger_id :: string
  ledger_sequence :: u32
  closed_at :: string
  total_coins :: string
  fee_pool :: string
  base_fee :: u32
  base_reserve :: string
  max_tx_set_size :: u32
  protocol_version :: u32

record service_metrics =
  rpc_errors_total :: nat
  last_ledger_processed :: "u32 option"

definition trim_end_slashes :: "string \<Rightarrow> string" where
  "trim_end_slashes s = rev (dropWhile (\<lambda>c. c = CHR ''/'') (rev s))"

text \<open>The operation given to the client: one request to a provider, its body decoded on success.\<close>

definition horizon_operation ::
  "('j, 'w) exchange \<Rightarrow> (string \<Rightarrow> horizon_request) \<Rightarrow> ('j \<Rightarrow> string + 'a) \<Rightarrow> HorizonProvider \<Rightarrow> 'w \<Rightarrow> (string + 'a) \<times> 'w" where
  "horizon_operation send request decode p w =
    (case send (request (trim_end_slashes (url p))) w of
       (Inl e, w') \<Rightarrow> (Inl e, w')
     | (Inr response, w') \<Rightarrow>
         if is_success (hz_status response)
         then (rbind (hz_json response) decode, w')
         else (Inl (''HTTP '' @ hz_status_text response @ '': '' @ unwrap_or [] (hz_text response)), w'))"

abbreviation count_error :: "'a node_result \<Rightarrow> service_metrics \<Rightarrow> service_metrics" where
  "count_error r m \<equiv> (case r of Inl _ \<Rightarrow> m\<lparr>rpc_errors_total := rpc_errors_total m + 1\<rparr> | Inr _ \<Rightarrow> m)"

abbreviation gauge_ledger :: "Ledger node_result \<Rightarrow> service_metrics \<Rightarrow> service_metrics" where
  "gauge_ledger r m \<equiv> (case r of Inl _ \<Rightarrow> m | Inr l \<Rightarrow> m\<lparr>last_ledger_processed := Some (ledger_sequence l)\<rparr>)"

text \<open>A query: the request, then the metrics. One that waits for the client's lock updates none.\<close>

definition stellar_query ::
  "('w \<Rightarrow> int) \<Rightarrow> (HorizonProvider \<Rightarrow> 'w \<Rightarrow> (string + 'a) \<times> 'w) \<Rightarrow>
     ('a node_result \<Rightarrow> service_metrics \<Rightarrow> service_metrics) \<Rightarrow> (HorizonClient \<times> service_metrics) \<times> 'w \<Rightarrow>
     (NetworkError, 'a, (HorizonClient \<times> service_metrics) \<times> 'w) run" where
  "stellar_query clock operation update s =
    (let (client, metrics) = fst s in
     case execute_request clock operation (client, snd s) of
       Done x (client', w') \<Rightarrow> Done x ((client', update (Inr x) metrics), w')
     | Fail e (client', w') \<Rightarrow> Fail e ((client', update (Inl e) metrics), w')
     | Blocked (client', w') \<Rightarrow> Blocked ((client', metrics), w'))"

definition get_account ::
  "('w \<Rightarrow> int) \<Rightarrow> ('a, 'w) exchange \<Rightarrow> string \<Rightarrow> (HorizonClient \<times> service_metrics) \<times> 'w \<Rightarrow>
     (NetworkError, 'a, (HorizonClient \<times> service_metrics) \<times> 'w) run" where
  "get_account clock send account_id =
     stellar_query clock
       (horizon_operation send (\<lambda>base. HttpGet (base @ ''/accounts/'' @ account_id)) Inr)
       (\<lambda>r m. count_error r m)"

definition get_stellar_transaction ::
  "('w \<Rightarrow> int) \<Rightarrow> ('a, 'w) exchange \<Rightarrow> string \<Rightarrow> (HorizonClient \<times> service_metrics) \<times> 'w \<Rightarrow>
     (NetworkError, 'a, (HorizonClient \<times> service_metrics) \<times> 'w) run" where
  "get_stellar_transaction clock send transaction_hash =
     stellar_query clock
       (horizon_operation send (\<lambda>base. HttpGet (base @ ''/transactions/'' @ transaction_hash)) Inr)
       (\<lambda>r m. count_error r m)"

definition get_ledger ::
  "('w \<Rightarrow> int) \<Rightarrow> (Ledger, 'w) exchange \<Rightarrow> u32 \<Rightarrow> (HorizonClient \<times> service_metrics) \<times> 'w \<Rightarrow>
     (NetworkError, Ledger, (HorizonClient \<times> service_metrics) \<times> 'w) run" where
  "get_ledger clock send sequence =
     stellar_query clock
       (horizon_operation send (\<lambda>base. HttpGet (base @ ''/ledgers/'' @ show_nat (unat sequence))) Inr)
       (\<lambda>r m. count_error r (gauge_ledger r m))"

fun json_get :: "string \<Rightarrow> json_value \<Rightarrow> json_value option" where
  "json_get k (JsonObject kvs) = map_of kvs k"
| "json_get k _ = None"

fun first_record :: "json_value \<Rightarrow> json_value option" where
  "first_record (JsonArray (v # vs)) = Some v"
| "first_record _ = None"

definition get_latest_ledger ::
  "('w \<Rightarrow> int) \<Rightarrow> (json_value, 'w) exchange \<Rightarrow> (json_value \<Rightarrow> string + Ledger) \<Rightarrow> (HorizonClient \<times> service_metrics) \<times> 'w \<Rightarrow>
     (NetworkError, Ledger, (HorizonClient \<times> service_metrics) \<times> 'w) run" where
  "get_latest_ledger clock send from_value =
     stellar_query clock
       (horizon_operation send (\<lambda>base. HttpGet (base @ ''/ledgers?order=desc&limit=1''))
         (\<lambda>ledger_response.
            case Option.bind (Option.bind (json_get ''_embedded'' ledger_response) (json_get ''records'')) first_record of
              Some ledger \<Rightarrow> from_value ledger
            | None \<Rightarrow> Inl ''Invalid ledger response format''))
       (\<lambda>r m. count_error r (gauge_ledger r m))"

definition submit_stellar_transaction ::
  "('w \<Rightarrow> int) \<Rightarrow> ('a, 'w) exchange \<Rightarrow> string \<Rightarrow> (HorizonClient \<times> service_metrics) \<times> 'w \<Rightarrow>
     (NetworkError, 'a, (HorizonClient \<times> service_metrics) \<times> 'w) run" where
  "submit_stellar_transaction clock send transaction_xdr =
     stellar_query clock
       (horizon_operation send (\<lambda>base. HttpPostForm (base @ ''/transactions'') [(''tx'', transaction_xdr)]) Inr)
       (\<lambda>r m. count_error r m)"

section \<open>Handlers over the Stellar service\<close>

record 'b stellar_reply =
  sr_status :: nat
  sr_body :: "(string \<times> string) + 'b"

text \<open>The answer of a handler: the result as JSON, or the error's status with its code and message.\<close>

definition stellar_answer :: "'a node_result \<Rightarrow> ('a \<Rightarrow> 'b) \<Rightarrow> 'b stellar_reply" where
  "stellar_answer r json =
    (case r of
       Inr x \<Rightarrow> \<lparr>sr_status = 200, sr_body = Inr (json x)\<rparr>
     | Inl e \<Rightarrow>
         \<lparr>sr_status = (if 100 \<le> http_status_code e \<and> http_status_code e < 1000 then http_status_code e else 500),
          sr_body = Inl (network_error_code e, display_NetworkError e)\<rparr>)"

record provider_json =
  pj_name :: string
  pj_url :: string
  pj_priority :: u8
  pj_is_healthy :: bool
  pj_failure_count :: u8
  pj_circuit_state :: string
  pj_last_health_check :: "int option"

record providers_json =
  pj_providers :: "provider_json list"
  pj_total_providers :: nat
  pj_healthy_providers :: nat

text \<open>Ages are in seconds; an instant is in milliseconds.\<close>

definition get_horizon_providers_status :: 
  "int \<Rightarrow> (NetworkError, providers_json stellar_reply, HorizonClient \<times> 'w) task" where
  "get_horizon_providers_status now =
     t_bind (read_providers (\<lambda>client. (get_provider_statuses client, client))) (\<lambda>statuses.
     t_ret (stellar_answer (Inr statuses) (\<lambda>providers.
       \<lparr>pj_providers = map (\<lambda>p.
          \<lparr>pj_name = provider_name (provider p), pj_url = url (provider p), pj_priority = priority (provider p),
           pj_is_healthy = is_healthy p, pj_failure_count = failure_count p,
           pj_circuit_state = (case circuit_state p of Closed \<Rightarrow> ''Closed'' | Open \<Rightarrow> ''Open'' | HalfOpen \<Rightarrow> ''HalfOpen''),
           pj_last_health_check = map_option (\<lambda>t. (now - t) div 1000) (last_health_check p)\<rparr>) providers,
        pj_total_providers = length providers,
        pj_healthy_providers = length (filter is_healthy providers)\<rparr>)))"

definition switch_horizon_provider ::
  "(NetworkError, HorizonProvider stellar_reply, HorizonClient \<times> 'w) task" where
  "switch_horizon_provider =
     t_bind (read_providers switch_provider) (\<lambda>r. t_ret (stellar_answer r (\<lambda>p. p)))"

section \<open>Soroban service\<close>

record SendTransactionResponse =
  tx_hash :: string
  tx_status :: string
  tx_latest_ledger :: u32
  tx_latest_ledger_close_time :: string
  tx_error_result_xdr :: "string option"

fun contains :: "string \<Rightarrow> string \<Rightarrow> bool" where
  "contains [] pat = (pat = [])"
| "contains (c # cs) pat = (take (length pat) (c # cs) = pat \<or> contains cs pat)"

text \<open>The number is how often the error counter is incremented.\<close>

definition submit_transaction ::
  "(transaction_params, SendTransactionResponse, 'w) post \<Rightarrow> string \<Rightarrow> SorobanRpcClient \<Rightarrow> 'w \<Rightarrow>
     SendTransactionResponse node_result \<times> nat \<times> 'w" where
  "submit_transaction post transaction_xdr self w =
    (case send_transaction post transaction_xdr self w of
       (Inl e, _, w') \<Rightarrow> (Inl e, 1, w')
     | (Inr response, _, w') \<Rightarrow>
         if tx_status response = ''ERROR'' then
           (let xdr = unwrap_or [] (tx_error_result_xdr response) in
            if contains xdr ''AAAAAAAAAAAAAAAB'' then (Inl TransactionExpired, 1, w')
            else if contains xdr ''AAAAAAAAAAAAAAAC'' then (Inl InsufficientFee, 1, w')
            else (Inl (SorobanRpc (''Transaction failed: '' @ tx_status response)), 1, w'))
         else (Inr response, 0, w'))"

section \<open>Event indexer\<close>

record EventFilter =
  filter_event_type :: string
  filter_contract_ids :: "string list"
  filter_topics :: "string list list"

record GetEventsParams =
  start_ledger :: u32
  event_filters :: "EventFilter list"

record 'e EventsResult =
  result_events :: "'e list"
  latest_ledger :: u32

datatype wakeup = Tick | ShutdownRequested

text \<open>
  The polling loop under a sequence of wake-ups. The result is the events reported, the ledgers the polls
  started from, and \<open>None\<close> for the ledger of the next poll once the loop has returned.
\<close>

fun indexer_start ::
  "(GetEventsParams, 'e EventsResult, 'w) post \<Rightarrow> string \<Rightarrow> SorobanRpcClient \<Rightarrow> u32 \<Rightarrow> wakeup list \<Rightarrow> 'w \<Rightarrow>
     'e list \<times> u32 list \<times> u32 option \<times> 'w" where
  "indexer_start post contract client current_ledger [] w = ([], [], Some current_ledger, w)"
| "indexer_start post contract client current_ledger (ShutdownRequested # ws) w = ([], [], None, w)"
| "indexer_start post contract client current_ledger (Tick # ws) w =
    (let events_filter = \<lparr>filter_event_type = ''contract'', filter_contract_ids = [contract], filter_topics = [[''AxionveraVault'']]\<rparr>;
         params = \<lparr>start_ledger = current_ledger, event_filters = [events_filter]\<rparr>;
         (r, _, w') = call post ''getEvents'' params client w;
         (events, next_ledger) = (case r of
             Inr events_result \<Rightarrow> (result_events events_result, latest_ledger events_result + 1)
           | Inl e \<Rightarrow> ([], current_ledger));
         (more_events, starts, final, w'') = indexer_start post contract client next_ledger ws w'
     in (events @ more_events, current_ledger # starts, final, w''))"

section \<open>Results of the services\<close>

text \<open>A ledger that is returned is the one the gauge shows; a failed query is counted once.\<close>

definition gauged ::
  "(NetworkError, Ledger, (HorizonClient \<times> service_metrics) \<times> 'w) run \<Rightarrow> (HorizonClient \<times> service_metrics) \<times> 'w \<Rightarrow> bool" where
  "gauged r s \<longleftrightarrow>
     (case r of
           Done l s' \<Rightarrow> last_ledger_processed (snd (fst s')) = Some (ledger_sequence l) \<and>
                       rpc_errors_total (snd (fst s')) = rpc_errors_total (snd (fst s))
         | Fail e s' \<Rightarrow> last_ledger_processed (snd (fst s')) = last_ledger_processed (snd (fst s)) \<and>
                       rpc_errors_total (snd (fst s')) = rpc_errors_total (snd (fst s)) + 1
         | Blocked s' \<Rightarrow> snd (fst s') = snd (fst s))"

lemma query_gauge:
  assumes "stellar_query clock operation (\<lambda>r m. count_error r (gauge_ledger r m)) s = r"
  shows "gauged r s"
  using assms by (auto simp: gauged_def stellar_query_def Let_def split: prod.splits run.splits)

lemma ledger_gauge:
  assumes "get_ledger clock send sequence s = r"
  shows "gauged r s"
  using query_gauge [OF assms [unfolded get_ledger_def]] .

lemma latest_ledger_gauge:
  assumes "get_latest_ledger clock send from_value s = r"
  shows "gauged r s"
  using query_gauge [OF assms [unfolded get_latest_ledger_def]] .

text \<open>While the health check holds the client's lock no query and no handler returns.\<close>

lemma queries_wait:
  assumes "providers_lock (fst (fst s)) \<in> {Writer, Awaited n}"
  shows "stellar_query clock operation update s = Blocked s"
  using request_waits [of "(fst (fst s), snd s)" n clock operation] assms
  by (cases s) (auto simp: stellar_query_def Let_def split: prod.splits)

lemma handlers_wait:
  assumes "providers_lock (fst s) \<in> {Writer, Awaited n}"
  shows "switch_horizon_provider s = Blocked s" "get_horizon_providers_status now s = Blocked s"
  using assms by (simp_all add: switch_horizon_provider_def get_horizon_providers_status_def
      read_providers_waits del: insert_iff)

text \<open>A handler answers 200 exactly for a result; the error statuses are those of the node's errors.\<close>

lemma stellar_answer_status:
  "sr_status (stellar_answer r json) = 200 \<longleftrightarrow> (\<exists>x. r = Inr x)"
proof (cases r)
  case (Inl e)
  then show ?thesis using status_is_error [of e] by (auto simp: stellar_answer_def)
qed (simp add: stellar_answer_def)

text \<open>A transaction that was rejected is never reported as submitted.\<close>

lemma rejected_never_ok:
  "submit_transaction post xdr self w = (Inr response, n, w') \<Longrightarrow> tx_status response \<noteq> ''ERROR''"
  by (auto simp: submit_transaction_def Let_def split: prod.splits sum.splits if_splits)

text \<open>
  The indexer polls once per tick until it is told to stop. A poll that failed is repeated from the same
  ledger. After the last ledger a word can hold it starts again from the first one.
\<close>

lemma indexer_polls:
  "indexer_start post contract client l ws w = (es, starts, final, w') \<Longrightarrow>
     length starts = length (takeWhile (\<lambda>e. e = Tick) ws) \<and> (final = None \<longleftrightarrow> ShutdownRequested \<in> set ws)"
  by (induction post contract client l ws w arbitrary: es starts final w' rule: indexer_start.induct)
    (auto split: prod.splits)

lemma indexer_retries:
  assumes "indexer_start post contract client l (Tick # Tick # ws) w = (es, starts, final, w')"
    and "call post ''getEvents'' \<lparr>start_ledger = l, event_filters = [\<lparr>filter_event_type = ''contract'',
           filter_contract_ids = [contract], filter_topics = [[''AxionveraVault'']]\<rparr>]\<rparr> client w = (r, k, w1)"
  shows "starts ! 1 = (case r of Inl _ \<Rightarrow> l | Inr events_result \<Rightarrow> latest_ledger events_result + 1)"
  using assms by (cases r) (auto split: prod.splits)

end
