(* ===== verification/Node_Lifecycle.thy ===== *)
theory Node_Lifecycle
  imports Http_Server Signing
begin

text \<open>
  Model of \<open>network-node/src/lib.rs\<close>: the signing set-up when the node is created and the
  sequence of its graceful shutdown. Time is counted in the seconds the waiting loops sleep;
  \<open>http i\<close> and \<open>db i\<close> are the numbers of active requests and of busy database connections at
  second \<open>i\<close> of the shutdown. Starting the background tasks and the race between them is left out.
\<close>

section \<open>Signing set-up\<close>

definition setup_signing ::
  "('p, 'k, 'w) ed25519_if \<Rightarrow> ('k, 'w) kms_new \<Rightarrow> NetworkConfig \<Rightarrow> 'w \<Rightarrow>
     ('k, 'w) SigningService node_result \<times> 'w" where
  "setup_signing ed kms cfg w =
    (let install = (\<lambda>key_id signer w.
           case add_signer key_id signer (new_service (cache_ttl_seconds cfg)) w of
             (Inl e, _, w') \<Rightarrow> (Inl e, w')
           | (Inr _, service, w') \<Rightarrow>
               (case set_default_signer key_id service of
                  (Inl e, _) \<Rightarrow> (Inl e, w') | (Inr _, service') \<Rightarrow> (Inr service', w')))
     in case signing_config cfg of
       Some signer_config \<Rightarrow>
         (case create_signer ed kms signer_config w of
            (Inl e, w') \<Rightarrow> (Inl e, w')
          | (Inr signer, w') \<Rightarrow>
              (case sg_get_key_id signer w' of
                 (Inl e, w'') \<Rightarrow> (Inl e, w'')
               | (Inr key_id, w'') \<Rightarrow> install key_id signer w''))
     | None \<Rightarrow>
         let (s, w') = new_LocalSigner ed ''default_key.pem'' w in install ''default'' (local_signer ed s) w')"

section \<open>Graceful shutdown\<close>

text \<open>The number of seconds the wait for the database takes, at most thirty.\<close>

definition wait_for_database_operations :: "(nat \<Rightarrow> u32) \<Rightarrow> nat" where
  "wait_for_database_operations db = wait_loop 30 db 0"

record 'h node_state =
  http_server :: "'h EnhancedHttpServer"
  pool_closed :: bool

datatype drain = Completed | Expired

text \<open>
  The two waits run one after the other under a timeout of the grace period, which is looked at
  after the future it guards; neither wait fails. Closing the pool and the server follows in
  either case. The second result is the time spent waiting.
\<close>

definition node_shutdown :: "nat \<Rightarrow> (nat \<Rightarrow> usize) \<Rightarrow> (nat \<Rightarrow> u32) \<Rightarrow> 'h node_state \<Rightarrow> drain \<times> nat \<times> 'h node_state" where
  "node_shutdown grace_period http db self =
    (let self = self\<lparr>http_server := stop_accepting_new_connections (http_server self)\<rparr>;
         http_secs = wait_loop 60 http 0;
         db_secs = wait_for_database_operations (\<lambda>i. db (http_secs + i));
         shutdown_result = (if http_secs + db_secs \<le> grace_period then Completed else Expired);
         self = self\<lparr>pool_closed := True\<rparr>;
         self = self\<lparr>http_server := http_stop (http_server self)\<rparr>
     in (shutdown_result, min grace_period (http_secs + db_secs), self))"

section \<open>Outcome of the set-up\<close>

lemma add_signer_default:
  assumes "add_signer kid signer (new_service ttl) w = (Inr u, s, w')"
  shows "hm_get (signers s) kid = Some signer"
  using assms by (auto simp: add_signer_def Let_def new_service_def split: prod.splits sum.splits if_splits)

text \<open>A node that starts has a default signer.\<close>

lemma setup_has_default:
  assumes "setup_signing ed kms cfg w = (Inr service, w')"
  shows "\<exists>signer. get_default_signer service = Inr signer"
  using assms
  by (auto simp: setup_signing_def set_default_signer_def get_default_signer_def get_signer_def Let_def
      dest!: add_signer_default split: option.splits prod.splits sum.splits if_splits)

text \<open>Without a configuration the set-up succeeds; a configured HSM keeps the node from starting.\<close>

lemma setup_local_default:
  "signing_config cfg = None \<Longrightarrow> \<exists>service. fst (setup_signing ed kms cfg w) = Inr service"
  by (auto simp: setup_signing_def add_signer_def local_signer_def new_service_def set_default_signer_def Let_def
      split: prod.splits)

lemma setup_hsm_fails:
  "signing_config cfg = Some (Hsm slot code) \<Longrightarrow> fst (setup_signing ed kms cfg w) =
     Inl (Signer (''Signer health check failed for key_id: hsm:'' @ show_nat (unat slot)))"
  by (simp add: setup_signing_def add_signer_def hsm_signer_def new_HsmSigner_def Let_def)

section \<open>Outcome of the shutdown\<close>

lemma http_stop_simps [simp]:
  "is_accepting_connections (http_stop s) = is_accepting_connections s" "\<not> shutdown_tx (http_stop s)"
  "shutdown_signalled (http_stop s) \<longleftrightarrow> shutdown_tx s \<or> shutdown_signalled s"
  by (simp_all add: http_stop_def)

lemma shutdown_final:
  assumes "node_shutdown grace http db self = (d, secs, self')"
  shows "\<not> is_accepting_connections (http_server self') \<and> pool_closed self' \<and>
         (shutdown_tx (http_server self) \<longrightarrow> shutdown_signalled (http_server self')) \<and>
         \<not> shutdown_tx (http_server self') \<and> secs \<le> min grace 90"
proof -
  let ?n = "wait_loop 60 http 0"
  have "?n \<le> 60" "wait_for_database_operations (\<lambda>i. db (?n + i)) \<le> 30"
    using wait_loop_bounds [of 0 60 http] wait_loop_bounds [of 0 30 "\<lambda>i. db (?n + i)"]
    by (simp_all add: wait_for_database_operations_def)
  with assms show ?thesis
    by (auto simp: node_shutdown_def Let_def stop_accepting_new_connections_def)
qed

text \<open>
  An idle node is drained at once. A request that outlives its grace period, or a leaked count, lets the
  period expire unless it is longer than the two waits can take.
\<close>

lemma shutdown_idle: "http 0 = 0 \<Longrightarrow> db 0 = 0 \<Longrightarrow> fst (node_shutdown grace http db self) = Completed"
  by (simp add: node_shutdown_def Let_def wait_for_database_operations_def wait_loop.simps [of _ _ 0])

lemma shutdown_busy:
  assumes "\<And>i. i < 60 \<Longrightarrow> http i \<noteq> 0" "grace < 60"
  shows "fst (node_shutdown grace http db self) = Expired"
proof -
  have "\<not> wait_loop 60 http 0 < 60" using wait_loop_early [of 60 http 0] assms(1) by auto
  with assms(2) show ?thesis by (simp add: node_shutdown_def Let_def)
qed

end
