(* ===== verification/Kms_Signer.thy ===== *)
theory Kms_Signer
  imports Signing "HOL-Library.Sublist"
begin

text \<open>
  Model of \<open>network-node/src/aws_kms_signer.rs\<close> and of its retrying relative in
  \<open>amazon_eks.rs\<close>. The AWS client is a record of calls on the outside world: a call times out,
  fails with an error of the library, or answers. The payload of a library error is its
  rendered text; SHA-256, key parsing and sleeping are parameters, and so is the construction
  of the client from a configuration.
\<close>

section \<open>AWS client\<close>

datatype kms_error =
  NotFoundException string
| DisabledException string
| KeyUnavailableException string
| InvalidKeyUsageException string
| InvalidGrantTokenException string
| KmsInternalException string
| KmsInvalidStateException string
| DependencyTimeoutException string
| LimitExceededException string
| OtherException string

datatype 'a kms_answer = TimedOut | Refused kms_error | Answered "'a option"

datatype SigningAlgorithmSpec = Ed25519Spec | EcdsaSha256Spec

datatype MessageType = RawMessage | DigestMessage

record ('k, 'w) kms_client =
  kc_sign :: "string \<Rightarrow> u8 list \<Rightarrow> SigningAlgorithmSpec \<Rightarrow> MessageType \<Rightarrow> u64 \<Rightarrow> 'w \<Rightarrow> u8 list kms_answer \<times> 'w"
  kc_get_public_key :: "string \<Rightarrow> u64 \<Rightarrow> 'w \<Rightarrow> u8 list kms_answer \<times> 'w"
  kc_parse_key :: "u8 list \<Rightarrow> string + 'k"
  kc_show_error :: "kms_error \<Rightarrow> string"

text \<open>What both signers do with an answer: the three error paths and the value.\<close>

definition kms_value ::
  "(kms_error \<Rightarrow> NetworkError) \<Rightarrow> string \<Rightarrow> string \<Rightarrow> u64 \<Rightarrow> 'a kms_answer \<Rightarrow> 'a node_result" where
  "kms_value handle what missing ms answer =
    (case answer of
       TimedOut \<Rightarrow> Inl (KmsTimeout (what @ '' timed out after '' @ show_nat (unat ms) @ ''ms''))
     | Refused e \<Rightarrow> Inl (handle e)
     | Answered None \<Rightarrow> Inl (Kms (''No '' @ missing @ '' returned from KMS''))
     | Answered (Some x) \<Rightarrow> Inr x)"

record KmsConfig =
  kms_key_id :: string
  kms_region :: string
  kms_profile :: "string option"
  kms_endpoint_url :: "string option"
  kms_timeout_ms :: u64
  kms_max_retries :: u32
  kms_retry_delay_ms :: u64

definition default_KmsConfig :: KmsConfig where
  "default_KmsConfig = \<lparr>kms_key_id = [], kms_region = ''us-east-1'', kms_profile = None, kms_endpoint_url = None,
     kms_timeout_ms = 30000, kms_max_retries = 3, kms_retry_delay_ms = 1000\<rparr>"

section \<open>Signer of the node\<close>

fun handle_kms_error :: "(kms_error \<Rightarrow> string) \<Rightarrow> kms_error \<Rightarrow> NetworkError" where
  "handle_kms_error sh (NotFoundException e) = Kms (''Key not found: '' @ e)"
| "handle_kms_error sh (LimitExceededException e) = KmsRateLimit e"
| "handle_kms_error sh (DependencyTimeoutException e) = KmsTimeout e"
| "handle_kms_error sh e = Kms (''KMS error: '' @ sh e)"

definition attempt_sign :: "('k, 'w) kms_client \<Rightarrow> KmsConfig \<Rightarrow> u8 list \<Rightarrow> 'w \<Rightarrow> u8 list node_result \<times> 'w" where
  "attempt_sign client config message_hash w =
    (let (answer, w') = kc_sign client (kms_key_id config) message_hash Ed25519Spec RawMessage (kms_timeout_ms config) w
     in (kms_value (handle_kms_error (kc_show_error client)) ''Signing operation'' ''signature''
           (kms_timeout_ms config) answer, w'))"

definition attempt_get_public_key :: "('k, 'w) kms_client \<Rightarrow> KmsConfig \<Rightarrow> 'w \<Rightarrow> 'k node_result \<times> 'w" where
  "attempt_get_public_key client config w =
    (let (answer, w') = kc_get_public_key client (kms_key_id config) (kms_timeout_ms config) w
     in (rbind (kms_value (handle_kms_error (kc_show_error client)) ''Public key retrieval'' ''public key''
                  (kms_timeout_ms config) answer) (\<lambda>spki.
           if length spki \<noteq> 44
           then Inl (Kms (''Unexpected SPKI length for Ed25519: '' @ show_nat (length spki) @ ''. Expected 44 bytes.''))
           else case kc_parse_key client (drop 12 spki) of
             Inl e \<Rightarrow> Inl (Kms (''Invalid public key format: '' @ e))
           | Inr k \<Rightarrow> Inr k), w'))"

definition kms_signer :: "('k, 'w) kms_client \<Rightarrow> KmsConfig \<Rightarrow> ('k, 'w) Signer_if" where
  "kms_signer client config =
     \<lparr>sg_get_public_key = attempt_get_public_key client config,
      sg_sign = attempt_sign client config,
      sg_get_key_id = Pair (Inr (kms_key_id config)),
      sg_health_check =
        (\<lambda>w. let (r, w') = attempt_get_public_key client config w in (Inr (case r of Inl _ \<Rightarrow> False | Inr _ \<Rightarrow> True), w'))\<rparr>"

definition kms_with_config ::
  "(KmsConfig \<Rightarrow> ('k, 'w) kms_client) \<Rightarrow> KmsConfig \<Rightarrow> 'w \<Rightarrow> ('k, 'w) Signer_if node_result \<times> 'w" where
  "kms_with_config connect config w =
    (let signer = kms_signer (connect config) config in
     case sg_health_check signer w of
       (Inl e, w') \<Rightarrow> (Inl e, w')
     | (Inr _, w') \<Rightarrow> (Inr signer, w'))"

definition new_KmsSigner :: "(KmsConfig \<Rightarrow> ('k, 'w) kms_client) \<Rightarrow> ('k, 'w) kms_new" where
  "new_KmsSigner connect kid reg prof =
     kms_with_config connect (default_KmsConfig\<lparr>kms_key_id := kid, kms_region := reg, kms_profile := prof\<rparr>)"

section \<open>Retrying signer\<close>

fun eks_handle_kms_error :: "(kms_error \<Rightarrow> string) \<Rightarrow> kms_error \<Rightarrow> NetworkError" where
  "eks_handle_kms_error sh (NotFoundException m) = Kms (''KMS key not found: '' @ m)"
| "eks_handle_kms_error sh (DisabledException m) = Kms (''KMS key is disabled: '' @ m)"
| "eks_handle_kms_error sh (KeyUnavailableException m) = Kms (''KMS key is unavailable: '' @ m)"
| "eks_handle_kms_error sh (InvalidKeyUsageException m) = Kms (''Invalid key usage for signing: '' @ m)"
| "eks_handle_kms_error sh (InvalidGrantTokenException m) = Kms (''Invalid grant token: '' @ m)"
| "eks_handle_kms_error sh (KmsInternalException m) = Kms (''KMS internal error: '' @ m)"
| "eks_handle_kms_error sh (KmsInvalidStateException m) = Kms (''KMS invalid state: '' @ m)"
| "eks_handle_kms_error sh (DependencyTimeoutException m) = KmsTimeout (''KMS dependency timeout: '' @ m)"
| "eks_handle_kms_error sh (LimitExceededException m) = KmsRateLimit (''KMS rate limit exceeded: '' @ m)"
| "eks_handle_kms_error sh (OtherException m) = Kms (''KMS error: '' @ sh (OtherException m))"

fun should_retry :: "NetworkError \<Rightarrow> bool" where
  "should_retry (KmsTimeout _) = True"
| "should_retry (Kms msg) =
     list_ex (\<lambda>part. sublist part msg)
       [''Throttling'', ''Rate exceeded'', ''Internal failure'', ''Service unavailable'', ''Request timeout'']"
| "should_retry _ = False"

text \<open>
  The loop both retrying calls share, over the attempts that are left; \<open>sleep\<close> passes the
  retry delay.
\<close>

fun retry_loop ::
  "('w \<Rightarrow> 'a node_result \<times> 'w) \<Rightarrow> ('w \<Rightarrow> 'w) \<Rightarrow> nat \<Rightarrow> NetworkError option \<Rightarrow> 'w \<Rightarrow> 'a node_result \<times> 'w" where
  "retry_loop attempt sleep 0 last_error w =
     (Inl (unwrap_or (Kms ''All retry attempts failed'') last_error), w)"
| "retry_loop attempt sleep (Suc left) last_error w =
    (case attempt w of
       (Inr x, w') \<Rightarrow> (Inr x, w')
     | (Inl e, w') \<Rightarrow>
         if \<not> should_retry e \<or> left = 0 then (Inl e, w')
         else retry_loop attempt sleep left (Some e) (sleep w'))"

definition eks_attempt_sign ::
  "(u8 list \<Rightarrow> u8 list) \<Rightarrow> ('k, 'w) kms_client \<Rightarrow> KmsConfig \<Rightarrow> u8 list \<Rightarrow> 'w \<Rightarrow> u8 list node_result \<times> 'w" where
  "eks_attempt_sign sha256 client config message w =
    (let (answer, w') = kc_sign client (kms_key_id config) (sha256 message) EcdsaSha256Spec DigestMessage
                          (kms_timeout_ms config) w
     in (kms_value (eks_handle_kms_error (kc_show_error client)) ''Signing operation'' ''signature''
           (kms_timeout_ms config) answer, w'))"

definition eks_attempt_get_public_key :: "('k, 'w) kms_client \<Rightarrow> KmsConfig \<Rightarrow> 'w \<Rightarrow> 'k node_result \<times> 'w" where
  "eks_attempt_get_public_key client config w =
    (let (answer, w') = kc_get_public_key client (kms_key_id config) (kms_timeout_ms config) w
     in (rbind (kms_value (eks_handle_kms_error (kc_show_error client)) ''Public key retrieval'' ''public key''
                  (kms_timeout_ms config) answer) (\<lambda>bytes.
           case kc_parse_key client bytes of
             Inl e \<Rightarrow> Inl (Kms (''Invalid public key format: '' @ e))
           | Inr k \<Rightarrow> Inr k), w'))"

definition sign_with_retry ::
  "(u8 list \<Rightarrow> u8 list) \<Rightarrow> (u64 \<Rightarrow> 'w \<Rightarrow> 'w) \<Rightarrow> ('k, 'w) kms_client \<Rightarrow> KmsConfig \<Rightarrow> u8 list \<Rightarrow> 'w \<Rightarrow>
     u8 list node_result \<times> 'w" where
  "sign_with_retry sha256 sleep client config message =
     retry_loop (eks_attempt_sign sha256 client config message) (sleep (kms_retry_delay_ms config))
       (unat (kms_max_retries config)) None"

definition get_public_key_with_retry ::
  "(u64 \<Rightarrow> 'w \<Rightarrow> 'w) \<Rightarrow> ('k, 'w) kms_client \<Rightarrow> KmsConfig \<Rightarrow> 'w \<Rightarrow> 'k node_result \<times> 'w" where
  "get_public_key_with_retry sleep client config =
     retry_loop (eks_attempt_get_public_key client config) (sleep (kms_retry_delay_ms config))
       (unat (kms_max_retries config)) None"

definition eks_signer ::
  "(u8 list \<Rightarrow> u8 list) \<Rightarrow> (u64 \<Rightarrow> 'w \<Rightarrow> 'w) \<Rightarrow> ('k, 'w) kms_client \<Rightarrow> KmsConfig \<Rightarrow> ('k, 'w) Signer_if" where
  "eks_signer sha256 sleep client config =
     \<lparr>sg_get_public_key = get_public_key_with_retry sleep client config,
      sg_sign = sign_with_retry sha256 sleep client config,
      sg_get_key_id = Pair (Inr (kms_key_id config)),
      sg_health_check =
        (\<lambda>w. let (r, w') = eks_attempt_get_public_key client config w
              in (Inr (case r of Inl _ \<Rightarrow> False | Inr _ \<Rightarrow> True), w'))\<rparr>"

definition eks_with_config ::
  "(u8 list \<Rightarrow> u8 list) \<Rightarrow> (u64 \<Rightarrow> 'w \<Rightarrow> 'w) \<Rightarrow> (KmsConfig \<Rightarrow> 'w \<Rightarrow> ('k, 'w) kms_client node_result \<times> 'w) \<Rightarrow>
     KmsConfig \<Rightarrow> 'w \<Rightarrow> ('k, 'w) Signer_if node_result \<times> 'w" where
  "eks_with_config sha256 sleep connect config w =
    (case connect config w of
       (Inl e, w') \<Rightarrow> (Inl e, w')
     | (Inr client, w') \<Rightarrow>
         let signer = eks_signer sha256 sleep client config in
         case sg_health_check signer w' of
           (Inl e, w'') \<Rightarrow> (Inl e, w'')
         | (Inr _, w'') \<Rightarrow> (Inr signer, w''))"

section \<open>Retrying\<close>

text \<open>
  The world before the attempt with a given number, when all earlier ones failed. The loop
  returns what the first attempt returns that succeeds, fails for good or is the last allowed.
\<close>

fun before_attempt :: "('w \<Rightarrow> 'a node_result \<times> 'w) \<Rightarrow> ('w \<Rightarrow> 'w) \<Rightarrow> nat \<Rightarrow> 'w \<Rightarrow> 'w" where
  "before_attempt attempt sleep 0 w = w"
| "before_attempt attempt sleep (Suc i) w = before_attempt attempt sleep i (sleep (snd (attempt w)))"

definition transient :: "'a node_result \<Rightarrow> bool" where
  "transient r \<longleftrightarrow> (case r of Inl e \<Rightarrow> should_retry e | Inr _ \<Rightarrow> False)"

lemma retry_loop_spec:
  assumes "0 < n"
  shows "\<exists>i < n. retry_loop attempt sleep n le w = attempt (before_attempt attempt sleep i w) \<and>
    (\<forall>j < i. transient (fst (attempt (before_attempt attempt sleep j w)))) \<and>
    (i = n - 1 \<or> \<not> transient (fst (attempt (before_attempt attempt sleep i w))))"
  using assms
proof (induction n arbitrary: le w)
  case (Suc n)
  obtain r w' where a: "attempt w = (r, w')" by (cases "attempt w")
  show ?case
  proof (cases "transient r \<and> 0 < n")
    case True
    then obtain e where e: "r = Inl e" "should_retry e" by (auto simp: transient_def split: sum.splits)
    from Suc.IH [of "Some e" "sleep w'"] True obtain i where i: "i < n"
      "retry_loop attempt sleep n (Some e) (sleep w') = attempt (before_attempt attempt sleep i (sleep w'))"
      "\<forall>j < i. transient (fst (attempt (before_attempt attempt sleep j (sleep w'))))"
      "i = n - 1 \<or> \<not> transient (fst (attempt (before_attempt attempt sleep i (sleep w'))))" by blast
    have "transient (fst (attempt (before_attempt attempt sleep j w)))" if "j < Suc i" for j
      using that i(3) True a by (cases j) auto
    with i a e True show ?thesis by (intro exI [of _ "Suc i"]) auto
  next
    case False
    then have "retry_loop attempt sleep (Suc n) le w = attempt w"
      using a by (auto simp: transient_def split: sum.splits)
    with a False show ?thesis by (intro exI [of _ 0]) auto
  qed
qed simp

text \<open>A rate limit is never retried, and without attempts the client is not called.\<close>

lemma rate_limit_not_retried:
  "attempt w = (Inl (KmsRateLimit m), w') \<Longrightarrow> 0 < n \<Longrightarrow> retry_loop attempt sleep n le w = (Inl (KmsRateLimit m), w')"
  by (cases n) simp_all

lemma no_attempts: "retry_loop attempt sleep 0 None w = (Inl (Kms ''All retry attempts failed''), w)"
  by simp

section \<open>Construction\<close>

text \<open>The connection test of a new signer never rejects it.\<close>

lemma kms_with_config_accepts:
  "fst (kms_with_config connect config w) = Inr (kms_signer (connect config) config)"
  by (simp add: kms_with_config_def kms_signer_def split: prod.splits)

text \<open>Added to a service it is rejected all the same while its key cannot be read.\<close>

lemma unreachable_kms_not_added:
  assumes "attempt_get_public_key client config w = (Inl e, w')"
  shows "add_signer kid (kms_signer client config) s w =
           (Inl (Signer (''Signer health check failed for key_id: '' @ kid)), s, w')"
  using assms by (simp add: add_signer_def kms_signer_def)

end
