(* ===== verification/Crypto_Pool.thy ===== *)
theory Crypto_Pool
  imports Node_Errors "HOL-Library.Multiset"
begin

text \<open>
  Model of \<open>network-node/src/crypto.rs\<close>: the pool that verifies signatures. Workers and the
  batch processor take requests from one queue; only the batch processor produces results. The
  source hands the one receiving end of the channel to all of them, which the channel does not
  allow; the model takes the evident meaning, that each request is taken by exactly one of them.
  Ed25519 is a parameter; identifiers, durations and instants are arguments. Counters stay below
  the word size because they count the elements of a list.
\<close>

section \<open>Requests and results\<close>

record SignatureVerificationRequest =
  req_id :: string
  req_public_key :: "u8 list"
  req_message :: "u8 list"
  req_signature :: "u8 list"
  req_timestamp :: int

record SignatureVerificationResult =
  res_request_id :: string
  is_valid :: bool
  res_error :: "string option"
  verification_time_ms :: u64
  res_timestamp :: int

record BatchVerificationResult =
  batch_id :: string
  total_requests :: nat
  valid_signatures :: nat
  invalid_signatures :: nat
  failed_verifications :: "string list"
  total_time_ms :: u64
  batch_results :: "SignatureVerificationResult list"
  batch_timestamp :: int

record ('k, 's) verifier_if =
  vf_public_key :: "u8 list \<Rightarrow> string + 'k"
  vf_signature :: "u8 list \<Rightarrow> string + 's"
  vf_verify :: "'k \<Rightarrow> u8 list \<Rightarrow> 's \<Rightarrow> string + unit"

definition crypto_err :: "string \<Rightarrow> string + 'a \<Rightarrow> 'a node_result" where
  "crypto_err prefix r = (case r of Inl e \<Rightarrow> Inl (Crypto (prefix @ e)) | Inr x \<Rightarrow> Inr x)"

definition verify_signature :: "('k, 's) verifier_if \<Rightarrow> SignatureVerificationRequest \<Rightarrow> unit node_result" where
  "verify_signature vf request =
     rbind (crypto_err ''Invalid public key: '' (vf_public_key vf (req_public_key request))) (\<lambda>public_key.
     rbind (crypto_err ''Invalid signature: '' (vf_signature vf (req_signature request))) (\<lambda>signature.
     crypto_err ''Signature verification failed: '' (vf_verify vf public_key (req_message request) signature)))"

definition verification_result ::
  "('k, 's) verifier_if \<Rightarrow> (SignatureVerificationRequest \<Rightarrow> u64 \<times> int) \<Rightarrow> SignatureVerificationRequest \<Rightarrow>
     SignatureVerificationResult" where
  "verification_result vf stamps request =
    (let r = verify_signature vf request in
     \<lparr>res_request_id = req_id request, is_valid = (case r of Inl _ \<Rightarrow> False | Inr _ \<Rightarrow> True),
      res_error = (case r of Inl e \<Rightarrow> Some (display_NetworkError e) | Inr _ \<Rightarrow> None),
      verification_time_ms = fst (stamps request), res_timestamp = snd (stamps request)\<rparr>)"

text \<open>The loop over a batch, with the variables it accumulates.\<close>

fun batch_loop ::
  "('k, 's) verifier_if \<Rightarrow> (SignatureVerificationRequest \<Rightarrow> u64 \<times> int) \<Rightarrow> SignatureVerificationRequest list \<Rightarrow>
     SignatureVerificationResult list \<Rightarrow> nat \<Rightarrow> nat \<Rightarrow> string list \<Rightarrow>
     SignatureVerificationResult list \<times> nat \<times> nat \<times> string list" where
  "batch_loop vf stamps [] results valid_count invalid_count failed = (results, valid_count, invalid_count, failed)"
| "batch_loop vf stamps (request # batch) results valid_count invalid_count failed =
    (let r = verification_result vf stamps request in
     if is_valid r
     then batch_loop vf stamps batch (results @ [r]) (valid_count + 1) invalid_count failed
     else batch_loop vf stamps batch (results @ [r]) valid_count (invalid_count + 1) (failed @ [req_id request]))"

definition process_batch ::
  "('k, 's) verifier_if \<Rightarrow> (SignatureVerificationRequest \<Rightarrow> u64 \<times> int) \<Rightarrow> string \<Rightarrow> u64 \<Rightarrow> int \<Rightarrow>
     SignatureVerificationRequest list \<Rightarrow> BatchVerificationResult" where
  "process_batch vf stamps bid elapsed now batch =
    (let (results, valid_count, invalid_count, failed) = batch_loop vf stamps batch [] 0 0 []
     in \<lparr>batch_id = bid, total_requests = length batch, valid_signatures = valid_count,
         invalid_signatures = invalid_count, failed_verifications = failed, total_time_ms = elapsed,
         batch_results = results, batch_timestamp = now\<rparr>)"

section \<open>Pool\<close>

record CryptoWorkerPool =
  work_queue :: "SignatureVerificationRequest list"
  pending_requests :: "(string, SignatureVerificationRequest) hash_map"
  batch :: "SignatureVerificationRequest list"
  result_queue :: "BatchVerificationResult list"
  pool_batch_size :: nat
  pool_batch_timeout_ms :: u64
  worker_count :: nat

definition new_pool :: "nat \<Rightarrow> nat \<Rightarrow> u64 \<Rightarrow> CryptoWorkerPool" where
  "new_pool workers bs timeout =
     \<lparr>work_queue = [], pending_requests = [], batch = [], result_queue = [], pool_batch_size = bs,
      pool_batch_timeout_ms = timeout, worker_count = workers\<rparr>"

text \<open>Submission; sending fails once all receivers are gone.\<close>

fun verify_signature_batch ::
  "string option \<Rightarrow> SignatureVerificationRequest list \<Rightarrow> CryptoWorkerPool \<Rightarrow> unit node_result \<times> CryptoWorkerPool" where
  "verify_signature_batch closed [] self = (Inr (), self)"
| "verify_signature_batch closed (request # requests) self =
    (let self = self\<lparr>pending_requests := hm_insert (req_id request) request (pending_requests self)\<rparr> in
     case closed of
       Some e \<Rightarrow>
         (Inl (Crypto (''Failed to queue verification request: '' @ e)),
          self\<lparr>pending_requests := hm_remove (req_id request) (pending_requests self)\<rparr>)
     | None \<Rightarrow> verify_signature_batch closed requests (self\<lparr>work_queue := work_queue self @ [request]\<rparr>))"

text \<open>One turn of a worker: the outcome of the verification is only logged.\<close>

definition worker_turn :: "CryptoWorkerPool \<Rightarrow> CryptoWorkerPool" where
  "worker_turn self =
    (case work_queue self of
       [] \<Rightarrow> self
     | request # rest \<Rightarrow>
         self\<lparr>work_queue := rest, pending_requests := hm_remove (req_id request) (pending_requests self)\<rparr>)"

text \<open>The two branches of the batch processor; \<open>finish\<close> is the processing of a batch.\<close>

definition flush :: "(SignatureVerificationRequest list \<Rightarrow> BatchVerificationResult) \<Rightarrow> CryptoWorkerPool \<Rightarrow> CryptoWorkerPool" where
  "flush finish self = self\<lparr>result_queue := result_queue self @ [finish (batch self)], batch := []\<rparr>"

definition processor_receive ::
  "(SignatureVerificationRequest list \<Rightarrow> BatchVerificationResult) \<Rightarrow> CryptoWorkerPool \<Rightarrow> CryptoWorkerPool" where
  "processor_receive finish self =
    (case work_queue self of
       [] \<Rightarrow> self
     | request # rest \<Rightarrow>
         let self = self\<lparr>work_queue := rest, batch := batch self @ [request]\<rparr>
         in if pool_batch_size self \<le> length (batch self) then flush finish self else self)"

definition processor_timer ::
  "(SignatureVerificationRequest list \<Rightarrow> BatchVerificationResult) \<Rightarrow> u64 \<Rightarrow> CryptoWorkerPool \<Rightarrow> CryptoWorkerPool" where
  "processor_timer finish since self =
    (if batch self \<noteq> [] \<and> pool_batch_timeout_ms self \<le> since then flush finish self else self)"

record CryptoWorkerPoolStats =
  stat_worker_count :: nat
  stat_pending_requests :: nat
  stat_available_workers :: nat
  stat_batch_size :: nat
  stat_batch_timeout_ms :: u64

text \<open>The batch processor is counted among the workers; the free permits of the semaphore are given.\<close>

definition pool_stats :: "nat \<Rightarrow> CryptoWorkerPool \<Rightarrow> CryptoWorkerPoolStats" where
  "pool_stats available_permits self =
     \<lparr>stat_worker_count = worker_count self + 1, stat_pending_requests = length (pending_requests self),
      stat_available_workers = available_permits, stat_batch_size = pool_batch_size self,
      stat_batch_timeout_ms = pool_batch_timeout_ms self\<rparr>"

section \<open>Batches\<close>

lemma batch_loop_eq:
  "batch_loop vf stamps bs results v i failed =
     (results @ map (verification_result vf stamps) bs,
      v + length (filter (is_valid \<circ> verification_result vf stamps) bs),
      i + length (filter (Not \<circ> is_valid \<circ> verification_result vf stamps) bs),
      failed @ map req_id (filter (Not \<circ> is_valid \<circ> verification_result vf stamps) bs))"
  by (induction bs arbitrary: results v i failed) (auto simp: Let_def)

lemma process_batch_counts:
  assumes "r = process_batch vf stamps bid elapsed now bs"
  shows "valid_signatures r + invalid_signatures r = total_requests r"
    "length (failed_verifications r) = invalid_signatures r"
    "map res_request_id (batch_results r) = map req_id bs"
proof -
  show "valid_signatures r + invalid_signatures r = total_requests r"
    unfolding assms process_batch_def
    using sum_length_filter_compl [of "is_valid \<circ> verification_result vf stamps" bs] by (simp add: batch_loop_eq comp_def)
  show "length (failed_verifications r) = invalid_signatures r"
    unfolding assms by (simp add: process_batch_def batch_loop_eq)
  show "map res_request_id (batch_results r) = map req_id bs"
    unfolding assms by (simp add: process_batch_def batch_loop_eq verification_result_def comp_def Let_def)
qed

lemma verification_result_valid: "is_valid (verification_result vf stamps r) \<longleftrightarrow> verify_signature vf r = Inr ()"
  by (auto simp: verification_result_def Let_def split: sum.splits)

section \<open>Turns of the pool\<close>

inductive pool_turn :: "('k, 's) verifier_if \<Rightarrow> CryptoWorkerPool \<Rightarrow> CryptoWorkerPool \<Rightarrow> bool"
  for vf :: "('k, 's) verifier_if" where
  turn_submit: "verify_signature_batch None requests p = (r, p') \<Longrightarrow> pool_turn vf p p'"
| turn_worker: "pool_turn vf p (worker_turn p)"
| turn_receive: "pool_turn vf p (processor_receive (process_batch vf stamps bid elapsed now) p)"
| turn_timer: "pool_turn vf p (processor_timer (process_batch vf stamps bid elapsed now) since p)"

lemma submit_frame:
  "verify_signature_batch closed requests p = (r, p') \<Longrightarrow>
     batch p' = batch p \<and> result_queue p' = result_queue p \<and> pool_batch_size p' = pool_batch_size p"
  by (induction closed requests p rule: verify_signature_batch.induct) (auto simp: Let_def split: option.splits)

text \<open>
  A waiting batch is always smaller than the batch size, and no result is empty or larger than
  the batch size.
\<close>

definition pool_ok :: "CryptoWorkerPool \<Rightarrow> bool" where
  "pool_ok p \<longleftrightarrow> 0 < pool_batch_size p \<and> length (batch p) < pool_batch_size p \<and>
     (\<forall>r \<in> set (result_queue p). 0 < total_requests r \<and> total_requests r \<le> pool_batch_size p)"

lemma pool_ok_new: "0 < bs \<Longrightarrow> pool_ok (new_pool workers bs timeout)"
  by (simp add: pool_ok_def new_pool_def)

lemma total_process_batch [simp]: "total_requests (process_batch vf stamps bid elapsed now bs) = length bs"
  by (simp add: process_batch_def split: prod.splits)

lemma pool_ok_turn: "pool_turn vf p p' \<Longrightarrow> pool_ok p \<Longrightarrow> pool_ok p'"
proof (induction rule: pool_turn.induct)
  case (turn_submit requests p r p')
  then show ?case using submit_frame [OF turn_submit(1)] by (simp add: pool_ok_def)
qed (auto simp: pool_ok_def worker_turn_def processor_receive_def processor_timer_def flush_def Let_def split: list.splits)

text \<open>The batch processor never takes a request off the pending table: only workers do.\<close>

lemma processor_keeps_pending:
  "pending_requests (processor_receive f p) = pending_requests p"
  "pending_requests (processor_timer f since p) = pending_requests p"
  by (simp_all add: processor_receive_def processor_timer_def flush_def Let_def split: list.splits)

text \<open>And a request taken by a worker never shows in a result.\<close>

lemma worker_gives_no_result: "result_queue (worker_turn p) = result_queue p" "batch (worker_turn p) = batch p"
  by (simp_all add: worker_turn_def split: list.splits)

end
