(* ===== verification/Peer_Service.thy ===== *)
theory Peer_Service
  imports Network_Service
begin

text \<open>
  Model of the remaining gRPC services: \<open>grpc/p2p_service.rs\<close> over the peer manager, and
  \<open>grpc/health_service.rs\<close> and \<open>grpc/vault_service.rs\<close>, which ask the database. The answer of
  the database, the parsing of an address, random numbers and the clock are arguments. The
  variant of the node's error that a disconnection reports is not declared in the source, so
  its text is a parameter. The stream of health updates is left out: its task reads the answer of
  the pool as a pair, which it is not.
\<close>

section \<open>Peers\<close>

record PeerConnectionResponse =
  pc_success :: bool
  pc_peer_id :: string
  pc_session_id :: string
  pc_error_message :: string

record PeerDisconnectionResponse =
  pd_success :: bool
  pd_error_message :: string

record ProtoPeerInfo =
  pi_peer_id :: string
  pi_address :: string
  pi_is_connected :: bool
  pi_last_seen :: "Timestamp option"
  pi_latency_ms :: u64
  pi_version :: string
  pi_metadata :: "(string, string) hash_map"

record BroadcastResponse =
  bc_success :: bool
  bc_recipients_count :: u64
  bc_failed_peers :: "string list"
  bc_message_id :: string

record BlockData =
  bd_block_number :: u64
  bd_block_hash :: string
  bd_timestamp :: "Timestamp option"
  bd_transactions :: "TransactionInfo list"
  bd_state_root :: "u8 list"

record SyncResponse =
  sy_success :: bool
  sy_blocks :: "BlockData list"
  sy_total_blocks :: u64
  sy_sync_id :: string

text \<open>Connecting succeeds in the manager whatever the peer, so there is no failing branch.\<close>

definition p2p_connect ::
  "(string \<Rightarrow> string + string) \<Rightarrow> int \<Rightarrow> string \<Rightarrow> string \<Rightarrow> string \<Rightarrow> P2PManager \<Rightarrow>
     PeerConnectionResponse grpc_result \<times> P2PManager" where
  "p2p_connect parse now random peer_address pid self =
    (case parse peer_address of
       Inl e \<Rightarrow> (Inl (Status InvalidArgument (''Invalid peer address: '' @ e)), self)
     | Inr addr \<Rightarrow>
         let (session, self') = connect_to_peer now random addr pid self
         in (Inr \<lparr>pc_success = True, pc_peer_id = pid, pc_session_id = session, pc_error_message = []\<rparr>, self'))"

definition p2p_disconnect ::
  "(P2pError \<Rightarrow> string) \<Rightarrow> string \<Rightarrow> P2PManager \<Rightarrow> PeerDisconnectionResponse grpc_result \<times> P2PManager" where
  "p2p_disconnect show_error pid self =
    (case disconnect_from_peer pid self of
       Inr self' \<Rightarrow> (Inr \<lparr>pd_success = True, pd_error_message = []\<rparr>, self')
     | Inl e \<Rightarrow> (Inr \<lparr>pd_success = False, pd_error_message = ''Disconnection failed: '' @ show_error e\<rparr>, self))"

text \<open>The clock is read once per peer; \<open>clocks\<close> gives the reading for each position.\<close>

fun peer_infos :: "(nat \<Rightarrow> epoch_clock) \<Rightarrow> nat \<Rightarrow> string PeerInfo list \<Rightarrow> ProtoPeerInfo list grpc_result" where
  "peer_infos clocks i [] = Inr []"
| "peer_infos clocks i (peer # peers) =
     rbind (internal [] (read_clock (clocks i))) (\<lambda>ts.
     rbind (peer_infos clocks (Suc i) peers) (\<lambda>infos.
       Inr (\<lparr>pi_peer_id = peer_id peer, pi_address = address peer, pi_is_connected = is_connected peer,
             pi_last_seen = Some ts, pi_latency_ms = latency_ms peer, pi_version = peer_version peer,
             pi_metadata = hm_insert ''region'' ''us-east-1'' (hm_insert ''version'' (peer_version peer) [])\<rparr> # infos)))"

definition p2p_peer_list :: "(nat \<Rightarrow> epoch_clock) \<Rightarrow> P2PManager \<Rightarrow> ProtoPeerInfo list grpc_result" where
  "p2p_peer_list clocks self = peer_infos clocks 0 (get_peer_list self)"

definition p2p_broadcast :: "u64 \<Rightarrow> string list \<Rightarrow> P2PManager \<Rightarrow> BroadcastResponse grpc_result" where
  "p2p_broadcast random target_peers self =
    (let (recipients, failed) = broadcast_message target_peers self
     in Inr \<lparr>bc_success = True, bc_recipients_count = of_nat recipients, bc_failed_peers = failed,
             bc_message_id = ''msg_'' @ show_nat (unat random)\<rparr>)"

text \<open>The number of blocks is computed without a check and wraps when the end is before the start.\<close>

definition sync_chain ::
  "u64 \<Rightarrow> u64 \<Rightarrow> u64 \<Rightarrow> epoch_clock \<Rightarrow> u64 \<Rightarrow> u64 \<Rightarrow> SyncResponse grpc_result" where
  "sync_chain random1 random2 random3 clock start_block end_block =
     rbind (internal [] (read_clock clock)) (\<lambda>ts.
       Inr \<lparr>sy_success = True,
            sy_blocks =
              [\<lparr>bd_block_number = start_block, bd_block_hash = hex64 (unat random1), bd_timestamp = Some ts,
                bd_transactions =
                  [\<lparr>ti_transaction_hash = hex64 (unat random2), ti_transaction_type = TxDeposit,
                    ti_user_address = ''0x1234567890123456789012345678901234567890'', ti_amount = ''1000000'',
                    ti_token_address = ''0xtokenaddress'', ti_status = TxConfirmed, ti_timestamp = Some ts,
                    ti_block_number = start_block, ti_gas_used = 21000\<rparr>],
                bd_state_root = replicate 32 0\<rparr>],
            sy_total_blocks = end_block - start_block + 1,
            sy_sync_id = ''sync_'' @ show_nat (unat random3)\<rparr>)"

section \<open>Health\<close>

datatype HealthStatus = HealthUnspecified | Serving | NotServing | HealthUnknown

record HealthCheckResponse =
  health_status :: HealthStatus
  health_message :: string
  health_timestamp :: "Timestamp option"
  health_details :: "(string, string) hash_map"

text \<open>The pool of \<open>database.rs\<close> answers a failing query with \<open>Ok(false)\<close>; \<open>query\<close> is the query's outcome.\<close>

definition pool_health_check :: "string + unit \<Rightarrow> string + bool" where
  "pool_health_check query = (case query of Inr _ \<Rightarrow> Inr True | Inl _ \<Rightarrow> Inr False)"

definition check_database_health :: "string + unit \<Rightarrow> bool \<times> string" where
  "check_database_health query =
    (case pool_health_check query of
       Inr _ \<Rightarrow> (True, ''Database connection healthy'')
     | Inl e \<Rightarrow> (False, ''Database connection failed: '' @ e))"

definition health_summary :: "bool \<Rightarrow> HealthStatus \<times> string \<times> (string, string) hash_map" where
  "health_summary db_healthy =
    (let details = hm_insert ''cpu_usage'' ''23%'' (hm_insert ''memory_usage'' ''45%''
           (hm_insert ''database'' (if db_healthy then ''healthy'' else ''unhealthy'') []));
         status = (if db_healthy then Serving else NotServing)
     in (status, if status = Serving then ''All systems operational'' else ''Some systems are unhealthy'', details))"

definition check_overall_health :: "string + unit \<Rightarrow> HealthStatus \<times> string \<times> (string, string) hash_map" where
  "check_overall_health query = health_summary (fst (check_database_health query))"

definition health_check :: "string + unit \<Rightarrow> epoch_clock \<Rightarrow> HealthCheckResponse grpc_result" where
  "health_check query clock =
    (let (status, message, details) = check_overall_health query in
     rbind (internal [] (read_clock clock)) (\<lambda>ts.
       Inr \<lparr>health_status = status, health_message = message, health_timestamp = Some ts, health_details = details\<rparr>))"

section \<open>Vault\<close>

datatype sql_error = RowNotFound | OtherSqlError

definition vault_get_tvl :: "sql_error + string \<Rightarrow> string grpc_result" where
  "vault_get_tvl query =
    (case query of
       Inl RowNotFound \<Rightarrow> Inl (Status NotFoundCode ''vault deposits not found'')
     | Inl OtherSqlError \<Rightarrow> Inl (Status InternalCode ''failed to fetch vault TVL'')
     | Inr tvl \<Rightarrow> Inr tvl)"

section \<open>Behaviour\<close>

text \<open>A failing database is reported as healthy, because the service only looks for an error.\<close>

lemma database_always_healthy: "fst (check_database_health query)"
  by (simp add: check_database_health_def pool_health_check_def split: sum.splits)

lemma health_check_always_serving: "health_check query clock = Inr r \<Longrightarrow> health_status r = Serving"
  by (auto simp: health_check_def check_overall_health_def health_summary_def database_always_healthy
      Let_def rbind_Inr_iff)

text \<open>The block count is right exactly when the range is in order and shorter than the word.\<close>

lemma sync_count:
  assumes "sync_chain r1 r2 r3 clock a b = Inr r" "a \<le> b" "unat b - unat a < 2 ^ 64 - 1"
  shows "unat (sy_total_blocks r) = unat b - unat a + 1"
proof -
  have "sy_total_blocks r = b - a + 1" using assms(1) by (auto simp: sync_chain_def rbind_Inr_iff)
  moreover have d: "unat (b - a) = unat b - unat a" using assms(2) by (rule unat_sub)
  moreover have "b - a \<noteq> - 1"
  proof
    assume "b - a = - 1"
    then have "unat (b - a) = 2 ^ 64 - 1" by (simp add: unsigned_minus_1_eq_mask mask_eq_exp_minus_1)
    with d assms(3) show False by simp
  qed
  ultimately show ?thesis using unat_Suc [of "b - a"] by simp
qed

text \<open>Connecting and disconnecting leave the other peers as they were.\<close>

lemma connect_then_disconnect:
  assumes "p2p_connect parse now rnd addr pid m = (Inr r, m1)" "p2p_disconnect sh pid m1 = (Inr d, m2)"
  shows "pd_success d" "hm_get (connected_peers m2) pid = None"
    "q \<noteq> pid \<Longrightarrow> hm_get (connected_peers m2) q = hm_get (connected_peers m) q"
  using assms
  by (auto simp: p2p_connect_def p2p_disconnect_def connect_to_peer_def disconnect_from_peer_def Let_def
      split: sum.splits)

end
