(* ===== verification/Spec2Isabelle.thy ===== *)
theory Spec2Isabelle
  imports Vault_Properties Vault_Reward_Properties Vault_Admin_Properties Chain_Properties Consensus_Properties
    Network_Properties Resilience_Properties Horizon_Properties Service_Properties
    Http_Properties Stellar_Service Node_Lifecycle Kms_Signer Crypto_Pool Peer_Service
begin

text \<open>
  \<^bold>\<open>Axionvera network: the vault contract and the network node\<close>

  The program has two parts. The \<^emph>\<open>vault contract\<close> (\<open>contracts/vault-contract/src\<close>) is a
  Soroban contract that holds deposits of a native token and of further assets, locks them, and
  shares rewards by a global index; a second version (\<open>contracts/vault-contract-v2\<close>) replaces its
  code over the same storage. The \<^emph>\<open>network node\<close> (\<open>network-node/src\<close>) keeps the chain
  parameters and their governance, a consensus engine, a peer table, a state commitment, rate
  limits, clients of Horizon and of Soroban RPC, a signing service, and serves all of this over
  gRPC and HTTP.

  \<^bold>\<open>Shared theories.\<close> \<open>Prelude\<close> has the theorem collections, sums over functions of finite support
  and the error monad. \<open>Rust_Int\<close> models i128 and u128 as integers with their range: a checked
  operation returns an option, a cast wraps. \<open>Rust_Std\<close> models machine words, strings, and the
  hash and tree maps behind the locale \<open>key_map\<close>, interpreted on both. \<open>Rust_Async\<close> models tasks
  over read-write locks, where waiting for ever is a value.

  \<^bold>\<open>Vault contract.\<close>
  \<^item> \<open>Vault_Errors\<close>, \<open>Vault_Types\<close>, \<open>Vault_Events\<close>: \<open>errors.rs\<close>, the structs of \<open>storage.rs\<close>, and
    \<open>events.rs\<close>.
  \<^item> \<open>Vault_Env\<close>: the host. A contract function is a state transformer that returns, fails with an
    error, or traps. Storage areas are records with one field per key; tokens are arbitrary
    contracts, parameters of the environment.
  \<^item> \<open>Reward_Math\<close>, \<open>Vault_Storage\<close>, \<open>Vault_Assets\<close>: the arithmetic and the operations of
    \<open>storage.rs\<close>, native and per asset. \<open>Vault_Contract\<close>: the entry points of \<open>lib.rs\<close>.
    \<open>Vault_V2\<close>: the second version.
  \<^item> \<open>Reward_Pool\<close>: the abstract pool and the locale \<open>reward_ledger\<close>. \<open>Native_Ledger\<close> and
    \<open>Asset_Ledger\<close> prove that the storage operations refine it and interpret the locale.
  \<^item> \<open>Vault_Invariant\<close>, \<open>Vault_Reachability\<close>, \<open>Vault_Solvency\<close>, \<open>Vault_Config\<close>, \<open>Vault_Typing\<close>,
    \<open>Vault_Liveness\<close>: the contract as a state machine, with tokens that call back during a
    transfer; its invariant, custody, what is fixed, the types of what is stored, and when
    operations succeed.
  \<^item> \<open>Vault_Properties\<close>, \<open>Vault_Reward_Properties\<close>, \<open>Vault_Admin_Properties\<close>: C1 to C23, C27, C31.
    Totals are sums, deposits are in custody, claims are covered by rewards paid in, re-entrancy is
    refused, effects and success of deposits and withdrawals, rewards and vesting, administration,
    pausing, separation of assets, the range of every stored amount, and the refinement of the
    abstract pool.

  \<^bold>\<open>Network node.\<close>
  \<^item> \<open>Node_Errors\<close>, \<open>Node_Config\<close>: \<open>error.rs\<close>, \<open>config.rs\<close>.
  \<^item> \<open>Chain_Params\<close>, \<open>Governance\<close>, \<open>Chain_Properties\<close> (C24 to C26, C28): \<open>chain_params.rs\<close> and
    \<open>governance.rs\<close>. The registry is a step relation from a genesis document; the parameters in
    force follow the schedule of upgrades, the delay is kept, and two governance modes guarantee
    less than announced.
  \<^item> \<open>Consensus\<close>, \<open>Consensus_Properties\<close> (C29, C30): \<open>consensus.rs\<close>. One vote per participant, and
    the deadlock of the vote that completes a quorum.
  \<^item> \<open>P2p\<close>, \<open>Rate_Limiter\<close>, \<open>State_Trie\<close>, \<open>Network_Properties\<close> (C32, C34, C35): \<open>p2p.rs\<close>,
    \<open>rate_limiter.rs\<close>, \<open>state_trie.rs\<close>.
  \<^item> \<open>Error_Middleware\<close>, \<open>Soroban_Rpc\<close>, \<open>Resilience_Properties\<close> (C36, C37), \<open>Horizon_Client\<close>,
    \<open>Horizon_Properties\<close> (C38): circuit breakers and failover.
  \<^item> \<open>Grpc_Auth\<close>, \<open>Network_Service\<close>, \<open>Gateway_Service\<close>, \<open>Signing\<close>, \<open>Service_Properties\<close> (C39,
    C40): the administrative interceptor of \<open>grpc/server.rs\<close>, the two services behind it with the
    messages of \<open>proto/network.proto\<close> and \<open>proto/gateway.proto\<close>, and \<open>signing.rs\<close>. Upgrades over
    gRPC need the configured token, and cached keys are no older than their time to live.
  \<^item> \<open>Http_Server\<close>, \<open>Http_Properties\<close> (C33): the middleware stack, probes and shutdown steps of
    \<open>enhanced_server.rs\<close>. Requests are a state machine whose steps are the layers; a request on
    its own gets what the composed stack answers. After the server stops accepting no request
    reaches a handler, and the wait for open requests is exact but for dropped ones.
  \<^item> \<open>Stellar_Service\<close>: \<open>stellar_service.rs\<close> with its HTTP handlers, the submission of
    \<open>soroban_service.rs\<close>, and the loop of \<open>indexer.rs\<close>. \<open>Node_Lifecycle\<close>: from \<open>lib.rs\<close> the
    signing set-up, after which a default signer exists, and the graceful shutdown, which ends
    with pool and server closed after at most the grace period.
  \<^item> \<open>Kms_Signer\<close> (\<open>aws_kms_signer.rs\<close> and \<open>amazon_eks.rs\<close>): the retry loop returns what the first
    attempt returns that is final, and the connection test of a new signer never rejects it.
    \<open>Crypto_Pool\<close> (\<open>crypto.rs\<close>): the counts of a batch, and the sizes of waiting and finished
    batches under any interleaving of workers and the batch processor. \<open>Peer_Service\<close>
    (\<open>grpc/p2p_service.rs\<close>, \<open>grpc/health_service.rs\<close>, \<open>grpc/vault_service.rs\<close>): the database is
    reported as healthy whatever its query answers.

  \<^bold>\<open>Conventions.\<close> Amounts of the contract are integers with every check of the source written out.
  Counters and heights of the node are machine words: the release profile does not enable overflow
  checks, so \<open>+\<close> wraps, and saturating operations are named as such. Loops are recursion
  over the data they traverse; no definition uses fuel. The waiting loops of the shutdown count to
  the bound of the source. The retry loop of the Horizon client counts
  its attempts up to the number of providers, as the source does, and terminates for that reason. Clocks,
  random values, hash functions, HTTP and key-value back ends are arguments. Some
  files do not compile as they stand, because a constructor, a field or a module is not declared;
  the model takes the evident meaning, and the theory of the component says where.

  \<^bold>\<open>Not modelled.\<close>
  \<^item> The spawning of tasks and the receiving service of \<open>crypto.rs\<close>, and the stream of health
    updates, are task plumbing around channels; parts of it do not compile.
  \<^item> Of \<open>enhanced_server.rs\<close> the routing table, TLS, the constant liveness answers, the metrics and
    memory reports, and two handlers that are not routed and use missing fields; \<open>server.rs\<close>,
    \<open>gateway.rs\<close>, \<open>tls_utils.rs\<close> and the start of the gRPC server configure HTTP and TLS libraries.
  \<^item> \<open>database.rs\<close> is a pool of the sqlx library; the answer of its health check is modelled, and
    its counters are arguments.
  \<^item> Of \<open>lib.rs\<close> the construction of the parts and the race between background tasks; \<open>main.rs\<close>
    and \<open>shutdown.rs\<close> install signal handlers. Of \<open>soroban_service.rs\<close> the operations that only
    pass a call on.
  \<^item> \<open>metrics.rs\<close>, \<open>telemetry.rs\<close>, \<open>profiling.rs\<close>, \<open>memory_profiling.rs\<close>, \<open>openapi.rs\<close> and logging
    do not affect results. Persistence of storage entries over their time to live is recorded as
    events of the host, and not as expiry.
\<close>

end
